(* ===== verification/Prelude.thy ===== *)
theory Prelude
  imports Main "HOL-Library.Word" "HOL-Library.State_Monad" "HOL-Library.Signed_Division"
begin

section \<open>Prelude: machine integers, effects, shared automation\<close>

text \<open>
  What every theory of the development shares: names for the C integer types, a few
  readers and writers on top of the library's state monad (a C function with side effects
  is a computation \<open>('s, 'a) state\<close> over the record of the statics it touches),
  lists of events with a fold over them, and the collections \<open>run_simps\<close> (symbolic
  execution of computations) and \<open>log_simps\<close> (folds over call logs).
\<close>

unbundle bit_operations_syntax

named_theorems run_simps \<open>symbolic execution of monadic C functions\<close>
named_theorems log_simps \<open>folds over the log of external calls\<close>

subsection \<open>Integer types\<close>

text \<open>
  \<open>i32\<close> and \<open>u32\<close> are the same bits; a signed value is read with \<open>sint\<close>,
  an unsigned one with \<open>unat\<close> or \<open>uint\<close>. The conversion between \<open>int\<close> and
  \<open>uint32_t\<close>, which C does on a call, is then the identity on the bits.
\<close>

type_synonym u8 = "8 word"
type_synonym u32 = "32 word"
type_synonym i32 = "32 word"
type_synonym u64 = "64 word"
type_synonym s64 = "64 word"

text \<open>Signed division of C, which truncates towards zero.\<close>

definition sdiv32 :: "i32 \<Rightarrow> i32 \<Rightarrow> i32" where
  "sdiv32 a b = word_of_int (sint a sdiv sint b)"

lemma sint_of_small:
  "- (2 ^ 31) \<le> k \<Longrightarrow> k < 2 ^ 31 \<Longrightarrow> sint (word_of_int k :: i32) = k"
  by (simp add: signed_take_bit_int_eq_self sint_sbintrunc')

lemma uint_of_small: "0 \<le> k \<Longrightarrow> k < 2 ^ 32 \<Longrightarrow> uint (word_of_int k :: u32) = k"
  by (simp add: take_bit_int_eq_self uint_word_of_int_eq)

lemma sint_eq_uint_small: "uint (w :: u32) < 2 ^ 31 \<Longrightarrow> sint w = uint w"
  using sint_of_small [of "uint w"] uint_ge_0 [of w] by simp

lemma unat_u32_less: "unat (w :: u32) < 2 ^ 32"
  using unsigned_less [of w, where 'a = nat] by simp

lemma uint_small64: "0 \<le> k \<Longrightarrow> k < 2 ^ 64 \<Longrightarrow> uint (word_of_int k :: 64 word) = k"
  by (simp add: take_bit_int_eq_self uint_word_of_int_eq)

lemma sint_small64: "- (2 ^ 63) \<le> k \<Longrightarrow> k < 2 ^ 63 \<Longrightarrow> sint (word_of_int k :: 64 word) = k"
  by (simp add: signed_take_bit_int_eq_self sint_sbintrunc')

subsection \<open>Computations over a state\<close>

abbreviation ret :: "'a \<Rightarrow> ('s, 'a) state" where
  "ret \<equiv> State_Monad.return"

definition gets :: "('s \<Rightarrow> 'a) \<Rightarrow> ('s, 'a) state" where
  "gets f = State (\<lambda>s. (f s, s))"

definition modify :: "('s \<Rightarrow> 's) \<Rightarrow> ('s, unit) state" where
  "modify f = State (\<lambda>s. ((), f s))"

text \<open>A computation on a part of the state, run inside the whole.\<close>

definition zoom :: "('s \<Rightarrow> 't) \<Rightarrow> ('t \<Rightarrow> 's \<Rightarrow> 's) \<Rightarrow> ('t, 'a) state \<Rightarrow> ('s, 'a) state" where
  "zoom g p m = State (\<lambda>s. case run_state m (g s) of (a, t) \<Rightarrow> (a, p t s))"

definition result :: "('s, 'a) state \<Rightarrow> 's \<Rightarrow> 'a" where
  "result m s = fst (run_state m s)"

definition exec :: "('s, 'a) state \<Rightarrow> 's \<Rightarrow> 's" where
  "exec m s = snd (run_state m s)"

definition only_if :: "bool \<Rightarrow> ('s, unit) state \<Rightarrow> ('s, unit) state" where
  "only_if b m = (if b then m else ret ())"

lemma run_gets [simp, run_simps]: "run_state (gets f) s = (f s, s)"
  by (simp add: gets_def)

lemma run_modify [simp, run_simps]: "run_state (modify f) s = ((), f s)"
  by (simp add: modify_def)

lemma run_zoom [simp, run_simps]:
  "run_state (zoom g p m) s = (result m (g s), p (exec m (g s)) s)"
  by (simp add: zoom_def result_def exec_def split: prod.splits)

lemma run_only_if [simp, run_simps]:
  "run_state (only_if b m) s = (if b then run_state m s else ((), s))"
  by (simp add: only_if_def)

lemma result_bind [run_simps]:
  "result (State_Monad.bind m f) s = result (f (result m s)) (exec m s)"
  by (simp add: result_def exec_def split: prod.splits)

lemma exec_bind [run_simps]:
  "exec (State_Monad.bind m f) s = exec (f (result m s)) (exec m s)"
  by (simp add: result_def exec_def split: prod.splits)

lemma result_exec_basic [simp, run_simps]:
  "result (ret a) s = a" "exec (ret a) s = s"
  "result (gets f) s = f s" "exec (gets f) s = s"
  "result (modify h) s = ()" "exec (modify h) s = h s"
  "exec (only_if b m') s = (if b then exec m' s else s)"
  "result (zoom g p m) s = result m (g s)"
  "exec (zoom g p m) s = p (exec m (g s)) s"
  by (simp_all add: result_def exec_def split: prod.splits)

lemma result_if [run_simps]: "result (if b then m else n) s = (if b then result m s else result n s)"
  by simp

lemma exec_if [run_simps]: "exec (if b then m else n) s = (if b then exec m s else exec n s)"
  by simp

lemma result_unit [simp]: "result (m :: ('s, unit) state) s = ()"
  by simp

lemma result_let [run_simps]: "result (let x = a in m x) s = result (m a) s"
  by simp

lemma exec_let [run_simps]: "exec (let x = a in m x) s = exec (m a) s"
  by simp

lemma result_case_option [run_simps]:
  "result (case x of None \<Rightarrow> m | Some a \<Rightarrow> f a) s =
    (case x of None \<Rightarrow> result m s | Some a \<Rightarrow> result (f a) s)"
  by (cases x) simp_all

lemma exec_case_option [run_simps]:
  "exec (case x of None \<Rightarrow> m | Some a \<Rightarrow> f a) s =
    (case x of None \<Rightarrow> exec m s | Some a \<Rightarrow> exec (f a) s)"
  by (cases x) simp_all

subsection \<open>What a computation leaves alone\<close>

text \<open>\<open>Q\<close> reads a part of the state; \<open>m\<close> ends with the part it began with.\<close>

definition keeps :: "('s \<Rightarrow> 'b) \<Rightarrow> ('s, 'a) state \<Rightarrow> bool" where
  "keeps Q m \<longleftrightarrow> (\<forall>s. Q (exec m s) = Q s)"

named_theorems keeps_rules \<open>what a computation leaves alone\<close>

lemma keepsI: "(\<And>s. Q (exec m s) = Q s) \<Longrightarrow> keeps Q m"
  by (simp add: keeps_def)

lemma keepsD: "keeps Q m \<Longrightarrow> Q (exec m s) = Q s"
  by (simp add: keeps_def)

lemma keeps_bind [keeps_rules]: "keeps Q m \<Longrightarrow> (\<And>x. keeps Q (f x)) \<Longrightarrow> keeps Q (m \<bind> f)"
  by (simp add: keeps_def exec_bind)

lemma keeps_ret [keeps_rules]: "keeps Q (ret x)"
  by (simp add: keeps_def)

lemma keeps_gets [keeps_rules]: "keeps Q (gets f)"
  by (simp add: keeps_def)

lemma keeps_modify: "(\<And>s. Q (f s) = Q s) \<Longrightarrow> keeps Q (modify f)"
  by (simp add: keeps_def)

lemma keeps_if [keeps_rules]: "keeps Q m \<Longrightarrow> keeps Q n \<Longrightarrow> keeps Q (if b then m else n)"
  by simp

lemma keeps_only_if [keeps_rules]: "keeps Q m \<Longrightarrow> keeps Q (only_if b m)"
  by (simp add: keeps_def)

lemma keeps_case_option [keeps_rules]:
  "keeps Q m \<Longrightarrow> (\<And>x. keeps Q (f x)) \<Longrightarrow> keeps Q (case a of None \<Rightarrow> m | Some x \<Rightarrow> f x)"
  by (cases a) simp_all

subsection \<open>Folds over event logs\<close>

text \<open>
  A discipline on the calls that a component makes is a partial step function on some
  bookkeeping value; \<open>None\<close> is a violation. \<open>run_log\<close> runs it over a log.
\<close>

fun run_log :: "('a \<Rightarrow> 'e \<Rightarrow> 'a option) \<Rightarrow> 'a \<Rightarrow> 'e list \<Rightarrow> 'a option" where
  "run_log f a [] = Some a"
| "run_log f a (e # es) = Option.bind (f a e) (\<lambda>b. run_log f b es)"

lemma run_log_append [simp, log_simps]:
  "run_log f a (xs @ ys) = Option.bind (run_log f a xs) (\<lambda>b. run_log f b ys)"
  by (induction xs arbitrary: a) simp_all

end
