(* ===== verification/KernelApi.thy ===== *)
theory KernelApi
  imports Prelude "HOL-Library.Multiset"
begin

section \<open>The kernel interface that the modules call\<close>

text \<open>
  The Linux functions that the kernel modules call are not in the repository: they are a parameter of the model. A call is a value of \<open>kcall\<close>; an
  environment \<open>kenv\<close> answers it with an integer (a return code, a pointer, a register
  value), as any function of the calls made before. Every call and its answer is appended
  to a log. Pointers are integers: 0 is \<open>NULL\<close>, an error pointer is one of the last
  4095 addresses, here \<open>-4095 .. -1\<close>, so that \<open>PTR_ERR\<close> is the integer itself.
  Messages to the kernel console (\<open>pr_info\<close> and its kin) are left out.
\<close>

datatype klock = Sysfs_lock | Regulator_lock | Temp_lock

datatype kcall =
    Mutex_lock klock
  | Mutex_unlock klock
  | Request_mem_region nat nat string
  | Release_mem_region nat nat
  | Ioremap nat nat
  | Iounmap int
  | Ioread32 int
  | Gpio_request nat string
  | Gpio_direction_output nat int
  | Gpio_set_value nat bool
  | Gpio_free nat
  | Kthread_run string
  | Kthread_stop int
  | Kthread_should_stop
  | Msleep u32
  | Class_create string
  | Class_destroy int
  | Device_create int nat string
  | Device_destroy int nat
  | Sysfs_create_group int
  | Sysfs_remove_group int
  | Alloc_chrdev_region nat string
  | Unregister_chrdev_region nat
  | Cdev_add nat
  | Cdev_del
  | Kcalloc nat nat
  | Kfree int
  | Gpio_to_irq nat
  | Request_irq int string
  | Free_irq int
  | Ssleep nat
  | Device_create_file int string
  | Device_remove_file int string
  | Proc_mkdir string
  | Proc_create string int
  | Remove_proc_entry string int
  | Misc_register string
  | Misc_deregister string
  | Platform_device_register string nat
  | Platform_device_unregister string nat
  | Platform_driver_register string
  | Platform_driver_unregister string
  | Null_call string \<comment> \<open>a call or an access through a NULL pointer: the kernel oopses\<close>

type_synonym kevent = "kcall \<times> int"

text \<open>
  \<open>kstrtoint (s, 10, &x)\<close> and \<open>kstrtouint\<close> return 0 and store a value, or return an
  error and store nothing: \<open>Some\<close> or \<open>None\<close>.
\<close>

record kenv =
  kret :: "kevent list \<Rightarrow> kcall \<Rightarrow> int"
  kstrtoint :: "string \<Rightarrow> i32 option"
  kstrtouint :: "string \<Rightarrow> u32 option"
  PAGE_SIZE :: nat

record klog = klog :: "kevent list"

definition kapi :: "kenv \<Rightarrow> kcall \<Rightarrow> ('z klog_scheme, int) state" where
  "kapi E c = State (\<lambda>s. let r = kret E (klog s) c in (r, s\<lparr>klog := klog s @ [(c, r)]\<rparr>))"

lemma result_kapi [simp, run_simps]: "result (kapi E c) s = kret E (klog s) c"
  by (simp add: kapi_def result_def Let_def)

lemma exec_kapi [simp, run_simps]:
  "exec (kapi E c) s = s\<lparr>klog := klog s @ [(c, kret E (klog s) c)]\<rparr>"
  by (simp add: kapi_def exec_def Let_def)

text \<open>A call whose result is not used.\<close>

definition void :: "('s, 'a) state \<Rightarrow> ('s, unit) state" where
  "void m = m \<bind> (\<lambda>_. ret ())"

lemma exec_void [simp, run_simps]: "exec (void m) s = exec m s"
  by (simp add: void_def exec_bind)

definition IS_ERR :: "int \<Rightarrow> bool" where
  "IS_ERR p \<longleftrightarrow> - 4095 \<le> p \<and> p \<le> - 1"

definition ENOMEM :: int where "ENOMEM = 12"
definition EINVAL :: int where "EINVAL = 22"

subsection \<open>Lock discipline\<close>

text \<open>
  The mutexes are not recursive: a lock that is already held deadlocks. The order in which
  they nest is \<open>sysfs_lock\<close>, \<open>regulator_lock\<close>, \<open>temp_lock\<close>; taking one against
  that order could deadlock with another thread. \<open>lock_state\<close> replays a log from no lock
  held: \<open>None\<close> is a violation, \<open>Some hs\<close> the locks held at the end.
\<close>

fun lock_rank :: "klock \<Rightarrow> nat" where
  "lock_rank Sysfs_lock = 0"
| "lock_rank Regulator_lock = 1"
| "lock_rank Temp_lock = 2"

definition lock_step :: "klock list \<Rightarrow> kevent \<Rightarrow> klock list option" where
  "lock_step hs e = (case fst e of
       Mutex_lock l \<Rightarrow> if \<forall>h \<in> set hs. lock_rank h < lock_rank l then Some (l # hs) else None
     | Mutex_unlock l \<Rightarrow> if l \<in> set hs then Some (remove1 l hs) else None
     | _ \<Rightarrow> Some hs)"

definition lock_state :: "kevent list \<Rightarrow> klock list option" where
  "lock_state = run_log lock_step []"

lemma lock_state_append [simp, log_simps]:
  "lock_state (es @ fs) = Option.bind (lock_state es) (\<lambda>hs. run_log lock_step hs fs)"
  by (simp add: lock_state_def)

lemma lock_step_simps [simp]:
  "lock_step hs (Mutex_lock l, r) =
     (if \<forall>h \<in> set hs. lock_rank h < lock_rank l then Some (l # hs) else None)"
  "lock_step hs (Mutex_unlock l, r) = (if l \<in> set hs then Some (remove1 l hs) else None)"
  by (simp_all add: lock_step_def)

definition lock_call :: "kcall \<Rightarrow> bool" where
  "lock_call c = (case c of Mutex_lock _ \<Rightarrow> True | Mutex_unlock _ \<Rightarrow> True | _ \<Rightarrow> False)"

lemma lock_step_other [simp]: "\<not> lock_call c \<Longrightarrow> lock_step hs (c, r) = Some hs"
  by (cases c) (simp_all add: lock_step_def lock_call_def)

lemma lock_call_simps [simp]:
  "lock_call (Mutex_lock l)" "lock_call (Mutex_unlock l)"
  "\<not> lock_call (Request_mem_region a n nm)" "\<not> lock_call (Release_mem_region a n)"
  "\<not> lock_call (Ioremap a n)" "\<not> lock_call (Iounmap p)" "\<not> lock_call (Ioread32 p)"
  "\<not> lock_call (Gpio_request g nm)" "\<not> lock_call (Gpio_direction_output g v)"
  "\<not> lock_call (Gpio_set_value g b)" "\<not> lock_call (Gpio_free g)" "\<not> lock_call (Kthread_run nm)"
  "\<not> lock_call (Kthread_stop p)" "\<not> lock_call Kthread_should_stop" "\<not> lock_call (Msleep d)"
  "\<not> lock_call (Class_create nm)" "\<not> lock_call (Class_destroy p)"
  "\<not> lock_call (Device_create p g nm)" "\<not> lock_call (Device_destroy p g)"
  "\<not> lock_call (Sysfs_create_group p)" "\<not> lock_call (Sysfs_remove_group p)"
  "\<not> lock_call (Null_call nm)" "\<not> lock_call (Alloc_chrdev_region k nm)"
  "\<not> lock_call (Unregister_chrdev_region k)" "\<not> lock_call (Cdev_add k)" "\<not> lock_call Cdev_del"
  "\<not> lock_call (Kcalloc k n)" "\<not> lock_call (Kfree p)" "\<not> lock_call (Gpio_to_irq g)"
  "\<not> lock_call (Request_irq i nm)" "\<not> lock_call (Free_irq i)" "\<not> lock_call (Ssleep k)"
  "\<not> lock_call (Device_create_file p nm)" "\<not> lock_call (Device_remove_file p nm)"
  "\<not> lock_call (Proc_mkdir nm)" "\<not> lock_call (Proc_create nm p)"
  "\<not> lock_call (Remove_proc_entry nm p)" "\<not> lock_call (Misc_register nm)"
  "\<not> lock_call (Misc_deregister nm)"
  "\<not> lock_call (Platform_device_register nm k)" "\<not> lock_call (Platform_device_unregister nm k)"
  "\<not> lock_call (Platform_driver_register nm)" "\<not> lock_call (Platform_driver_unregister nm)"
  by (simp_all add: lock_call_def)

text \<open>
  A computation that respects the discipline when only locks of a rank below \<open>n\<close> are held,
  and holds the same locks at its end, whatever path it takes. \<open>L\<close> reads the lock state.
\<close>

definition well_locked :: "('s \<Rightarrow> klock list option) \<Rightarrow> nat \<Rightarrow> ('s, 'a) state \<Rightarrow> bool" where
  "well_locked L n m \<longleftrightarrow> (\<forall>s hs. L s = Some hs \<longrightarrow> (\<forall>h \<in> set hs. lock_rank h < n) \<longrightarrow>
     L (exec m s) = Some hs)"

lemma well_lockedI:
  "(\<And>s hs. L s = Some hs \<Longrightarrow> \<forall>h \<in> set hs. lock_rank h < n \<Longrightarrow> L (exec m s) = Some hs) \<Longrightarrow>
   well_locked L n m"
  by (simp add: well_locked_def)

lemma well_lockedD:
  "well_locked L n m \<Longrightarrow> L s = Some hs \<Longrightarrow> \<forall>h \<in> set hs. lock_rank h < n \<Longrightarrow>
   L (exec m s) = Some hs"
  by (simp add: well_locked_def)

text \<open>How a kernel interface on a larger world records its calls, seen through \<open>L\<close>.\<close>

definition logs_locks :: "('s \<Rightarrow> klock list option) \<Rightarrow> (kcall \<Rightarrow> ('s, int) state) \<Rightarrow> bool" where
  "logs_locks L K \<longleftrightarrow> (\<forall>c s. L (exec (K c) s) =
     Option.bind (L s) (\<lambda>hs. lock_step hs (c, result (K c) s)))"

lemma logs_locksD:
  "logs_locks L K \<Longrightarrow> L (exec (K c) s) = Option.bind (L s) (\<lambda>hs. lock_step hs (c, result (K c) s))"
  by (simp add: logs_locks_def)

lemma logs_locks_kapi: "logs_locks (\<lambda>s. lock_state (klog s)) (kapi E)"
  by (simp add: logs_locks_def)

subsection \<open>Resources\<close>

text \<open>
  What the module owns: a resource is acquired by a call that succeeds and released by its
  counterpart. \<open>res_state\<close> replays a log from nothing owned: \<open>None\<close> is a misuse (a
  release of something that is not owned, a thread stopped that does not run, a call
  through \<open>NULL\<close>, a read through an unmapped address), \<open>Some R\<close> what is owned at
  the end.
\<close>

datatype kres =
    R_region nat
  | R_mapping int
  | R_gpio nat
  | R_thread int
  | R_class int
  | R_device nat
  | R_group int
  | R_chrdev
  | R_cdev
  | R_mem int
  | R_irq int
  | R_file string
  | R_proc string int
  | R_misc string
  | R_platform string nat
  | R_driver string

definition drop_res :: "kres \<Rightarrow> kres multiset \<Rightarrow> kres multiset option" where
  "drop_res x R = (if x \<in># R then Some (R - {#x#}) else None)"

definition res_step :: "kres multiset \<Rightarrow> kevent \<Rightarrow> kres multiset option" where
  "res_step R e = (case fst e of
       Request_mem_region a _ _ \<Rightarrow> Some (if snd e = 0 then R else add_mset (R_region a) R)
     | Release_mem_region a _ \<Rightarrow> drop_res (R_region a) R
     | Ioremap _ _ \<Rightarrow> Some (if snd e = 0 then R else add_mset (R_mapping (snd e)) R)
     | Iounmap p \<Rightarrow> drop_res (R_mapping p) R
     | Gpio_request g _ \<Rightarrow> Some (if snd e = 0 then add_mset (R_gpio g) R else R)
     | Gpio_free g \<Rightarrow> drop_res (R_gpio g) R
     | Kthread_run _ \<Rightarrow> Some (if IS_ERR (snd e) then R else add_mset (R_thread (snd e)) R)
     | Kthread_stop p \<Rightarrow> drop_res (R_thread p) R
     | Class_create _ \<Rightarrow> Some (if IS_ERR (snd e) then R else add_mset (R_class (snd e)) R)
     | Class_destroy p \<Rightarrow> drop_res (R_class p) R
     | Device_create _ g _ \<Rightarrow> Some (if IS_ERR (snd e) then R else add_mset (R_device g) R)
     | Device_destroy _ g \<Rightarrow> drop_res (R_device g) R
     | Sysfs_create_group p \<Rightarrow> Some (if snd e = 0 then add_mset (R_group p) R else R)
     | Sysfs_remove_group p \<Rightarrow> drop_res (R_group p) R
     | Alloc_chrdev_region _ _ \<Rightarrow> Some (if snd e = 0 then add_mset R_chrdev R else R)
     | Unregister_chrdev_region _ \<Rightarrow> drop_res R_chrdev R
     | Cdev_add _ \<Rightarrow> Some (if snd e = 0 then add_mset R_cdev R else R)
     | Cdev_del \<Rightarrow> drop_res R_cdev R
     | Kcalloc _ _ \<Rightarrow> Some (if snd e = 0 then R else add_mset (R_mem (snd e)) R)
     | Kfree p \<Rightarrow> (if p = 0 then Some R else drop_res (R_mem p) R)
     | Request_irq i _ \<Rightarrow> Some (if snd e = 0 then add_mset (R_irq i) R else R)
     | Free_irq i \<Rightarrow> drop_res (R_irq i) R
     | Device_create_file _ nm \<Rightarrow> Some (if snd e = 0 then add_mset (R_file nm) R else R)
     | Device_remove_file _ nm \<Rightarrow> drop_res (R_file nm) R
     | Proc_mkdir nm \<Rightarrow> Some (if snd e = 0 then R else add_mset (R_proc nm 0) R)
     | Proc_create nm p \<Rightarrow> Some (if snd e = 0 then R else add_mset (R_proc nm p) R)
     | Remove_proc_entry nm p \<Rightarrow> drop_res (R_proc nm p) R
     | Misc_register nm \<Rightarrow> Some (if snd e = 0 then add_mset (R_misc nm) R else R)
     | Misc_deregister nm \<Rightarrow> drop_res (R_misc nm) R
     | Platform_device_register nm k \<Rightarrow>
         Some (if snd e = 0 then add_mset (R_platform nm k) R else R)
     | Platform_device_unregister nm k \<Rightarrow> drop_res (R_platform nm k) R
     | Platform_driver_register nm \<Rightarrow> Some (if snd e = 0 then add_mset (R_driver nm) R else R)
     | Platform_driver_unregister nm \<Rightarrow> drop_res (R_driver nm) R
     | Null_call _ \<Rightarrow> None
     | _ \<Rightarrow> Some R)"

definition res_state :: "kevent list \<Rightarrow> kres multiset option" where
  "res_state = run_log res_step {#}"

lemma res_state_append [simp, log_simps]:
  "res_state (es @ fs) = Option.bind (res_state es) (\<lambda>R. run_log res_step R fs)"
  by (simp add: res_state_def)

lemma res_step_simps [simp]:
  "res_step R (Mutex_lock l, r) = Some R"
  "res_step R (Mutex_unlock l, r) = Some R"
  "res_step R (Request_mem_region a n nm, r) = Some (if r = 0 then R else add_mset (R_region a) R)"
  "res_step R (Release_mem_region a n, r) = drop_res (R_region a) R"
  "res_step R (Ioremap a n, r) = Some (if r = 0 then R else add_mset (R_mapping r) R)"
  "res_step R (Iounmap p, r) = drop_res (R_mapping p) R"
  "res_step R (Ioread32 p, r) = Some R"
  "res_step R (Gpio_request g nm, r) = Some (if r = 0 then add_mset (R_gpio g) R else R)"
  "res_step R (Gpio_direction_output g v, r) = Some R"
  "res_step R (Gpio_set_value g b, r) = Some R"
  "res_step R (Gpio_free g, r) = drop_res (R_gpio g) R"
  "res_step R (Kthread_run nm, r) = Some (if IS_ERR r then R else add_mset (R_thread r) R)"
  "res_step R (Kthread_stop p, r) = drop_res (R_thread p) R"
  "res_step R (Kthread_should_stop, r) = Some R"
  "res_step R (Msleep d, r) = Some R"
  by (simp_all add: res_step_def)

lemma res_step_simps2 [simp]:
  "res_step R (Class_create nm, r) = Some (if IS_ERR r then R else add_mset (R_class r) R)"
  "res_step R (Class_destroy p, r) = drop_res (R_class p) R"
  "res_step R (Device_create p g nm, r) = Some (if IS_ERR r then R else add_mset (R_device g) R)"
  "res_step R (Device_destroy p g, r) = drop_res (R_device g) R"
  "res_step R (Sysfs_create_group p, r) = Some (if r = 0 then add_mset (R_group p) R else R)"
  "res_step R (Sysfs_remove_group p, r) = drop_res (R_group p) R"
  "res_step R (Null_call nm, r) = None"
  by (simp_all add: res_step_def)

lemma res_step_simps3 [simp]:
  "res_step R (Alloc_chrdev_region k nm, r) = Some (if r = 0 then add_mset R_chrdev R else R)"
  "res_step R (Unregister_chrdev_region k, r) = drop_res R_chrdev R"
  "res_step R (Cdev_add k, r) = Some (if r = 0 then add_mset R_cdev R else R)"
  "res_step R (Cdev_del, r) = drop_res R_cdev R"
  "res_step R (Kcalloc k n, r) = Some (if r = 0 then R else add_mset (R_mem r) R)"
  "res_step R (Kfree p, r) = (if p = 0 then Some R else drop_res (R_mem p) R)"
  "res_step R (Gpio_to_irq g, r) = Some R"
  "res_step R (Request_irq i nm, r) = Some (if r = 0 then add_mset (R_irq i) R else R)"
  "res_step R (Free_irq i, r) = drop_res (R_irq i) R"
  "res_step R (Ssleep k, r) = Some R"
  by (simp_all add: res_step_def)

lemma res_step_simps4 [simp]:
  "res_step R (Device_create_file p nm, r) = Some (if r = 0 then add_mset (R_file nm) R else R)"
  "res_step R (Device_remove_file p nm, r) = drop_res (R_file nm) R"
  "res_step R (Proc_mkdir nm, r) = Some (if r = 0 then R else add_mset (R_proc nm 0) R)"
  "res_step R (Proc_create nm p, r) = Some (if r = 0 then R else add_mset (R_proc nm p) R)"
  "res_step R (Remove_proc_entry nm p, r) = drop_res (R_proc nm p) R"
  "res_step R (Misc_register nm, r) = Some (if r = 0 then add_mset (R_misc nm) R else R)"
  "res_step R (Misc_deregister nm, r) = drop_res (R_misc nm) R"
  by (simp_all add: res_step_def)

lemma res_step_simps5 [simp]:
  "res_step R (Platform_device_register nm k, r) =
     Some (if r = 0 then add_mset (R_platform nm k) R else R)"
  "res_step R (Platform_device_unregister nm k, r) = drop_res (R_platform nm k) R"
  "res_step R (Platform_driver_register nm, r) = Some (if r = 0 then add_mset (R_driver nm) R else R)"
  "res_step R (Platform_driver_unregister nm, r) = drop_res (R_driver nm) R"
  by (simp_all add: res_step_def)

text \<open>The locks in the order in which they nest.\<close>

instantiation klock :: linorder
begin

definition less_eq_klock :: "klock \<Rightarrow> klock \<Rightarrow> bool" where
  "less_eq_klock a b \<longleftrightarrow> lock_rank a \<le> lock_rank b"

definition less_klock :: "klock \<Rightarrow> klock \<Rightarrow> bool" where
  "less_klock a b \<longleftrightarrow> lock_rank a < lock_rank b"

instance
proof
  fix a b :: klock
  show "a \<le> b \<Longrightarrow> b \<le> a \<Longrightarrow> a = b"
    by (cases a; cases b) (simp_all add: less_eq_klock_def)
qed (auto simp: less_eq_klock_def less_klock_def)

end

text \<open>
  A log that respects the discipline holds its locks in strictly falling order: no lock twice,
  and a waiting thread only ever waits for a lock behind all that it holds.
\<close>

lemma sorted_wrt_remove1: "sorted_wrt P xs \<Longrightarrow> sorted_wrt P (remove1 x xs)"
  using set_remove1_subset [of x] by (induction xs) fastforce+

lemma lock_call_iff: "lock_call c \<longleftrightarrow> (\<exists>l. c = Mutex_lock l) \<or> (\<exists>l. c = Mutex_unlock l)"
  by (cases c) simp_all

lemma lock_step_sorted:
  assumes "lock_step hs (c, r) = Some hs'" and "sorted_wrt (>) hs"
  shows "sorted_wrt (>) hs'"
proof (cases "lock_call c")
  case True
  then show ?thesis
    using assms by (auto simp: lock_call_iff less_klock_def sorted_wrt_remove1 split: if_splits)
qed (use assms in simp)

lemma lock_state_sorted: "lock_state es = Some hs \<Longrightarrow> sorted_wrt (>) hs"
proof (induction es arbitrary: hs rule: rev_induct)
  case (snoc e es)
  then obtain gs where "lock_state es = Some gs" "lock_step gs e = Some hs"
    by (auto simp: bind_eq_Some_conv)
  with snoc.IH show ?case by (cases e) (blast intro: lock_step_sorted)
qed (simp add: lock_state_def)

lemma drop_res_add [simp]: "drop_res x (add_mset x R) = Some R"
  by (simp add: drop_res_def)

lemma drop_res_add_other [simp]:
  "x \<noteq> y \<Longrightarrow> drop_res x (add_mset y R) = map_option (add_mset y) (drop_res x R)"
  by (simp add: drop_res_def)

lemma drop_res_empty [simp]: "drop_res x {#} = None"
  by (simp add: drop_res_def)

end
