(* ===== verification/Temp.thy ===== *)
theory Temp
  imports KernelApi
begin

section \<open>The temperature sensor: \<open>kernel/temperature/temp.c\<close>\<close>

text \<open>
  The statics \<open>temp_res\<close> and \<open>temp_reg\<close>, the initialisation and release of the
  sensor's registers and \<open>read_temp\<close>, whose 32-bit arithmetic is kept at its width (the
  kernel is built with wrapping signed arithmetic). Lemmas: the exact value and its range
  for readings of the 12-bit sensor, the point from which it wraps, release on failure.
\<close>

record temp = klog +
  temp_res :: int
  temp_reg :: int

definition TEMPERATURE_SENSOR_BASE_ADDR :: nat where "TEMPERATURE_SENSOR_BASE_ADDR = 0x01C25000"
definition TEMPERATURE_SENSOR_REG_SIZE :: nat where "TEMPERATURE_SENSOR_REG_SIZE = 0x1000"
definition TEMPERATURE_REG_OFFSET :: int where "TEMPERATURE_REG_OFFSET = 0x80"

definition temp_init :: "kenv \<Rightarrow> ('z temp_scheme, int) state" where
  "temp_init E = do {
     void (kapi E (Mutex_lock Temp_lock));
     res \<leftarrow> kapi E (Request_mem_region TEMPERATURE_SENSOR_BASE_ADDR TEMPERATURE_SENSOR_REG_SIZE
                     ''nanopi - temperature sensor'');
     modify (\<lambda>s. s\<lparr>temp_res := res\<rparr>);
     reg \<leftarrow> kapi E (Ioremap TEMPERATURE_SENSOR_BASE_ADDR TEMPERATURE_SENSOR_REG_SIZE);
     modify (\<lambda>s. s\<lparr>temp_reg := reg\<rparr>);
     if reg = 0 then do {
       only_if (res \<noteq> 0) (do {
         void (kapi E (Release_mem_region TEMPERATURE_SENSOR_BASE_ADDR TEMPERATURE_SENSOR_REG_SIZE));
         modify (\<lambda>s. s\<lparr>temp_res := 0\<rparr>)
       });
       void (kapi E (Mutex_unlock Temp_lock));
       ret (- ENOMEM)
     } else do {
       void (kapi E (Mutex_unlock Temp_lock));
       ret 0
     }
   }"

text \<open>The formula of the data sheet, in the \<open>int\<close> arithmetic of the code.\<close>

definition temperature_of_raw :: "u32 \<Rightarrow> u32" where
  "temperature_of_raw raw_val =
     (if 0x500 < raw_val then sdiv32 (- 1191 * raw_val) 10 + 223000
      else sdiv32 (- 1452 * raw_val) 10 + 259000)"

definition read_temp :: "kenv \<Rightarrow> ('z temp_scheme, u32) state" where
  "read_temp E = do {
     void (kapi E (Mutex_lock Temp_lock));
     reg \<leftarrow> gets temp_reg;
     if reg = 0 then do {
       void (kapi E (Mutex_unlock Temp_lock));
       ret 0
     } else do {
       raw \<leftarrow> kapi E (Ioread32 (reg + TEMPERATURE_REG_OFFSET));
       void (kapi E (Mutex_unlock Temp_lock));
       ret (temperature_of_raw (word_of_int raw))
     }
   }"

definition temp_exit :: "kenv \<Rightarrow> ('z temp_scheme, unit) state" where
  "temp_exit E = do {
     void (kapi E (Mutex_lock Temp_lock));
     reg \<leftarrow> gets temp_reg;
     only_if (reg \<noteq> 0) (do {
       void (kapi E (Iounmap reg));
       modify (\<lambda>s. s\<lparr>temp_reg := 0\<rparr>)
     });
     res \<leftarrow> gets temp_res;
     only_if (res \<noteq> 0) (do {
       void (kapi E (Release_mem_region TEMPERATURE_SENSOR_BASE_ADDR TEMPERATURE_SENSOR_REG_SIZE));
       modify (\<lambda>s. s\<lparr>temp_res := 0\<rparr>)
     });
     void (kapi E (Mutex_unlock Temp_lock))
   }"

subsection \<open>The formula\<close>

lemma sdiv_int_neg10: "0 \<le> k \<Longrightarrow> (- k) sdiv 10 = - (k div 10)" for k :: int
  by (cases "k = 0") (simp_all add: signed_divide_int_def)

lemma scaled_temp:
  assumes "k * uint raw < 2 ^ 31" and "0 < k"
  shows "sint (word_of_int (- k) * raw :: i32) = - (k * uint raw)"
proof -
  have "word_of_int (- k) * raw = (word_of_int (- k) * word_of_int (uint raw) :: i32)"
    by simp
  also have "\<dots> = word_of_int (- (k * uint raw))"
    by (simp only: wi_hom_mult mult_minus_left)
  finally have eq: "word_of_int (- k) * raw = word_of_int (- (k * uint raw))" .
  have "0 \<le> k * uint raw" using assms(2) by simp
  then show ?thesis unfolding eq using assms(1) by (intro sint_of_small) linarith+
qed

lemma scaled_temp_div:
  assumes "k * uint raw < 2 ^ 31" and "0 < k" and "0 \<le> c" and "c < 2 ^ 30"
  shows "sint (sdiv32 (word_of_int (- k) * raw) 10 + word_of_int c :: i32) = c - (k * uint raw) div 10"
proof -
  let ?v = "- ((k * uint raw) div 10)"
  have nn: "0 \<le> k * uint raw" using assms(2) by simp
  then have v: "- (2 ^ 30) \<le> ?v" "?v \<le> 0" using assms(1) by auto
  have ten: "sint (10 :: i32) = 10" by simp
  have "sdiv32 (word_of_int (- k) * raw) 10 = (word_of_int ?v :: i32)"
    unfolding sdiv32_def scaled_temp [OF assms(1,2)] ten sdiv_int_neg10 [OF nn] ..
  then have eq: "sdiv32 (word_of_int (- k) * raw) 10 + word_of_int c = (word_of_int (?v + c) :: i32)"
    by (simp only: wi_hom_add)
  have "sint (word_of_int (?v + c) :: i32) = ?v + c"
    using v assms(3,4) by (intro sint_of_small) simp_all
  then show ?thesis unfolding eq by simp
qed

lemma temperature_of_raw_exact:
  assumes "raw \<le> 0xFFF"
  shows "sint (temperature_of_raw raw) =
    (if 0x500 < uint raw then 223000 - (1191 * uint raw) div 10
     else 259000 - (1452 * uint raw) div 10)"
proof -
  have r: "uint raw \<le> 0xFFF" using assms by (simp add: word_le_def)
  have "sint (sdiv32 (- 1191 * raw) 10 + 223000 :: i32) = 223000 - (1191 * uint raw) div 10"
    using scaled_temp_div [of 1191 raw 223000] r by simp
  moreover have "sint (sdiv32 (- 1452 * raw) 10 + 259000 :: i32) = 259000 - (1452 * uint raw) div 10"
    using scaled_temp_div [of 1452 raw 259000] r by simp
  ultimately show ?thesis by (simp add: temperature_of_raw_def word_less_def)
qed

lemma two_pieces_mono:
  fixes a b c d u v :: int
  assumes "a \<le> b" and "c \<le> d" and "u \<le> k \<Longrightarrow> k < v \<Longrightarrow> c \<le> h + b" and "u \<le> v"
    and "e = g + h"
  shows "(if k < v then g - b else e - d) \<le> (if k < u then g - a else e - c)"
  using assms by (cases "k < u"; cases "k < v") auto

lemma temperature_antitone:
  assumes "raw \<le> raw'" and "raw' \<le> 0xFFF"
  shows "sint (temperature_of_raw raw') \<le> sint (temperature_of_raw raw)"
proof -
  have "raw \<le> 0xFFF" using assms by simp
  have le: "uint raw \<le> uint raw'" using assms(1) by (simp add: word_le_def)
  have "1191 * uint raw div 10 \<le> 1191 * uint raw' div 10"
    "1452 * uint raw div 10 \<le> 1452 * uint raw' div 10"
    using le by (simp_all add: zdiv_mono1)
  moreover have "1452 * uint raw div 10 \<le> 36000 + 1191 * uint raw' div 10"
    if "uint raw \<le> 0x500" "0x500 < uint raw'"
  proof -
    have "1452 * uint raw div 10 \<le> 1452 * 0x500 div 10"
      using that by (intro zdiv_mono1) simp_all
    moreover have "1191 * 0x501 div 10 \<le> 1191 * uint raw' div 10"
      using that by (intro zdiv_mono1) simp_all
    ultimately show ?thesis by simp
  qed
  ultimately show ?thesis
    unfolding temperature_of_raw_exact [OF \<open>raw \<le> 0xFFF\<close>] temperature_of_raw_exact [OF assms(2)]
    using le by (intro two_pieces_mono [where h = 36000]) simp_all
qed

lemma temperature_as_unsigned:
  assumes "0 \<le> sint t" shows "uint (t :: u32) = sint t"
  using assms sint_lt [of t] uint_of_small [of "sint t"] by simp

subsection \<open>The operations\<close>

text \<open>What the statics say is owned.\<close>

definition temp_owned :: "('z temp_scheme) \<Rightarrow> kres multiset" where
  "temp_owned s =
     (if temp_res s = 0 then {#} else {#R_region TEMPERATURE_SENSOR_BASE_ADDR#}) +
     (if temp_reg s = 0 then {#} else {#R_mapping (temp_reg s)#})"

lemma temp_init_frame [simp]:
  "temp.more (exec (temp_init E) s) = temp.more s"
  by (simp add: temp_init_def run_simps)

lemma temp_init_result: "result (temp_init E) s = 0 \<longleftrightarrow> temp_reg (exec (temp_init E) s) \<noteq> 0"
  by (simp add: temp_init_def run_simps ENOMEM_def)

lemma temp_init_resources:
  assumes "res_state (klog s) = Some R" and "temp_res s = 0" and "temp_reg s = 0"
  shows "res_state (klog (exec (temp_init E) s)) = Some (R + temp_owned (exec (temp_init E) s))"
  using assms by (simp add: temp_init_def run_simps temp_owned_def)

lemma temp_init_failed:
  "result (temp_init E) s \<noteq> 0 \<Longrightarrow> temp_owned (exec (temp_init E) s) = {#}"
  by (auto simp: temp_init_def run_simps temp_owned_def split: if_splits)

lemma temp_init_locks:
  assumes "lock_state (klog s) = Some hs" and "\<forall>h \<in> set hs. lock_rank h < lock_rank Temp_lock"
  shows "lock_state (klog (exec (temp_init E) s)) = Some hs"
  using assms by (simp add: temp_init_def run_simps)

lemma read_temp_frame [simp]:
  "temp_res (exec (read_temp E) s) = temp_res s" "temp_reg (exec (read_temp E) s) = temp_reg s"
  "temp.more (exec (read_temp E) s) = temp.more s"
  by (simp_all add: read_temp_def run_simps)

lemma read_temp_uninitialised: "temp_reg s = 0 \<Longrightarrow> result (read_temp E) s = 0"
  by (simp add: read_temp_def run_simps)

lemma read_temp_resources [simp]: "res_state (klog (exec (read_temp E) s)) = res_state (klog s)"
  by (cases "res_state (klog s)") (simp_all add: read_temp_def run_simps)

lemma read_temp_locks:
  assumes "lock_state (klog s) = Some hs" and "\<forall>h \<in> set hs. lock_rank h < lock_rank Temp_lock"
  shows "lock_state (klog (exec (read_temp E) s)) = Some hs"
  using assms by (simp add: read_temp_def run_simps)

lemma temp_exit_frame [simp]: "temp.more (exec (temp_exit E) s) = temp.more s"
  by (simp add: temp_exit_def run_simps)

lemma temp_exit_resources:
  assumes "res_state (klog s) = Some (R + temp_owned s)"
  shows "res_state (klog (exec (temp_exit E) s)) = Some R"
    and "temp_owned (exec (temp_exit E) s) = {#}"
  using assms by (simp_all add: temp_exit_def run_simps temp_owned_def)

lemma temp_exit_locks:
  assumes "lock_state (klog s) = Some hs" and "\<forall>h \<in> set hs. lock_rank h < lock_rank Temp_lock"
  shows "lock_state (klog (exec (temp_exit E) s)) = Some hs"
  using assms by (simp add: temp_exit_def run_simps)

end
