(* ===== verification/Blink.thy ===== *)
theory Blink
  imports Temp
begin

section \<open>The blinking status LED: \<open>kernel/blink/blink.c\<close>\<close>

text \<open>
  The thread that toggles the LED and the atomic period it reads. The thread's \<open>while\<close>
  loop runs until \<open>kthread_should_stop\<close>, an answer of the environment: it is modelled
  with fuel, the number of iterations it may make, and \<open>None\<close> is "still running".
  Lemmas: the delays of a period, the alternation of the LED, the resources on each path of
  the initialisation.
\<close>

record blink = temp +
  blink_thread :: int
  blink_period_ms :: i32

definition GPIO_PIN :: nat where "GPIO_PIN = 10"
definition DEFAULT_PERIOD_MS :: i32 where "DEFAULT_PERIOD_MS = 1000"

definition blink_init :: "kenv \<Rightarrow> ('z blink_scheme, unit) state" where
  "blink_init E = do {
     modify (\<lambda>s. s\<lparr>blink_period_ms := DEFAULT_PERIOD_MS\<rparr>);
     r \<leftarrow> kapi E (Gpio_request GPIO_PIN ''blink-led'');
     if r \<noteq> 0 then ret ()
     else do {
       r \<leftarrow> kapi E (Gpio_direction_output GPIO_PIN 0);
       if r \<noteq> 0 then void (kapi E (Gpio_free GPIO_PIN))
       else do {
         t \<leftarrow> kapi E (Kthread_run ''blink_thread'');
         modify (\<lambda>s. s\<lparr>blink_thread := t\<rparr>);
         if IS_ERR t then void (kapi E (Gpio_free GPIO_PIN)) else ret ()
       }
     }
   }"

definition blink_exit :: "kenv \<Rightarrow> ('z blink_scheme, unit) state" where
  "blink_exit E = do {
     t \<leftarrow> gets blink_thread;
     void (kapi E (Kthread_stop t));
     void (kapi E (Gpio_free GPIO_PIN))
   }"

text \<open>One pass of the loop body: set the LED, flip the flag, sleep half a period.\<close>

definition blink_delay :: "i32 \<Rightarrow> u32" where
  "blink_delay period = signed_drop_bit 1 period"

definition blink_body :: "kenv \<Rightarrow> bool \<Rightarrow> ('z blink_scheme, bool) state" where
  "blink_body E st = do {
     void (kapi E (Gpio_set_value GPIO_PIN st));
     period \<leftarrow> gets blink_period_ms;
     void (kapi E (Msleep (blink_delay period)));
     ret (\<not> st)
   }"

fun thread_blinkThread :: "kenv \<Rightarrow> nat \<Rightarrow> bool \<Rightarrow> ('z blink_scheme, int option) state" where
  "thread_blinkThread E 0 st = ret None"
| "thread_blinkThread E (Suc fuel) st = do {
     stop \<leftarrow> kapi E Kthread_should_stop;
     if stop \<noteq> 0 then ret (Some 0)
     else do {
       st' \<leftarrow> blink_body E st;
       thread_blinkThread E fuel st'
     }
   }"

definition adjust_period :: "i32 \<Rightarrow> ('z blink_scheme, unit) state" where
  "adjust_period new_period_ms = modify (\<lambda>s. s\<lparr>blink_period_ms := new_period_ms\<rparr>)"

subsection \<open>Periods and delays\<close>

lemma blink_delay_value: "sint (blink_delay p) = sint p div 2"
  by (simp add: blink_delay_def sint_signed_drop_bit_eq drop_bit_eq_div)

text \<open>A period from \<open>2 ^ 31\<close> on is negative as an \<open>int\<close>, and its half again a large \<open>unsigned int\<close>.\<close>

lemma blink_delay_exact: "uint (blink_delay p) = uint p div 2 + (if uint p < 2 ^ 31 then 0 else 2 ^ 31)"
proof (cases "uint p < 2 ^ 31")
  case True
  then have "sint (blink_delay p) = uint p div 2"
    by (simp add: blink_delay_value sint_eq_uint_small)
  with True show ?thesis by (simp add: temperature_as_unsigned)
next
  case False
  have u: "uint p < 2 ^ 32" using uint_lt2p [of p] by simp
  have wrap: "(word_of_int (uint p - 2 ^ 32) :: i32) = p" by (simp add: word_of_int_eq_iff)
  have "sint (word_of_int (uint p - 2 ^ 32) :: i32) = uint p - 2 ^ 32"
    using False u by (intro sint_of_small) simp_all
  then have "sint p = uint p - 2 ^ 32" unfolding wrap .
  then have "sint (blink_delay p) = uint p div 2 - 2 ^ 31" by (simp add: blink_delay_value)
  moreover have "uint (blink_delay p) = sint (blink_delay p) mod 2 ^ 32"
    using uint_word_of_int [of "sint (blink_delay p)", where 'a = 32] by simp
  ultimately have "uint (blink_delay p) = (uint p div 2 - 2 ^ 31 + 2 ^ 32) mod 2 ^ 32"
    by (simp only: mod_add_self2)
  also have "\<dots> = uint p div 2 + 2 ^ 31" using False u by simp
  finally show ?thesis using False by simp
qed

lemma adjust_period_simps [simp]:
  "blink_period_ms (exec (adjust_period p) s) = p" "klog (exec (adjust_period p) s) = klog s"
  "temp_reg (exec (adjust_period p) s) = temp_reg s"
  "blink_thread (exec (adjust_period p) s) = blink_thread s"
  "temp_res (exec (adjust_period p) s) = temp_res s"
  by (simp_all add: adjust_period_def)

subsection \<open>Initialisation and release\<close>

text \<open>What a running blinker owns.\<close>

definition blink_owned :: "('z blink_scheme) \<Rightarrow> kres multiset" where
  "blink_owned s = {#R_gpio GPIO_PIN, R_thread (blink_thread s)#}"

lemma blink_init_period [simp]: "blink_period_ms (exec (blink_init E) s) = 1000"
  by (simp add: blink_init_def run_simps DEFAULT_PERIOD_MS_def)

lemma blink_init_frame [simp]:
  "temp_res (exec (blink_init E) s) = temp_res s" "temp_reg (exec (blink_init E) s) = temp_reg s"
  "blink.more (exec (blink_init E) s) = blink.more s"
  by (simp_all add: blink_init_def run_simps)

lemma blink_init_locks [simp]:
  "lock_state (klog (exec (blink_init E) s)) = lock_state (klog s)"
  by (cases "lock_state (klog s)") (simp_all add: blink_init_def run_simps)

text \<open>
  Whether the blinker comes up behind the calls \<open>h\<close>: its pin is granted and set to output, its thread starts.
\<close>

definition blink_comes_up :: "kenv \<Rightarrow> kevent list \<Rightarrow> bool" where
  "blink_comes_up E h \<longleftrightarrow>
     (let h1 = h @ [(Gpio_request GPIO_PIN ''blink-led'', 0)]; h2 = h1 @ [(Gpio_direction_output GPIO_PIN 0, 0)]
      in kret E h (Gpio_request GPIO_PIN ''blink-led'') = 0 \<and>
         kret E h1 (Gpio_direction_output GPIO_PIN 0) = 0 \<and>
         \<not> IS_ERR (kret E h2 (Kthread_run ''blink_thread'')))"

text \<open>Either everything is acquired, or nothing is; the function returns \<open>void\<close> in both cases.\<close>

lemma blink_init_resources:
  assumes "res_state (klog s) = Some R"
  shows "res_state (klog (exec (blink_init E) s)) =
    Some (if blink_comes_up E (klog s) then R + blink_owned (exec (blink_init E) s) else R)"
  using assms by (simp add: blink_init_def run_simps blink_owned_def blink_comes_up_def)

text \<open>Stopping a thread that does not run is a misuse of the kernel.\<close>

lemma blink_exit_without_thread:
  "res_state (klog s) = Some R \<Longrightarrow> R_thread (blink_thread s) \<notin># R \<Longrightarrow> res_state (klog (exec (blink_exit E) s)) = None"
  by (simp add: blink_exit_def run_simps drop_res_def)

lemma blink_exit_resources:
  assumes "res_state (klog s) = Some (R + blink_owned s)"
  shows "res_state (klog (exec (blink_exit E) s)) = Some R"
  using assms by (simp add: blink_exit_def run_simps blink_owned_def add_mset_commute)

lemma blink_exit_frame [simp]:
  "temp_res (exec (blink_exit E) s) = temp_res s" "temp_reg (exec (blink_exit E) s) = temp_reg s"
  "blink.more (exec (blink_exit E) s) = blink.more s"
  by (simp_all add: blink_exit_def run_simps)

lemma blink_exit_locks [simp]:
  "lock_state (klog (exec (blink_exit E) s)) = lock_state (klog s)"
  by (cases "lock_state (klog s)") (simp_all add: blink_exit_def run_simps)

subsection \<open>The thread\<close>

definition gpio_writes :: "kevent list \<Rightarrow> bool list" where
  "gpio_writes es = List.map_filter (\<lambda>e. case fst e of Gpio_set_value _ b \<Rightarrow> Some b | _ \<Rightarrow> None) es"

definition sleeps :: "kevent list \<Rightarrow> u32 list" where
  "sleeps es = List.map_filter (\<lambda>e. case fst e of Msleep d \<Rightarrow> Some d | _ \<Rightarrow> None) es"

lemma gpio_writes_simps [simp]:
  "gpio_writes [] = []" "gpio_writes (es @ fs) = gpio_writes es @ gpio_writes fs"
  "gpio_writes ((Gpio_set_value g b, r) # es) = b # gpio_writes es"
  "gpio_writes ((Msleep d, r) # es) = gpio_writes es"
  "gpio_writes ((Kthread_should_stop, r) # es) = gpio_writes es"
  by (simp_all add: gpio_writes_def List.map_filter_def)

lemma sleeps_simps [simp]:
  "sleeps [] = []" "sleeps (es @ fs) = sleeps es @ sleeps fs"
  "sleeps ((Gpio_set_value g b, r) # es) = sleeps es"
  "sleeps ((Msleep d, r) # es) = d # sleeps es"
  "sleeps ((Kthread_should_stop, r) # es) = sleeps es"
  by (simp_all add: sleeps_def List.map_filter_def)

lemma blink_body_run:
  "result (blink_body E st) s = (\<not> st)"
  "blink_period_ms (exec (blink_body E st) s) = blink_period_ms s"
  "gpio_writes (klog (exec (blink_body E st) s)) = gpio_writes (klog s) @ [st]"
  "sleeps (klog (exec (blink_body E st) s)) = sleeps (klog s) @ [blink_delay (blink_period_ms s)]"
  "length (klog (exec (blink_body E st) s)) = length (klog s) + 2"
  by (simp_all add: blink_body_def run_simps)

text \<open>The LED's values alternate, starting with \<open>st\<close>.\<close>

fun alternating :: "bool \<Rightarrow> nat \<Rightarrow> bool list" where
  "alternating b 0 = []"
| "alternating b (Suc n) = b # alternating (\<not> b) n"

lemma blink_thread_iterations:
  assumes "\<And>es. kret E es Kthread_should_stop = 0"
  shows "gpio_writes (klog (exec (thread_blinkThread E n st) s)) = gpio_writes (klog s) @ alternating st n"
    and "sleeps (klog (exec (thread_blinkThread E n st) s)) =
      sleeps (klog s) @ replicate n (blink_delay (blink_period_ms s))"
    and "result (thread_blinkThread E n st) s = None"
  by (induction n arbitrary: st s) (simp_all add: run_simps assms blink_body_run)

lemma blink_thread_stops:
  assumes "\<And>es. N \<le> length es \<Longrightarrow> kret E es Kthread_should_stop \<noteq> 0"
    and "N < fuel + length (klog s)" and "0 < fuel"
  shows "result (thread_blinkThread E fuel st) s = Some 0"
  using assms(2,3)
proof (induction fuel arbitrary: st s)
  case 0
  then show ?case by simp
next
  case (Suc fuel)
  let ?s = "exec (kapi E Kthread_should_stop) s"
  show ?case
  proof (cases "kret E (klog s) Kthread_should_stop = 0")
    case True
    then have "length (klog s) < N" using assms(1) not_le by blast
    moreover have "length (klog (exec (blink_body E st) ?s)) = length (klog s) + 3"
      by (simp add: blink_body_run)
    ultimately have "result (thread_blinkThread E fuel (\<not> st)) (exec (blink_body E st) ?s) = Some 0"
      using Suc.prems(1) by (intro Suc.IH) linarith+
    with True show ?thesis by (simp add: run_simps blink_body_run)
  qed (simp add: run_simps)
qed

end
