(* ===== verification/CFormat.thy ===== *)
theory CFormat
  imports Complex_Main Prelude
begin

section \<open>The C library's number formatting and scanning\<close>

text \<open>
  The conversions of \<open>printf\<close>/\<open>snprintf\<close> and of \<open>scanf\<close>/\<open>atoi\<close> that the
  programs use: \<open>%u\<close>, \<open>%d\<close>, \<open>%03u\<close>, \<open>%.nf\<close> out and \<open>%u\<close>, \<open>%f\<close>,
  \<open>atoi\<close> in. A string is the list of its characters without the final NUL. The lemmas
  are the round trips: what a conversion prints, the matching one reads back.
\<close>

subsection \<open>Decimal digits\<close>

definition digit_char :: "nat \<Rightarrow> char" where
  "digit_char d = char_of (48 + d)"

definition digit_val :: "char \<Rightarrow> nat" where
  "digit_val c = of_char c - 48"

definition is_digit :: "char \<Rightarrow> bool" where
  "is_digit c \<longleftrightarrow> 48 \<le> (of_char c :: nat) \<and> (of_char c :: nat) \<le> 57"

definition is_space :: "char \<Rightarrow> bool" where
  "is_space c \<longleftrightarrow> (of_char c :: nat) = 32 \<or> 9 \<le> (of_char c :: nat) \<and> (of_char c :: nat) \<le> 13"

fun show_nat :: "nat \<Rightarrow> string" where
  "show_nat n =
     (if n < 10 then [digit_char n] else show_nat (n div 10) @ [digit_char (n mod 10)])"

declare show_nat.simps [simp del]

definition dec_value :: "string \<Rightarrow> nat" where
  "dec_value ds = foldl (\<lambda>a c. 10 * a + digit_val c) 0 ds"

lemma of_digit_char [simp]: "d < 10 \<Longrightarrow> of_char (digit_char d) = 48 + d"
  by (simp add: digit_char_def)

lemma digit_char_props [simp]:
  "d < 10 \<Longrightarrow> is_digit (digit_char d)" "d < 10 \<Longrightarrow> digit_val (digit_char d) = d"
  by (simp_all add: is_digit_def digit_val_def)

lemma digit_not_space [simp]: "is_digit c \<Longrightarrow> \<not> is_space c"
  by (auto simp: is_digit_def is_space_def)

lemma digit_not_sign: "is_digit c \<Longrightarrow> c \<noteq> CHR ''-'' \<and> c \<noteq> CHR ''+''"
  by (auto simp: is_digit_def)

lemma show_nat_digits: "\<forall>c \<in> set (show_nat n). is_digit c"
proof (induction n rule: show_nat.induct)
  case (1 n)
  then show ?case by (subst show_nat.simps) auto
qed

lemma show_nat_nonempty [simp]: "show_nat n \<noteq> []"
  by (subst show_nat.simps) simp

lemma dec_value_Nil [simp]: "dec_value [] = 0"
  by (simp add: dec_value_def)

lemma dec_value_snoc [simp]: "dec_value (ds @ [c]) = 10 * dec_value ds + digit_val c"
  by (simp add: dec_value_def)

lemma dec_value_show_nat [simp]: "dec_value (show_nat n) = n"
proof (induction n rule: show_nat.induct)
  case (1 n)
  show ?case
  proof (cases "n < 10")
    case True
    then show ?thesis by (subst show_nat.simps) (simp add: dec_value_def)
  next
    case False
    with 1 show ?thesis by (subst show_nat.simps) simp
  qed
qed

lemma foldl_dec_value:
  "foldl (\<lambda>a c. 10 * a + digit_val c) b ds = b * 10 ^ length ds + dec_value ds"
proof (induction ds rule: rev_induct)
  case Nil
  show ?case by (simp add: dec_value_def)
next
  case (snoc c ds)
  then show ?case by (simp add: algebra_simps)
qed

lemma dec_value_append: "dec_value (xs @ ys) = dec_value xs * 10 ^ length ys + dec_value ys"
  using foldl_dec_value [of "dec_value xs" ys] by (simp add: dec_value_def)

lemma length_show_nat_le:
  assumes "n < 10 ^ k" and "0 < k"
  shows "length (show_nat n) \<le> k"
  using assms
proof (induction n arbitrary: k rule: show_nat.induct)
  case (1 n)
  show ?case
  proof (cases "n < 10")
    case True
    with 1 show ?thesis by (subst show_nat.simps) simp
  next
    case False
    obtain j where k: "k = Suc j" using "1.prems"(2) by (cases k) auto
    with "1.prems"(1) have "n div 10 < 10 ^ j" by (simp add: less_mult_imp_div_less mult.commute)
    moreover have "0 < j" using False "1.prems"(1) k by (cases j) auto
    ultimately have "length (show_nat (n div 10)) \<le> j" using "1.IH" False by blast
    with False k show ?thesis by (subst show_nat.simps) simp
  qed
qed

subsection \<open>Printing\<close>

abbreviation nl :: string where "nl \<equiv> [CHR 0x0A]"

definition fmt_u :: "u32 \<Rightarrow> string" where
  "fmt_u w = show_nat (unat w)"

definition show_int :: "int \<Rightarrow> string" where
  "show_int k = (if k < 0 then CHR ''-'' # show_nat (nat (- k)) else show_nat (nat k))"

definition fmt_d :: "i32 \<Rightarrow> string" where
  "fmt_d w = show_int (sint w)"

definition fmt_03u :: "u32 \<Rightarrow> string" where
  "fmt_03u w = (let s = show_nat (unat w) in replicate (3 - length s) CHR ''0'' @ s)"

text \<open>
  \<open>snprintf (buf, n, \<dots>)\<close>: at most \<open>n - 1\<close> characters reach the buffer; the value
  returned is the length the whole text would have.
\<close>

definition snprintf :: "nat \<Rightarrow> string \<Rightarrow> string \<times> nat" where
  "snprintf n s = (take (n - 1) s, length s)"

lemma snprintf_fits: "length s < n \<Longrightarrow> snprintf n s = (s, length s)"
  by (simp add: snprintf_def)

lemma length_show_nat_u32: "length (show_nat (unat (w :: u32))) \<le> 10"
  by (rule length_show_nat_le) (use unat_u32_less [of w] in simp_all)

lemma length_fmt_u: "length (fmt_u w) \<le> 10"
  by (simp add: fmt_u_def length_show_nat_u32)

lemma length_fmt_d: "length (fmt_d w) \<le> 11"
proof -
  have "sint w < 2 ^ 31" "- (2 ^ 31) \<le> sint w"
    using sint_lt [of w] sint_ge [of w] by simp_all
  then have "length (show_nat (nat (sint w))) \<le> 10" "length (show_nat (nat (- sint w))) \<le> 10"
    by (auto intro!: length_show_nat_le)
  then show ?thesis by (simp add: fmt_d_def show_int_def)
qed

subsection \<open>Scanning\<close>

fun scan_sign :: "string \<Rightarrow> bool \<times> string" where
  "scan_sign [] = (False, [])"
| "scan_sign (c # cs) =
     (if c = CHR ''-'' then (True, cs) else if c = CHR ''+'' then (False, cs) else (False, c # cs))"

text \<open>White space, an optional sign, decimal digits: sign, magnitude and the rest.\<close>

definition scan_int :: "string \<Rightarrow> (bool \<times> nat \<times> string) option" where
  "scan_int s =
     (case scan_sign (dropWhile is_space s) of (neg, r) \<Rightarrow>
        let ds = takeWhile is_digit r
        in if ds = [] then None else Some (neg, dec_value ds, dropWhile is_digit r))"

text \<open>
  \<open>atoi\<close> is \<open>(int) strtol (s, NULL, 10)\<close>: the value is clamped to the 64-bit
  \<open>long\<close>, then its low 32 bits are kept.
\<close>

definition clamp_long :: "int \<Rightarrow> int" where
  "clamp_long k = max (- (2 ^ 63)) (min (2 ^ 63 - 1) k)"

definition atoi :: "string \<Rightarrow> i32" where
  "atoi s = (case scan_int s of None \<Rightarrow> 0
     | Some (neg, n, _) \<Rightarrow> word_of_int (clamp_long (if neg then - int n else int n)))"

text \<open>
  \<open>fscanf (f, "%u", &x)\<close>: \<open>Some\<close> is one conversion stored, \<open>None\<close> none. The
  subject sequence is converted as \<open>strtoul\<close> does (clamped at \<open>ULONG_MAX\<close>, a minus
  sign negates) and stored in 32 bits.
\<close>

definition scan_u32 :: "string \<Rightarrow> u32 option" where
  "scan_u32 s = (case scan_int s of None \<Rightarrow> None
     | Some (neg, n, _) \<Rightarrow>
         Some (word_of_int (if 2 ^ 64 \<le> n then 2 ^ 64 - 1 else if neg then - int n else int n)))"

text \<open>
  \<open>fscanf (f, "%f", &x)\<close> on decimal numbers without an exponent, the only form that the
  files hold: the exact rational, before it is rounded to a \<open>float\<close>.
\<close>

definition scan_dec :: "string \<Rightarrow> rat option" where
  "scan_dec s =
     (case scan_sign (dropWhile is_space s) of (neg, r) \<Rightarrow>
        let ds = takeWhile is_digit r;
            fs = (case dropWhile is_digit r of
                    c # cs \<Rightarrow> if c = CHR ''.'' then takeWhile is_digit cs else []
                  | [] \<Rightarrow> [])
        in if ds = [] \<and> fs = [] then None
           else Some ((if neg then -1 else 1) * (of_nat (dec_value (ds @ fs)) / 10 ^ length fs)))"

subsection \<open>Round trips\<close>

definition nondigit_start :: "string \<Rightarrow> bool" where
  "nondigit_start r \<longleftrightarrow> (case r of [] \<Rightarrow> True | c # _ \<Rightarrow> \<not> is_digit c)"

lemma nondigit_start_simps [simp]:
  "nondigit_start []" "nondigit_start (c # cs) \<longleftrightarrow> \<not> is_digit c"
  by (simp_all add: nondigit_start_def)

lemma while_nondigit [simp]:
  "nondigit_start r \<Longrightarrow> takeWhile is_digit r = []" "nondigit_start r \<Longrightarrow> dropWhile is_digit r = r"
  by (cases r; simp)+

lemma takeWhile_digits:
  assumes "\<forall>c \<in> set ds. is_digit c" and "nondigit_start r"
  shows "takeWhile is_digit (ds @ r) = ds" and "dropWhile is_digit (ds @ r) = r"
  using assms by simp_all

lemma skip_space_digits:
  "ds \<noteq> [] \<Longrightarrow> \<forall>c \<in> set ds. is_digit c \<Longrightarrow> dropWhile is_space (ds @ r) = ds @ r"
  by (cases ds) auto

lemma scan_sign_digits:
  "ds \<noteq> [] \<Longrightarrow> \<forall>c \<in> set ds. is_digit c \<Longrightarrow> scan_sign (ds @ r) = (False, ds @ r)"
  by (cases ds) (auto dest: digit_not_sign)

lemma scan_int_show_nat:
  assumes "nondigit_start r"
  shows "scan_int (show_nat n @ r) = Some (False, n, r)"
  using assms show_nat_digits [of n]
  by (simp add: scan_int_def skip_space_digits scan_sign_digits takeWhile_digits)

lemma scan_int_minus_show_nat:
  assumes "nondigit_start r"
  shows "scan_int (CHR ''-'' # show_nat n @ r) = Some (True, n, r)"
  using assms show_nat_digits [of n]
  by (simp add: scan_int_def is_space_def takeWhile_digits)

lemma scan_u32_fmt_u: "nondigit_start r \<Longrightarrow> scan_u32 (fmt_u w @ r) = Some w"
proof -
  assume "nondigit_start r"
  moreover have "\<not> 2 ^ 64 \<le> unat w" using unat_u32_less [of w] by simp
  ultimately show ?thesis by (simp add: scan_u32_def fmt_u_def scan_int_show_nat)
qed

lemma atoi_show_int:
  assumes "nondigit_start r" and "- (2 ^ 63) \<le> k" and "k < 2 ^ 63"
  shows "atoi (show_int k @ r) = word_of_int k"
proof -
  have "clamp_long k = k" using assms(2,3) by (simp add: clamp_long_def)
  then show ?thesis
    using assms(1) by (simp add: atoi_def show_int_def scan_int_show_nat scan_int_minus_show_nat)
qed

lemma atoi_fmt_d: "nondigit_start r \<Longrightarrow> atoi (fmt_d w @ r) = w"
  using atoi_show_int [of r "sint w"] sint_lt [of w] sint_ge [of w] by (simp add: fmt_d_def)

lemma not_digit_dot [simp]: "\<not> is_digit CHR ''.''" "\<not> is_digit CHR 0x0A"
  by (simp_all add: is_digit_def)

lemma fmt_03u_digits: "\<forall>c \<in> set (fmt_03u w). is_digit c"
  using show_nat_digits [of "unat w"] by (auto simp: fmt_03u_def Let_def is_digit_def)

lemma dec_value_zeros [simp]: "dec_value (replicate n CHR ''0'') = 0"
  by (induction n) (simp_all flip: replicate_append_same add: digit_val_def)

lemma dec_value_fmt_03u [simp]: "dec_value (fmt_03u w) = unat w"
  by (simp add: fmt_03u_def Let_def dec_value_append)

lemma length_fmt_03u: "unat w < 1000 \<Longrightarrow> length (fmt_03u w) = 3"
  using length_show_nat_le [of "unat w" 3] by (simp add: fmt_03u_def Let_def)

text \<open>Fixed-point text: what \<open>"%u.%03u"\<close> prints, \<open>%f\<close> reads as thousandths.\<close>

lemma scan_dec_fixed3:
  assumes "unat f < 1000" and "nondigit_start r"
  shows "scan_dec (fmt_u i @ CHR ''.'' # fmt_03u f @ r) =
    Some (of_nat (unat i * 1000 + unat f) / 1000)"
proof -
  let ?t = "CHR ''.'' # fmt_03u f @ r"
  have i: "\<forall>c \<in> set (fmt_u i). is_digit c" "fmt_u i \<noteq> []"
    by (simp_all add: fmt_u_def show_nat_digits)
  have "takeWhile is_digit (fmt_u i @ ?t) = fmt_u i" "dropWhile is_digit (fmt_u i @ ?t) = ?t"
    using i takeWhile_digits [of "fmt_u i" ?t] by simp_all
  moreover have "takeWhile is_digit (fmt_03u f @ r) = fmt_03u f"
    using takeWhile_digits [OF fmt_03u_digits assms(2)] by simp
  moreover have "dec_value (fmt_u i @ fmt_03u f) = unat i * 1000 + unat f"
    using assms(1) by (simp add: dec_value_append length_fmt_03u) (simp add: fmt_u_def)
  ultimately show ?thesis
    using i assms(1)
    by (simp add: scan_dec_def skip_space_digits scan_sign_digits Let_def length_fmt_03u)
qed

subsection \<open>64-bit integers and hexadecimal\<close>

text \<open>\<open>%lld\<close>, \<open>%03ld\<close> and \<open>atol\<close>; division and remainder of C.\<close>

definition fmt_lld :: "s64 \<Rightarrow> string" where
  "fmt_lld w = show_int (sint w)"

definition sdiv64 :: "s64 \<Rightarrow> s64 \<Rightarrow> s64" where
  "sdiv64 a b = word_of_int (sint a sdiv sint b)"

definition smod64 :: "s64 \<Rightarrow> s64 \<Rightarrow> s64" where
  "smod64 a b = word_of_int (sint a smod sint b)"

text \<open>\<open>%03ld\<close>: at least three characters, filled with zeros.\<close>

definition fmt_03ld :: "s64 \<Rightarrow> string" where
  "fmt_03ld w = (let s = show_nat (nat \<bar>sint w\<bar>) in
     if sint w < 0 then CHR ''-'' # replicate (2 - length s) CHR ''0'' @ s
     else replicate (3 - length s) CHR ''0'' @ s)"

definition atol :: "string \<Rightarrow> s64" where
  "atol s = (case scan_int s of None \<Rightarrow> 0
     | Some (neg, n, _) \<Rightarrow> word_of_int (clamp_long (if neg then - int n else int n)))"

text \<open>The last \<open>k\<close> hexadecimal digits of a number, as \<open>%0kx\<close> prints one that fits.\<close>

definition hex_digit :: "nat \<Rightarrow> char" where
  "hex_digit d = char_of (if d < 10 then 48 + d else 87 + d)"

definition hex_digits :: "nat \<Rightarrow> nat \<Rightarrow> string" where
  "hex_digits k n = List.map (\<lambda>i. hex_digit (n div 16 ^ (k - 1 - i) mod 16)) [0..<k]"

end
