(* ===== verification/KSysfs.thy ===== *)
theory KSysfs
  imports CFormat KernelApi
begin

section \<open>The sysfs attributes of the module: \<open>kernel/sysfs/sysfs.c\<close>\<close>

text \<open>
  Four files in the device's directory, each with a handler for reads or writes or both.
  The handlers reach the regulator through a table of function pointers that may be
  \<open>NULL\<close>: the state is polymorphic in the world \<open>'r\<close> behind that table, and
  \<open>K\<close> is the kernel interface on that world. The locale \<open>sysfs_provider\<close> is what
  the handlers rely on from the functions in the table; the lemmas in it say what a read
  returns and what a write does, on every branch.
\<close>

record 'r sysfs_callbacks =
  scb_get_temperature :: "('r, u32) state option"
  scb_get_mode :: "('r, i32) state option"
  scb_set_mode :: "(i32 \<Rightarrow> ('r, unit) state) option"
  scb_get_period :: "('r, u32) state option"
  scb_set_period :: "(u32 \<Rightarrow> ('r, unit) state) option"

record 'r ksysfs =
  sysfs_class :: int
  sysfs_device :: int
  device_cbs :: "'r sysfs_callbacks"
  sworld :: 'r

definition in_sworld :: "('r, 'a) state \<Rightarrow> ('r ksysfs, 'a) state" where
  "in_sworld m = zoom sworld (\<lambda>w s. s\<lparr>sworld := w\<rparr>) m"

lemma in_sworld_simps [simp, run_simps]:
  "result (in_sworld m) s = result m (sworld s)"
  "exec (in_sworld m) s = s\<lparr>sworld := exec m (sworld s)\<rparr>"
  by (simp_all add: in_sworld_def)

definition scall :: "(kcall \<Rightarrow> ('r, int) state) \<Rightarrow> kcall \<Rightarrow> ('r ksysfs, int) state" where
  "scall K c = in_sworld (K c)"

lemma scall_simps [simp, run_simps]:
  "result (scall K c) s = result (K c) (sworld s)"
  "exec (scall K c) s = s\<lparr>sworld := exec (K c) (sworld s)\<rparr>"
  by (simp_all add: scall_def)

subsection \<open>The handlers\<close>

definition temperature_show ::
  "kenv \<Rightarrow> (kcall \<Rightarrow> ('r, int) state) \<Rightarrow> ('r ksysfs, string \<times> nat) state" where
  "temperature_show E K = do {
     void (scall K (Mutex_lock Sysfs_lock));
     cbs \<leftarrow> gets device_cbs;
     temp \<leftarrow> (case scb_get_temperature cbs of None \<Rightarrow> ret 0 | Some f \<Rightarrow> in_sworld f);
     void (scall K (Mutex_unlock Sysfs_lock));
     ret (snprintf (PAGE_SIZE E) (fmt_u (temp div 1000) @ ''.'' @ fmt_03u (temp mod 1000) @ nl))
   }"

definition mode_show ::
  "kenv \<Rightarrow> (kcall \<Rightarrow> ('r, int) state) \<Rightarrow> ('r ksysfs, string \<times> nat) state" where
  "mode_show E K = do {
     void (scall K (Mutex_lock Sysfs_lock));
     cbs \<leftarrow> gets device_cbs;
     mode \<leftarrow> (case scb_get_mode cbs of None \<Rightarrow> ret 0 | Some f \<Rightarrow> in_sworld f);
     void (scall K (Mutex_unlock Sysfs_lock));
     ret (snprintf (PAGE_SIZE E) (fmt_d mode @ nl))
   }"

definition mode_store ::
  "kenv \<Rightarrow> (kcall \<Rightarrow> ('r, int) state) \<Rightarrow> string \<Rightarrow> nat \<Rightarrow> ('r ksysfs, nat) state" where
  "mode_store E K buf sz = do {
     (case kstrtoint E buf of
        None \<Rightarrow> ret ()
      | Some mode \<Rightarrow> do {
          void (scall K (Mutex_lock Sysfs_lock));
          cbs \<leftarrow> gets device_cbs;
          (case scb_set_mode cbs of None \<Rightarrow> ret () | Some f \<Rightarrow> in_sworld (f mode));
          void (scall K (Mutex_unlock Sysfs_lock))
        });
     ret sz
   }"

definition period_status_show ::
  "kenv \<Rightarrow> (kcall \<Rightarrow> ('r, int) state) \<Rightarrow> ('r ksysfs, string \<times> nat) state" where
  "period_status_show E K = do {
     void (scall K (Mutex_lock Sysfs_lock));
     cbs \<leftarrow> gets device_cbs;
     period \<leftarrow> (case scb_get_period cbs of None \<Rightarrow> ret 0 | Some f \<Rightarrow> in_sworld f);
     void (scall K (Mutex_unlock Sysfs_lock));
     ret (snprintf (PAGE_SIZE E) (fmt_u period @ nl))
   }"

definition period_set_store ::
  "kenv \<Rightarrow> (kcall \<Rightarrow> ('r, int) state) \<Rightarrow> string \<Rightarrow> nat \<Rightarrow> ('r ksysfs, nat) state" where
  "period_set_store E K buf sz = do {
     (case kstrtouint E buf of
        None \<Rightarrow> ret ()
      | Some period \<Rightarrow> do {
          void (scall K (Mutex_lock Sysfs_lock));
          cbs \<leftarrow> gets device_cbs;
          (case scb_set_period cbs of None \<Rightarrow> ret () | Some f \<Rightarrow> in_sworld (f period));
          void (scall K (Mutex_unlock Sysfs_lock))
        });
     ret sz
   }"

text \<open>
  \<open>DEVICE_ATTR_RO/RW/WO\<close>: which file has which handler. \<open>None\<close> is a permission the
  attribute does not grant.
\<close>

datatype attr = Temperature | Mode | Period_status | Period_set

definition regulator_attrs :: "attr list" where
  "regulator_attrs = [Temperature, Mode, Period_status, Period_set]"

fun attr_show ::
  "kenv \<Rightarrow> (kcall \<Rightarrow> ('r, int) state) \<Rightarrow> attr \<Rightarrow> ('r ksysfs, string \<times> nat) state option" where
  "attr_show E K Temperature = Some (temperature_show E K)"
| "attr_show E K Mode = Some (mode_show E K)"
| "attr_show E K Period_status = Some (period_status_show E K)"
| "attr_show E K Period_set = None"

fun attr_store ::
  "kenv \<Rightarrow> (kcall \<Rightarrow> ('r, int) state) \<Rightarrow> attr \<Rightarrow> (string \<Rightarrow> nat \<Rightarrow> ('r ksysfs, nat) state) option"
where
  "attr_store E K Temperature = None"
| "attr_store E K Mode = Some (mode_store E K)"
| "attr_store E K Period_status = None"
| "attr_store E K Period_set = Some (period_set_store E K)"

subsection \<open>Creation and removal of the files\<close>

definition temp_regulator_sysfs_init ::
  "(kcall \<Rightarrow> ('r, int) state) \<Rightarrow> 'r sysfs_callbacks option \<Rightarrow> ('r ksysfs, int) state" where
  "temp_regulator_sysfs_init K cbs = do {
     void (scall K (Mutex_lock Sysfs_lock));
     (case cbs of None \<Rightarrow> ret () | Some c \<Rightarrow> modify (\<lambda>s. s\<lparr>device_cbs := c\<rparr>));
     void (scall K (Mutex_unlock Sysfs_lock));
     cls \<leftarrow> scall K (Class_create ''temp_regulator'');
     modify (\<lambda>s. s\<lparr>sysfs_class := cls\<rparr>);
     if IS_ERR cls then ret cls
     else do {
       dev \<leftarrow> scall K (Device_create cls 0 ''regulator'');
       modify (\<lambda>s. s\<lparr>sysfs_device := dev\<rparr>);
       if IS_ERR dev then do {
         void (scall K (Class_destroy cls));
         ret dev
       } else do {
         r \<leftarrow> scall K (Sysfs_create_group dev);
         if r \<noteq> 0 then do {
           void (scall K (Device_destroy cls 0));
           void (scall K (Class_destroy cls));
           ret r
         } else ret 0
       }
     }
   }"

definition temp_regulator_sysfs_exit ::
  "(kcall \<Rightarrow> ('r, int) state) \<Rightarrow> ('r ksysfs, unit) state" where
  "temp_regulator_sysfs_exit K = do {
     dev \<leftarrow> gets sysfs_device;
     cls \<leftarrow> gets sysfs_class;
     only_if (dev \<noteq> 0) (do {
       void (scall K (Sysfs_remove_group dev));
       void (scall K (Device_destroy cls 0));
       modify (\<lambda>s. s\<lparr>sysfs_device := 0\<rparr>)
     });
     only_if (cls \<noteq> 0) (do {
       void (scall K (Class_destroy cls));
       modify (\<lambda>s. s\<lparr>sysfs_class := 0\<rparr>)
     })
   }"

subsection \<open>The contract of the callback table\<close>

definition full_table ::
  "('r, u32) state \<Rightarrow> ('r, i32) state \<Rightarrow> (i32 \<Rightarrow> ('r, unit) state) \<Rightarrow> ('r, u32) state \<Rightarrow>
   (u32 \<Rightarrow> ('r, unit) state) \<Rightarrow> 'r sysfs_callbacks" where
  "full_table gt gm sm gp sp = \<lparr>scb_get_temperature = Some gt, scb_get_mode = Some gm,
     scb_set_mode = Some sm, scb_get_period = Some gp, scb_set_period = Some sp\<rparr>"

lemma full_table_simps [simp]:
  "scb_get_temperature (full_table gt gm sm gp sp) = Some gt"
  "scb_get_mode (full_table gt gm sm gp sp) = Some gm"
  "scb_set_mode (full_table gt gm sm gp sp) = Some sm"
  "scb_get_period (full_table gt gm sm gp sp) = Some gp"
  "scb_set_period (full_table gt gm sm gp sp) = Some sp"
  by (simp_all add: full_table_def)

text \<open>The table that is registered, over a world in a good state.\<close>

definition registered :: "'r sysfs_callbacks \<Rightarrow> ('r \<Rightarrow> bool) \<Rightarrow> 'r ksysfs \<Rightarrow> bool" where
  "registered tbl invar s \<longleftrightarrow> device_cbs s = tbl \<and> invar (sworld s)"

text \<open>
  \<open>mode_of\<close> and \<open>period_of\<close> are the abstract contents behind the table, \<open>L\<close> the
  lock state. \<open>sm_mode\<close> and \<open>sp_period\<close> are the rules of the regulator: only 0 and
  1 are modes, and a period is taken only in mode 0 and only when it is positive.
\<close>

locale sysfs_provider =
  fixes K :: "kcall \<Rightarrow> ('r, int) state"
    and gt :: "('r, u32) state" and gm :: "('r, i32) state" and sm :: "i32 \<Rightarrow> ('r, unit) state"
    and gp :: "('r, u32) state" and sp :: "u32 \<Rightarrow> ('r, unit) state"
    and mode_of :: "'r \<Rightarrow> i32" and period_of :: "'r \<Rightarrow> u32"
    and L :: "'r \<Rightarrow> klock list option" and invar :: "'r \<Rightarrow> bool"
  assumes K_frame: "mode_of (exec (K c) r) = mode_of r" "period_of (exec (K c) r) = period_of r"
      "invar (exec (K c) r) = invar r"
    and K_locks: "logs_locks L K"
    and gt_frame: "invar r \<Longrightarrow> mode_of (exec gt r) = mode_of r"
      "invar r \<Longrightarrow> period_of (exec gt r) = period_of r" "invar r \<Longrightarrow> invar (exec gt r)"
    and gm_frame: "invar r \<Longrightarrow> mode_of (exec gm r) = mode_of r"
      "invar r \<Longrightarrow> period_of (exec gm r) = period_of r" "invar r \<Longrightarrow> invar (exec gm r)"
    and gm_value: "invar r \<Longrightarrow> result gm r = mode_of r"
    and sm_mode: "invar r \<Longrightarrow> mode_of (exec (sm m) r) = (if m = 0 \<or> m = 1 then m else mode_of r)"
    and sm_frame: "invar r \<Longrightarrow> period_of (exec (sm m) r) = period_of r"
      "invar r \<Longrightarrow> invar (exec (sm m) r)"
    and gp_frame: "invar r \<Longrightarrow> mode_of (exec gp r) = mode_of r"
      "invar r \<Longrightarrow> period_of (exec gp r) = period_of r" "invar r \<Longrightarrow> invar (exec gp r)"
    and gp_value: "invar r \<Longrightarrow> result gp r = period_of r"
    and sp_period: "invar r \<Longrightarrow>
      period_of (exec (sp p) r) = (if mode_of r = 0 \<and> 0 < p then p else period_of r)"
    and sp_frame: "invar r \<Longrightarrow> mode_of (exec (sp p) r) = mode_of r" "invar r \<Longrightarrow> invar (exec (sp p) r)"
    and locked: "well_locked L 1 gt" "well_locked L 1 gm" "well_locked L 1 (sm m)"
      "well_locked L 1 gp" "well_locked L 1 (sp p)"
begin

lemmas frames = K_frame gt_frame gm_frame gm_value sm_mode sm_frame gp_frame gp_value sp_period
  sp_frame

lemmas handlers = temperature_show_def mode_show_def mode_store_def period_status_show_def
  period_set_store_def

lemma mode_show_value:
  "registered (full_table gt gm sm gp sp) invar s \<Longrightarrow> result (mode_show E K) s = snprintf (PAGE_SIZE E) (fmt_d (mode_of (sworld s)) @ nl)"
  by (simp add: registered_def mode_show_def run_simps frames)

lemma period_status_show_value:
  "registered (full_table gt gm sm gp sp) invar s \<Longrightarrow>
   result (period_status_show E K) s = snprintf (PAGE_SIZE E) (fmt_u (period_of (sworld s)) @ nl)"
  by (simp add: registered_def period_status_show_def run_simps frames)

lemma show_frame:
  assumes "registered (full_table gt gm sm gp sp) invar s"
  shows "mode_of (sworld (exec (temperature_show E K) s)) = mode_of (sworld s)"
    "period_of (sworld (exec (temperature_show E K) s)) = period_of (sworld s)"
    "registered (full_table gt gm sm gp sp) invar (exec (temperature_show E K) s)"
    "mode_of (sworld (exec (mode_show E K) s)) = mode_of (sworld s)"
    "period_of (sworld (exec (mode_show E K) s)) = period_of (sworld s)"
    "registered (full_table gt gm sm gp sp) invar (exec (mode_show E K) s)"
    "mode_of (sworld (exec (period_status_show E K) s)) = mode_of (sworld s)"
    "period_of (sworld (exec (period_status_show E K) s)) = period_of (sworld s)"
    "registered (full_table gt gm sm gp sp) invar (exec (period_status_show E K) s)"
  using assms by (simp_all add: registered_def handlers run_simps frames)

lemma mode_store_result: "result (mode_store E K buf n) s = n"
  by (simp add: mode_store_def run_simps)

lemma period_set_store_result: "result (period_set_store E K buf n) s = n"
  by (simp add: period_set_store_def run_simps)

lemma mode_store_effect:
  assumes "registered (full_table gt gm sm gp sp) invar s"
  shows "mode_of (sworld (exec (mode_store E K buf n) s)) =
      (case kstrtoint E buf of None \<Rightarrow> mode_of (sworld s)
       | Some m \<Rightarrow> if m = 0 \<or> m = 1 then m else mode_of (sworld s))"
    and "period_of (sworld (exec (mode_store E K buf n) s)) = period_of (sworld s)"
    and "registered (full_table gt gm sm gp sp) invar (exec (mode_store E K buf n) s)"
  using assms
  by (simp_all add: registered_def mode_store_def run_simps frames split: option.split)

lemma period_set_store_effect:
  assumes "registered (full_table gt gm sm gp sp) invar s"
  shows "period_of (sworld (exec (period_set_store E K buf n) s)) =
      (case kstrtouint E buf of None \<Rightarrow> period_of (sworld s)
       | Some p \<Rightarrow> if mode_of (sworld s) = 0 \<and> 0 < p then p else period_of (sworld s))"
    and "mode_of (sworld (exec (period_set_store E K buf n) s)) = mode_of (sworld s)"
    and "registered (full_table gt gm sm gp sp) invar (exec (period_set_store E K buf n) s)"
  using assms
  by (simp_all add: registered_def period_set_store_def run_simps frames split: option.split)

text \<open>A write followed by a read of the same file.\<close>

lemma mode_store_show:
  assumes "registered (full_table gt gm sm gp sp) invar s" and "kstrtoint E buf = Some m" and "m = 0 \<or> m = 1"
  shows "result (mode_show E K) (exec (mode_store E K buf n) s) = snprintf (PAGE_SIZE E) (fmt_d m @ nl)"
  using assms(2,3) mode_store_effect [OF assms(1), of E buf n] by (simp add: mode_show_value)

text \<open>Every handler takes and releases its locks in order, on every path.\<close>

lemma callbacks_locked:
  assumes "L r = Some [Sysfs_lock]"
  shows "L (exec gt r) = Some [Sysfs_lock]" "L (exec gm r) = Some [Sysfs_lock]"
    "L (exec (sm m) r) = Some [Sysfs_lock]" "L (exec gp r) = Some [Sysfs_lock]"
    "L (exec (sp p) r) = Some [Sysfs_lock]"
  using assms locked [THEN well_lockedD, OF assms] by simp_all

lemma handlers_locked:
  assumes "registered (full_table gt gm sm gp sp) invar s" and "L (sworld s) = Some []"
  shows "L (sworld (exec (temperature_show E K) s)) = Some []"
    "L (sworld (exec (mode_show E K) s)) = Some []"
    "L (sworld (exec (mode_store E K buf n) s)) = Some []"
    "L (sworld (exec (period_status_show E K) s)) = Some []"
    "L (sworld (exec (period_set_store E K buf n) s)) = Some []"
  using assms
  by (simp_all add: registered_def handlers run_simps callbacks_locked logs_locksD [OF K_locks]
      split: option.split)

end

end
