(* ===== verification/Regulator.thy ===== *)
theory Regulator
  imports KSysfs
begin

section \<open>The regulator: \<open>kernel/regulator/regulator.c\<close>\<close>

text \<open>
  Mode, period and the thread that follows the temperature in automatic mode. The hardware
  is reached through the table \<open>regulator_callbacks\<close>; the state is polymorphic in the
  world \<open>'w\<close> behind it, and \<open>K\<close> is the kernel interface on that world. The locale
  \<open>regulator_hw\<close> is what the regulator relies on from the two functions of the table;
  in it, the callbacks given to sysfs are shown to satisfy the contract
  \<open>sysfs_provider\<close>, and the period kept here is shown to be the one the hardware has.
\<close>

record 'w regulator_callbacks =
  rcb_adjust_period :: "(i32 \<Rightarrow> ('w, unit) state) option"
  rcb_get_temperature :: "('w, u32) state option"

record 'w regulator =
  current_mode :: i32
  current_period :: u32
  regulator_thread :: int
  regulator_cbs :: "'w regulator_callbacks"
  rworld :: 'w

text \<open>The initial values of the statics.\<close>

definition regulator_statics :: "'w \<Rightarrow> 'w regulator" where
  "regulator_statics w = \<lparr>current_mode = 1, current_period = 1000, regulator_thread = 0,
     regulator_cbs = \<lparr>rcb_adjust_period = None, rcb_get_temperature = None\<rparr>, rworld = w\<rparr>"

definition in_world :: "('w, 'a) state \<Rightarrow> ('w regulator, 'a) state" where
  "in_world m = zoom rworld (\<lambda>w r. r\<lparr>rworld := w\<rparr>) m"

lemma in_world_simps [simp, run_simps]:
  "result (in_world m) r = result m (rworld r)"
  "exec (in_world m) r = r\<lparr>rworld := exec m (rworld r)\<rparr>"
  by (simp_all add: in_world_def)

definition rcall :: "(kcall \<Rightarrow> ('w, int) state) \<Rightarrow> kcall \<Rightarrow> ('w regulator, int) state" where
  "rcall K c = in_world (K c)"

lemma rcall_simps [simp, run_simps]:
  "result (rcall K c) r = result (K c) (rworld r)"
  "exec (rcall K c) r = r\<lparr>rworld := exec (K c) (rworld r)\<rparr>"
  by (simp_all add: rcall_def)

text \<open>Calls through the table; through \<open>NULL\<close> they are an oops.\<close>

definition call_get_temperature :: "(kcall \<Rightarrow> ('w, int) state) \<Rightarrow> ('w regulator, u32) state" where
  "call_get_temperature K = do {
     cbs \<leftarrow> gets regulator_cbs;
     case rcb_get_temperature cbs of
       None \<Rightarrow> do { void (rcall K (Null_call ''get_temperature'')); ret 0 }
     | Some f \<Rightarrow> in_world f
   }"

definition call_adjust_period ::
  "(kcall \<Rightarrow> ('w, int) state) \<Rightarrow> i32 \<Rightarrow> ('w regulator, unit) state" where
  "call_adjust_period K p = do {
     cbs \<leftarrow> gets regulator_cbs;
     case rcb_adjust_period cbs of
       None \<Rightarrow> void (rcall K (Null_call ''adjust_period''))
     | Some f \<Rightarrow> in_world (f p)
   }"

subsection \<open>The callbacks given to sysfs\<close>

definition cb_get_temperature :: "(kcall \<Rightarrow> ('w, int) state) \<Rightarrow> ('w regulator, u32) state" where
  "cb_get_temperature K = call_get_temperature K"

definition cb_get_mode :: "(kcall \<Rightarrow> ('w, int) state) \<Rightarrow> ('w regulator, i32) state" where
  "cb_get_mode K = do {
     void (rcall K (Mutex_lock Regulator_lock));
     mode \<leftarrow> gets current_mode;
     void (rcall K (Mutex_unlock Regulator_lock));
     ret mode
   }"

definition cb_set_mode :: "(kcall \<Rightarrow> ('w, int) state) \<Rightarrow> i32 \<Rightarrow> ('w regulator, unit) state" where
  "cb_set_mode K mode =
     (if mode = 0 \<or> mode = 1 then do {
        void (rcall K (Mutex_lock Regulator_lock));
        modify (\<lambda>r. r\<lparr>current_mode := mode\<rparr>);
        void (rcall K (Mutex_unlock Regulator_lock))
      } else ret ())"

definition cb_get_period :: "(kcall \<Rightarrow> ('w, int) state) \<Rightarrow> ('w regulator, u32) state" where
  "cb_get_period K = do {
     void (rcall K (Mutex_lock Regulator_lock));
     period \<leftarrow> gets current_period;
     void (rcall K (Mutex_unlock Regulator_lock));
     ret period
   }"

definition cb_set_period :: "(kcall \<Rightarrow> ('w, int) state) \<Rightarrow> u32 \<Rightarrow> ('w regulator, unit) state" where
  "cb_set_period K period_ms = do {
     void (rcall K (Mutex_lock Regulator_lock));
     mode \<leftarrow> gets current_mode;
     (if mode = 0 then
        (if 0 < period_ms then do {
           modify (\<lambda>r. r\<lparr>current_period := period_ms\<rparr>);
           call_adjust_period K period_ms
         } else ret ())
      else ret ());
     void (rcall K (Mutex_unlock Regulator_lock))
   }"

definition sysfs_cbs :: "(kcall \<Rightarrow> ('w, int) state) \<Rightarrow> 'w regulator sysfs_callbacks" where
  "sysfs_cbs K = \<lparr>scb_get_temperature = Some (cb_get_temperature K),
     scb_get_mode = Some (cb_get_mode K), scb_set_mode = Some (cb_set_mode K),
     scb_get_period = Some (cb_get_period K), scb_set_period = Some (cb_set_period K)\<rparr>"

subsection \<open>Automatic mode\<close>

definition auto_period :: "u32 \<Rightarrow> u32" where
  "auto_period temp_c =
     (if temp_c < 35 then 500
      else if temp_c < 40 then 200
      else if temp_c < 45 then 100
      else 50)"

text \<open>
  \<open>process_auto_mode\<close> in its two parts: the period is chosen outside the lock and applied
  inside it.
\<close>

definition auto_mode_decide :: "(kcall \<Rightarrow> ('w, int) state) \<Rightarrow> ('w regulator, u32) state" where
  "auto_mode_decide K = do {
     temp_milli \<leftarrow> call_get_temperature K;
     ret (auto_period (temp_milli div 1000))
   }"

definition auto_mode_apply ::
  "(kcall \<Rightarrow> ('w, int) state) \<Rightarrow> u32 \<Rightarrow> ('w regulator, unit) state" where
  "auto_mode_apply K new_period = do {
     void (rcall K (Mutex_lock Regulator_lock));
     p \<leftarrow> gets current_period;
     (if new_period \<noteq> p then do {
        modify (\<lambda>r. r\<lparr>current_period := new_period\<rparr>);
        call_adjust_period K new_period
      } else ret ());
     void (rcall K (Mutex_unlock Regulator_lock))
   }"

definition process_auto_mode :: "(kcall \<Rightarrow> ('w, int) state) \<Rightarrow> ('w regulator, unit) state" where
  "process_auto_mode K = do {
     new_period \<leftarrow> auto_mode_decide K;
     auto_mode_apply K new_period
   }"

text \<open>The thread: one pass of its loop, and the loop with fuel.\<close>

definition regulator_read_mode :: "(kcall \<Rightarrow> ('w, int) state) \<Rightarrow> ('w regulator, i32) state" where
  "regulator_read_mode K = do {
     void (rcall K (Mutex_lock Regulator_lock));
     mode \<leftarrow> gets current_mode;
     void (rcall K (Mutex_unlock Regulator_lock));
     ret mode
   }"

definition regulator_body :: "(kcall \<Rightarrow> ('w, int) state) \<Rightarrow> ('w regulator, unit) state" where
  "regulator_body K = do {
     mode \<leftarrow> regulator_read_mode K;
     (if mode = 1 then process_auto_mode K else ret ());
     void (rcall K (Msleep 1000))
   }"

fun regulator_thread_fn ::
  "(kcall \<Rightarrow> ('w, int) state) \<Rightarrow> nat \<Rightarrow> ('w regulator, int option) state" where
  "regulator_thread_fn K 0 = ret None"
| "regulator_thread_fn K (Suc fuel) = do {
     stop \<leftarrow> rcall K Kthread_should_stop;
     if stop \<noteq> 0 then ret (Some 0)
     else do {
       regulator_body K;
       regulator_thread_fn K fuel
     }
   }"

text \<open>
  The pass cut at the releases of its locks: where the loop stands and what it does from
  there to the next point.
\<close>

datatype phase =
    Check  \<comment> \<open>before \<open>kthread_should_stop\<close>\<close>
  | Read  \<comment> \<open>before the mode is read\<close>
  | Decide  \<comment> \<open>mode 1 was read: before \<open>get_temperature\<close>\<close>
  | Apply u32  \<comment> \<open>the period was chosen: before it is applied\<close>
  | Sleep  \<comment> \<open>before \<open>msleep\<close>\<close>
  | Stopped

definition regulator_section :: "(kcall \<Rightarrow> ('w, int) state) \<Rightarrow> phase \<Rightarrow> ('w regulator, phase) state" where
  "regulator_section K p = (case p of
       Check \<Rightarrow> do {
         stop \<leftarrow> rcall K Kthread_should_stop;
         ret (if stop \<noteq> 0 then Stopped else Read) }
     | Read \<Rightarrow> do {
         mode \<leftarrow> regulator_read_mode K;
         ret (if mode = 1 then Decide else Sleep) }
     | Decide \<Rightarrow> do {
         n \<leftarrow> auto_mode_decide K;
         ret (Apply n) }
     | Apply n \<Rightarrow> do {
         auto_mode_apply K n;
         ret Sleep }
     | Sleep \<Rightarrow> do {
         void (rcall K (Msleep 1000));
         ret Check }
     | Stopped \<Rightarrow> ret Stopped)"

text \<open>\<open>n\<close> sections in a row, without interference.\<close>

fun regulator_sections :: "(kcall \<Rightarrow> ('w, int) state) \<Rightarrow> nat \<Rightarrow> phase \<Rightarrow> ('w regulator, phase) state" where
  "regulator_sections K 0 p = ret p"
| "regulator_sections K (Suc n) p = do {
     p' \<leftarrow> regulator_section K p;
     regulator_sections K n p'
   }"

subsection \<open>Start and stop\<close>

definition in_reg :: "('w regulator, 'a) state \<Rightarrow> ('w regulator ksysfs, 'a) state" where
  "in_reg m = in_sworld m"

definition regulator_init ::
  "(kcall \<Rightarrow> ('w, int) state) \<Rightarrow> 'w regulator_callbacks option \<Rightarrow> ('w regulator ksysfs, int) state"
where
  "regulator_init K cbs = (case cbs of
       None \<Rightarrow> ret (- EINVAL)
     | Some c \<Rightarrow> do {
         in_reg (modify (\<lambda>r. r\<lparr>regulator_cbs := c\<rparr>));
         r \<leftarrow> temp_regulator_sysfs_init (rcall K) (Some (sysfs_cbs K));
         if r \<noteq> 0 then ret r
         else do {
           t \<leftarrow> in_reg (rcall K (Kthread_run ''regulator_logic''));
           in_reg (modify (\<lambda>r. r\<lparr>regulator_thread := t\<rparr>));
           if IS_ERR t then do {
             temp_regulator_sysfs_exit (rcall K);
             ret t
           } else ret 0
         }
       })"

definition regulator_exit :: "(kcall \<Rightarrow> ('w, int) state) \<Rightarrow> ('w regulator ksysfs, unit) state" where
  "regulator_exit K = do {
     t \<leftarrow> in_reg (gets regulator_thread);
     only_if (t \<noteq> 0) (do {
       void (in_reg (rcall K (Kthread_stop t)));
       in_reg (modify (\<lambda>r. r\<lparr>regulator_thread := 0\<rparr>))
     });
     temp_regulator_sysfs_exit (rcall K)
   }"

subsection \<open>Periods of the automatic mode\<close>

lemma auto_period_cases: "auto_period c \<in> {500, 200, 100, 50}"
  by (simp add: auto_period_def)

lemma auto_period_pos [simp]: "0 < auto_period c"
  by (simp add: auto_period_def)

lemma auto_period_antitone: "c \<le> c' \<Longrightarrow> auto_period c' \<le> auto_period c"
  by (auto simp: auto_period_def)

subsection \<open>The contract of the hardware table\<close>

definition hw_table ::
  "(i32 \<Rightarrow> ('w, unit) state) \<Rightarrow> ('w, u32) state \<Rightarrow> 'w regulator_callbacks" where
  "hw_table adjust get_temp =
     \<lparr>rcb_adjust_period = Some adjust, rcb_get_temperature = Some get_temp\<rparr>"

lemma hw_table_simps [simp]:
  "rcb_adjust_period (hw_table a g) = Some a" "rcb_get_temperature (hw_table a g) = Some g"
  by (simp_all add: hw_table_def)

text \<open>
  The invariant: the table is registered, the hardware blinks with the period that the
  regulator reports, the mode is one of the two modes, the period is positive.
\<close>

definition reg_inv :: "'w regulator_callbacks \<Rightarrow> ('w \<Rightarrow> i32) \<Rightarrow> 'w regulator \<Rightarrow> bool" where
  "reg_inv tbl hwp r \<longleftrightarrow> regulator_cbs r = tbl \<and> hwp (rworld r) = current_period r \<and>
     (current_mode r = 0 \<or> current_mode r = 1) \<and> 0 < current_period r"

locale regulator_hw =
  fixes K :: "kcall \<Rightarrow> ('w, int) state"
    and adjust :: "i32 \<Rightarrow> ('w, unit) state" and get_temp :: "('w, u32) state"
    and hwp :: "'w \<Rightarrow> i32" and L :: "'w \<Rightarrow> klock list option"
  assumes K_hwp: "hwp (exec (K c) w) = hwp w"
    and K_logs: "logs_locks L K"
    and adjust_hwp: "hwp (exec (adjust p) w) = p"
    and temp_hwp: "hwp (exec get_temp w) = hwp w"
    and adjust_locked: "well_locked L 2 (adjust p)"
    and temp_locked: "well_locked L 2 get_temp"
begin

lemmas hw = K_hwp adjust_hwp temp_hwp

lemmas calls = call_get_temperature_def call_adjust_period_def cb_get_temperature_def

lemmas sections = cb_get_mode_def cb_set_mode_def cb_get_period_def cb_set_period_def
  regulator_read_mode_def auto_mode_decide_def auto_mode_apply_def

lemma cb_set_period_effect:
  assumes "reg_inv (hw_table adjust get_temp) hwp r"
  shows "current_period (exec (cb_set_period K p) r) =
      (if current_mode r = 0 \<and> 0 < p then p else current_period r)"
    and "hwp (rworld (exec (cb_set_period K p) r)) = current_period (exec (cb_set_period K p) r)"
    and "current_mode (exec (cb_set_period K p) r) = current_mode r"
    and "reg_inv (hw_table adjust get_temp) hwp (exec (cb_set_period K p) r)"
  using assms by (auto simp: reg_inv_def cb_set_period_def calls run_simps hw)

lemma auto_mode_apply_effect:
  assumes "reg_inv (hw_table adjust get_temp) hwp r" and "0 < n"
  shows "current_period (exec (auto_mode_apply K n) r) = n"
    and "hwp (rworld (exec (auto_mode_apply K n) r)) = n"
    and "current_mode (exec (auto_mode_apply K n) r) = current_mode r"
    and "reg_inv (hw_table adjust get_temp) hwp (exec (auto_mode_apply K n) r)"
  using assms by (auto simp: reg_inv_def auto_mode_apply_def calls run_simps hw)

lemma auto_mode_decide_effect:
  assumes "reg_inv (hw_table adjust get_temp) hwp r"
  shows "result (auto_mode_decide K) r = auto_period (result get_temp (rworld r) div 1000)"
    and "current_period (exec (auto_mode_decide K) r) = current_period r"
    and "current_mode (exec (auto_mode_decide K) r) = current_mode r"
    and "reg_inv (hw_table adjust get_temp) hwp (exec (auto_mode_decide K) r)"
  using assms by (simp_all add: reg_inv_def auto_mode_decide_def calls run_simps hw)

lemma read_mode_effect:
  assumes "reg_inv (hw_table adjust get_temp) hwp r"
  shows "result (regulator_read_mode K) r = current_mode r"
    and "current_period (exec (regulator_read_mode K) r) = current_period r"
    and "current_mode (exec (regulator_read_mode K) r) = current_mode r"
    and "reg_inv (hw_table adjust get_temp) hwp (exec (regulator_read_mode K) r)"
  using assms by (simp_all add: reg_inv_def regulator_read_mode_def run_simps hw)

lemma rcall_inv:
  "reg_inv (hw_table adjust get_temp) hwp (exec (rcall K c) r) =
   reg_inv (hw_table adjust get_temp) hwp r"
  by (simp add: reg_inv_def hw)

text \<open>The sections of a pass, one at a time and together.\<close>

lemma section_effect:
  assumes "reg_inv (hw_table adjust get_temp) hwp r" and "\<forall>n. p = Apply n \<longrightarrow> 0 < n"
  shows "reg_inv (hw_table adjust get_temp) hwp (exec (regulator_section K p) r)"
    and "current_mode (exec (regulator_section K p) r) = current_mode r"
    and "current_period (exec (regulator_section K p) r) =
      (case p of Apply n \<Rightarrow> n | _ \<Rightarrow> current_period r)"
  using assms read_mode_effect [OF assms(1)] auto_mode_decide_effect [OF assms(1)]
    auto_mode_apply_effect [OF assms(1)] rcall_inv
  by (cases p; simp add: regulator_section_def exec_bind)+

lemma section_phase:
  assumes "reg_inv (hw_table adjust get_temp) hwp r"
  shows "result (regulator_section K p) r = (case p of
       Check \<Rightarrow> if result (K Kthread_should_stop) (rworld r) \<noteq> 0 then Stopped else Read
     | Read \<Rightarrow> if current_mode r = 1 then Decide else Sleep
     | Decide \<Rightarrow> Apply (auto_period (result get_temp (rworld r) div 1000))
     | Apply n \<Rightarrow> Sleep
     | Sleep \<Rightarrow> Check
     | Stopped \<Rightarrow> Stopped)"
  using read_mode_effect [OF assms] auto_mode_decide_effect [OF assms]
  by (cases p; simp add: regulator_section_def result_bind)

lemma body_as_sections:
  assumes "reg_inv (hw_table adjust get_temp) hwp r"
  shows "exec (regulator_body K) r =
      exec (regulator_sections K (if current_mode r = 1 then 4 else 2) Read) r"
    and "result (regulator_sections K (if current_mode r = 1 then 4 else 2) Read) r = Check"
  using read_mode_effect [OF assms]
  by (simp_all add: regulator_body_def process_auto_mode_def regulator_section_def
      result_bind exec_bind numeral_eq_Suc)

text \<open>One pass of the thread without interference.\<close>

lemma regulator_body_effect:
  assumes "reg_inv (hw_table adjust get_temp) hwp r"
  shows "reg_inv (hw_table adjust get_temp) hwp (exec (regulator_body K) r)"
    and "current_mode (exec (regulator_body K) r) = current_mode r"
    and "current_mode r = 0 \<Longrightarrow> current_period (exec (regulator_body K) r) = current_period r"
    and "current_mode r = 1 \<Longrightarrow> current_period (exec (regulator_body K) r) =
      auto_period (result get_temp (rworld (exec (regulator_read_mode K) r)) div 1000)"
proof -
  let ?r1 = "exec (regulator_read_mode K) r"
  let ?r2 = "exec (auto_mode_decide K) ?r1"
  note e1 = read_mode_effect [OF assms]
  note e2 = auto_mode_decide_effect [OF e1(4)]
  note e3 = auto_mode_apply_effect [OF e2(4) auto_period_pos]
  show "reg_inv (hw_table adjust get_temp) hwp (exec (regulator_body K) r)"
    using e1 e2 e3 by (simp add: regulator_body_def process_auto_mode_def exec_bind rcall_inv
        del: rcall_simps)
  show "current_mode (exec (regulator_body K) r) = current_mode r"
    using e1 e2 e3 by (simp add: regulator_body_def process_auto_mode_def exec_bind)
  show "current_mode r = 0 \<Longrightarrow> current_period (exec (regulator_body K) r) = current_period r"
    using e1 by (simp add: regulator_body_def exec_bind)
  show "current_mode r = 1 \<Longrightarrow> current_period (exec (regulator_body K) r) =
      auto_period (result get_temp (rworld ?r1) div 1000)"
    using e1 e2 e3 by (simp add: regulator_body_def process_auto_mode_def exec_bind)
qed

text \<open>Locks: what a section does when at most \<open>sysfs_lock\<close> is held.\<close>

lemma hw_at:
  assumes "L w = Some hs" and "\<forall>h \<in> set hs. lock_rank h < 2"
  shows "L (exec (adjust p) w) = Some hs" "L (exec get_temp w) = Some hs"
  using well_lockedD [OF adjust_locked assms] well_lockedD [OF temp_locked assms] by simp_all

lemma adjust_inside:
  "L w = Some (Regulator_lock # hs) \<Longrightarrow> \<forall>h \<in> set hs. lock_rank h < 1 \<Longrightarrow>
   L (exec (adjust p) w) = Some (Regulator_lock # hs)"
  by (rule hw_at) fastforce+

lemma temp_inside:
  "L w = Some hs \<Longrightarrow> \<forall>h \<in> set hs. lock_rank h < 1 \<Longrightarrow> L (exec get_temp w) = Some hs"
  by (rule hw_at) fastforce+

lemma sections_locked:
  assumes "regulator_cbs r = hw_table adjust get_temp"
    and "L (rworld r) = Some hs" and "\<forall>h \<in> set hs. lock_rank h < 1"
  shows "L (rworld (exec (cb_get_temperature K) r)) = Some hs"
    "L (rworld (exec (cb_get_mode K) r)) = Some hs"
    "L (rworld (exec (cb_set_mode K m) r)) = Some hs"
    "L (rworld (exec (cb_get_period K) r)) = Some hs"
    "L (rworld (exec (cb_set_period K p) r)) = Some hs"
    "L (rworld (exec (regulator_read_mode K) r)) = Some hs"
    "L (rworld (exec (auto_mode_decide K) r)) = Some hs"
    "L (rworld (exec (auto_mode_apply K n) r)) = Some hs"
  using assms
  by (simp_all add: sections calls run_simps logs_locksD [OF K_logs] adjust_inside temp_inside)

lemma section_locked:
  assumes "regulator_cbs r = hw_table adjust get_temp"
    and "L (rworld r) = Some hs" and "\<forall>h \<in> set hs. lock_rank h < 1"
  shows "L (rworld (exec (regulator_section K p) r)) = Some hs"
  using sections_locked [OF assms] assms(2)
  by (cases p; simp add: regulator_section_def exec_bind logs_locksD [OF K_logs])

lemma sections_well_locked:
  fixes L' defines "L' \<equiv> \<lambda>r. if regulator_cbs r = hw_table adjust get_temp then L (rworld r) else None"
  shows "well_locked L' 1 (cb_get_temperature K)" "well_locked L' 1 (cb_get_mode K)"
    "well_locked L' 1 (cb_set_mode K m)" "well_locked L' 1 (cb_get_period K)"
    "well_locked L' 1 (cb_set_period K p)"
  unfolding L'_def
  by (rule well_lockedI, simp add: sections_locked split: if_splits,
      simp add: sections calls run_simps)+

end

sublocale regulator_hw \<subseteq> prov: sysfs_provider "rcall K" "cb_get_temperature K" "cb_get_mode K"
  "cb_set_mode K" "cb_get_period K" "cb_set_period K" current_mode current_period
  "\<lambda>r. if regulator_cbs r = hw_table adjust get_temp then L (rworld r) else None"
  "reg_inv (hw_table adjust get_temp) hwp"
proof (unfold_locales, goal_cases)
  case 4
  show ?case by (simp add: logs_locks_def logs_locksD [OF K_logs])
next
  case 22 show ?case by (rule sections_well_locked)
next
  case 23 show ?case by (rule sections_well_locked)
next
  case 24 show ?case by (rule sections_well_locked)
next
  case 25 show ?case by (rule sections_well_locked)
next
  case 26 show ?case by (rule sections_well_locked)
qed (auto simp: reg_inv_def sections calls run_simps hw)

end
