(* ===== verification/KModule.thy ===== *)
theory KModule
  imports Blink Regulator
begin

section \<open>The module: \<open>kernel/main.c\<close>\<close>

text \<open>
  Loading and unloading: the parts are initialised in order, a failure undoes what was
  done. Here the table given to the regulator is the blinker's and the sensor's functions,
  so that the contract \<open>regulator_hw\<close>, and through it \<open>sysfs_provider\<close>, is
  discharged on the code's own definitions. Lemmas: the state after a successful load, what
  is owned after a failed one and after an unload.
\<close>

type_synonym kernel = "blink regulator ksysfs"

interpretation khw: regulator_hw "kapi E :: kcall \<Rightarrow> (blink, int) state" adjust_period
  "read_temp E" blink_period_ms "\<lambda>s. lock_state (klog s)" for E
proof (unfold_locales, goal_cases)
  case 2
  show ?case by (rule logs_locks_kapi)
next
  case (6)
  show ?case by (rule well_lockedI, rule read_temp_locks) simp_all
qed (simp_all add: well_locked_def read_temp_def adjust_period_def run_simps)

text \<open>All statics before the module is loaded.\<close>

definition hw_statics :: blink where
  "hw_statics = \<lparr>klog = [], temp_res = 0, temp_reg = 0, blink_thread = 0, blink_period_ms = 0\<rparr>"

definition kernel_statics :: kernel where
  "kernel_statics = \<lparr>sysfs_class = 0, sysfs_device = 0,
     device_cbs = \<lparr>scb_get_temperature = None, scb_get_mode = None, scb_set_mode = None,
       scb_get_period = None, scb_set_period = None\<rparr>,
     sworld = regulator_statics hw_statics\<rparr>"

definition in_hw :: "(blink, 'a) state \<Rightarrow> (kernel, 'a) state" where
  "in_hw m = in_sworld (in_world m)"

lemma in_hw_simps [simp, run_simps]:
  "result (in_hw m) s = result m (rworld (sworld s))"
  "exec (in_hw m) s = s\<lparr>sworld := (sworld s)\<lparr>rworld := exec m (rworld (sworld s))\<rparr>\<rparr>"
  by (simp_all add: in_hw_def)

definition module_cbs :: "kenv \<Rightarrow> blink regulator_callbacks" where
  "module_cbs E = \<lparr>rcb_adjust_period = Some adjust_period, rcb_get_temperature = Some (read_temp E)\<rparr>"

lemma module_cbs_table: "module_cbs E = hw_table adjust_period (read_temp E)"
  by (simp add: module_cbs_def hw_table_def)

definition temp_regulator_init :: "kenv \<Rightarrow> (kernel, int) state" where
  "temp_regulator_init E = do {
     r \<leftarrow> in_hw (temp_init E);
     if r \<noteq> 0 then ret r
     else do {
       in_hw (blink_init E);
       r \<leftarrow> regulator_init (kapi E) (Some (module_cbs E));
       if r \<noteq> 0 then do {
         in_hw (blink_exit E);
         in_hw (temp_exit E);
         ret r
       } else ret 0
     }
   }"

definition temp_regulator_exit :: "kenv \<Rightarrow> (kernel, unit) state" where
  "temp_regulator_exit E = do {
     regulator_exit (kapi E);
     in_hw (blink_exit E);
     in_hw (temp_exit E)
   }"

subsection \<open>Views of the kernel state\<close>

definition kcalls :: "kernel \<Rightarrow> kevent list" where
  "kcalls s = klog (rworld (sworld s))"

definition kmode :: "kernel \<Rightarrow> i32" where "kmode s = current_mode (sworld s)"
definition kperiod :: "kernel \<Rightarrow> u32" where "kperiod s = current_period (sworld s)"
definition kblink :: "kernel \<Rightarrow> i32" where "kblink s = blink_period_ms (rworld (sworld s))"

text \<open>
  The invariant of the loaded module: the tables are wired, the LED blinks with the reported
  period, the mode is 0 or 1, the period is positive.
\<close>

definition kernel_inv :: "kenv \<Rightarrow> kernel \<Rightarrow> bool" where
  "kernel_inv E s \<longleftrightarrow> registered (sysfs_cbs (kapi E)) (reg_inv (module_cbs E) blink_period_ms) s"

lemma sysfs_cbs_table:
  "sysfs_cbs K = full_table (cb_get_temperature K) (cb_get_mode K) (cb_set_mode K)
     (cb_get_period K) (cb_set_period K)"
  by (simp add: sysfs_cbs_def full_table_def)

lemma kernel_inv_iff:
  "kernel_inv E s \<longleftrightarrow> device_cbs s = sysfs_cbs (kapi E) \<and>
     regulator_cbs (sworld s) = module_cbs E \<and> kblink s = kperiod s \<and>
     (kmode s = 0 \<or> kmode s = 1) \<and> 0 < kperiod s"
  by (auto simp: kernel_inv_def registered_def reg_inv_def kmode_def kperiod_def kblink_def)

subsection \<open>Loading\<close>

text \<open>
  Documented behaviour of three kernel functions that the resource accounting relies on:
  they return a valid pointer or an error pointer, never \<open>NULL\<close>.
\<close>

definition kenv_ok :: "kenv \<Rightarrow> bool" where
  "kenv_ok E \<longleftrightarrow> (\<forall>h nm. kret E h (Class_create nm) \<noteq> 0) \<and>
     (\<forall>h p g nm. kret E h (Device_create p g nm) \<noteq> 0) \<and>
     (\<forall>h nm. kret E h (Kthread_run nm) \<noteq> 0)"

lemma kenv_okD:
  assumes "kenv_ok E"
  shows "kret E h (Class_create nm) \<noteq> 0" "kret E h (Device_create p g nm) \<noteq> 0"
    "kret E h (Kthread_run nm) \<noteq> 0"
  using assms by (simp_all add: kenv_ok_def)

lemma IS_ERR_nonzero: "IS_ERR p \<Longrightarrow> p \<noteq> 0"
  by (simp add: IS_ERR_def)

lemma not_IS_ERR_0 [simp]: "\<not> IS_ERR 0"
  by (simp add: IS_ERR_def)

text \<open>What the sysfs part and the regulator thread own.\<close>

definition files_owned :: "'r ksysfs \<Rightarrow> kres multiset" where
  "files_owned s = {#R_class (sysfs_class s), R_device 0, R_group (sysfs_device s)#}"

text \<open>
  One call of the sysfs part, seen through the views: the state is not unfolded, so that a
  path of the code is a chain of these rewrites.
\<close>

abbreviation kcall_s :: "kenv \<Rightarrow> kcall \<Rightarrow> (kernel, int) state" where
  "kcall_s E \<equiv> scall (rcall (kapi E))"

lemma kcall_s_views:
  fixes s :: kernel
  shows "result (kcall_s E c) s = kret E (kcalls s) c"
    "kcalls (exec (kcall_s E c) s) = kcalls s @ [(c, kret E (kcalls s) c)]"
    "sysfs_class (exec (kcall_s E c) s) = sysfs_class s"
    "sysfs_device (exec (kcall_s E c) s) = sysfs_device s"
    "device_cbs (exec (kcall_s E c) s) = device_cbs s"
  by (simp_all add: kcalls_def)

lemma kcalls_updates [simp]:
  "kcalls (s\<lparr>sysfs_class := c\<rparr>) = kcalls s" "kcalls (s\<lparr>sysfs_device := d\<rparr>) = kcalls s"
  "kcalls (s\<lparr>device_cbs := t\<rparr>) = kcalls s"
  by (simp_all add: kcalls_def)

lemmas path_simps = result_bind exec_bind result_if exec_if result_exec_basic exec_void
  kcall_s_views

text \<open>What lies behind the files, up to the log: these functions do not touch it.\<close>

definition unlogged :: "kernel \<Rightarrow> blink regulator" where
  "unlogged s = (sworld s)\<lparr>rworld := (rworld (sworld s))\<lparr>klog := []\<rparr>\<rparr>"

lemma unlogged_simps [simp]:
  "unlogged (exec (kcall_s E c) s) = unlogged s"
  "unlogged (s\<lparr>sysfs_class := k\<rparr>) = unlogged s"
  "unlogged (s\<lparr>sysfs_device := d\<rparr>) = unlogged s"
  "unlogged (s\<lparr>device_cbs := t\<rparr>) = unlogged s"
  by (simp_all add: unlogged_def)

lemma unlogged_eqD:
  assumes "unlogged s' = unlogged s"
  shows "current_mode (sworld s') = current_mode (sworld s)"
    "current_period (sworld s') = current_period (sworld s)"
    "regulator_thread (sworld s') = regulator_thread (sworld s)"
    "regulator_cbs (sworld s') = regulator_cbs (sworld s)"
    "blink_period_ms (rworld (sworld s')) = blink_period_ms (rworld (sworld s))"
    "blink_thread (rworld (sworld s')) = blink_thread (rworld (sworld s))"
    "temp_reg (rworld (sworld s')) = temp_reg (rworld (sworld s))"
    "temp_res (rworld (sworld s')) = temp_res (rworld (sworld s))"
  using assms [THEN arg_cong, of current_mode] assms [THEN arg_cong, of current_period]
    assms [THEN arg_cong, of regulator_thread] assms [THEN arg_cong, of regulator_cbs]
    assms [THEN arg_cong, of "blink_period_ms \<circ> rworld"]
    assms [THEN arg_cong, of "blink_thread \<circ> rworld"]
    assms [THEN arg_cong, of "temp_reg \<circ> rworld"] assms [THEN arg_cong, of "temp_res \<circ> rworld"]
  by (simp_all add: unlogged_def)

lemma sysfs_init_frame:
  fixes s :: kernel
  shows "unlogged (exec (temp_regulator_sysfs_init (rcall (kapi E)) (Some c)) s) = unlogged s"
    and "device_cbs (exec (temp_regulator_sysfs_init (rcall (kapi E)) (Some c)) s) = c"
  by (simp_all add: temp_regulator_sysfs_init_def path_simps del: scall_simps)

lemma sysfs_init_resources:
  fixes s :: kernel
  assumes "res_state (kcalls s) = Some R"
  shows "res_state (kcalls (exec (temp_regulator_sysfs_init (rcall (kapi E)) (Some c)) s)) =
    Some (if result (temp_regulator_sysfs_init (rcall (kapi E)) (Some c)) s = 0
          then R + files_owned (exec (temp_regulator_sysfs_init (rcall (kapi E)) (Some c)) s) else R)"
  using assms
  by (simp add: temp_regulator_sysfs_init_def path_simps files_owned_def IS_ERR_nonzero
      del: scall_simps)

lemma sysfs_init_pointers:
  fixes s :: kernel
  assumes "kenv_ok E" and "result (temp_regulator_sysfs_init (rcall (kapi E)) (Some c)) s = 0"
  shows "sysfs_class (exec (temp_regulator_sysfs_init (rcall (kapi E)) (Some c)) s) \<noteq> 0"
    and "sysfs_device (exec (temp_regulator_sysfs_init (rcall (kapi E)) (Some c)) s) \<noteq> 0"
  using assms
  by (simp_all add: temp_regulator_sysfs_init_def path_simps kenv_okD del: scall_simps
      split: if_splits)

lemma sysfs_exit_resources:
  fixes s :: kernel
  assumes "res_state (kcalls s) = Some (files_owned s + R)"
    and "sysfs_class s \<noteq> 0" and "sysfs_device s \<noteq> 0"
  shows "res_state (kcalls (exec (temp_regulator_sysfs_exit (rcall (kapi E))) s)) = Some R"
  using assms
  by (simp add: temp_regulator_sysfs_exit_def path_simps files_owned_def add_mset_commute
      del: scall_simps)

lemma sysfs_exit_frame:
  fixes s :: kernel
  shows "unlogged (exec (temp_regulator_sysfs_exit (rcall (kapi E))) s) = unlogged s"
  by (simp add: temp_regulator_sysfs_exit_def path_simps del: scall_simps)

text \<open>The regulator: everything that it registers, or an error and nothing.\<close>

lemma regulator_init_result:
  "result (regulator_init K None) s = - EINVAL"
  by (simp add: regulator_init_def)

lemma in_reg_views:
  fixes s :: kernel
  shows "in_reg (rcall (kapi E) c) = kcall_s E c"
    "kcalls (exec (in_reg (modify (\<lambda>r. r\<lparr>regulator_thread := t\<rparr>))) s) = kcalls s"
    "kcalls (exec (in_reg (modify (\<lambda>r. r\<lparr>regulator_cbs := c'\<rparr>))) s) = kcalls s"
    "sysfs_class (exec (in_reg m) s) = sysfs_class s"
    "sysfs_device (exec (in_reg m) s) = sysfs_device s"
    "device_cbs (exec (in_reg m) s) = device_cbs s"
  by (simp_all add: in_reg_def scall_def kcalls_def)

text \<open>\<open>regulator_init\<close> as its three outcomes: the files fail, the thread fails, all is up.\<close>

lemma regulator_init_run:
  fixes s :: kernel and c :: "blink regulator_callbacks" and E :: kenv
  defines "s1 \<equiv> exec (in_reg (modify (\<lambda>r. r\<lparr>regulator_cbs := c\<rparr>))) s"
    and "m \<equiv> temp_regulator_sysfs_init (rcall (kapi E)) (Some (sysfs_cbs (kapi E)))"
  defines "s2 \<equiv> exec m s1"
  defines "t \<equiv> kret E (kcalls s2) (Kthread_run ''regulator_logic'')"
  defines "s3 \<equiv> exec (in_reg (modify (\<lambda>r. r\<lparr>regulator_thread := t\<rparr>)))
      (exec (kcall_s E (Kthread_run ''regulator_logic'')) s2)"
  shows "result (regulator_init (kapi E) (Some c)) s =
      (if result m s1 \<noteq> 0 then result m s1 else if IS_ERR t then t else 0)"
    and "exec (regulator_init (kapi E) (Some c)) s =
      (if result m s1 \<noteq> 0 then s2
       else if IS_ERR t then exec (temp_regulator_sysfs_exit (rcall (kapi E))) s3 else s3)"
  by (simp_all add: regulator_init_def path_simps in_reg_views del: scall_simps
      flip: s1_def m_def s2_def t_def s3_def)

lemma regulator_init_resources:
  fixes s :: kernel and c :: "blink regulator_callbacks" and E :: kenv
  assumes "kenv_ok E" and "res_state (kcalls s) = Some R"
  defines "s' \<equiv> exec (regulator_init (kapi E) (Some c)) s"
  shows "res_state (kcalls s') = Some (if result (regulator_init (kapi E) (Some c)) s = 0
      then R + files_owned s' + {#R_thread (regulator_thread (sworld s'))#} else R)"
proof -
  define s1 where "s1 = exec (in_reg (modify (\<lambda>r. r\<lparr>regulator_cbs := c\<rparr>))) s"
  define m :: "(kernel, int) state" where "m = temp_regulator_sysfs_init (rcall (kapi E)) (Some (sysfs_cbs (kapi E)))"
  define s2 where "s2 = exec m s1"
  define t where "t = kret E (kcalls s2) (Kthread_run ''regulator_logic'')"
  define s3 where "s3 = exec (in_reg (modify (\<lambda>r. r\<lparr>regulator_thread := t\<rparr>)))
      (exec (kcall_s E (Kthread_run ''regulator_logic'')) s2)"
  note run = regulator_init_run [of E c s, folded s1_def m_def, folded s2_def, folded t_def, folded s3_def]
  have res2: "res_state (kcalls s2) = Some (if result m s1 = 0 then R + files_owned s2 else R)"
    unfolding s2_def m_def using assms(2)
    by (intro sysfs_init_resources) (simp add: s1_def in_reg_views)
  have ptr: "result m s1 = 0 \<Longrightarrow> sysfs_class s3 \<noteq> 0 \<and> sysfs_device s3 \<noteq> 0"
    unfolding s3_def s2_def m_def using sysfs_init_pointers [OF assms(1)]
    by (simp add: in_reg_views kcall_s_views del: scall_simps)
  have s3: "kcalls s3 = kcalls s2 @ [(Kthread_run ''regulator_logic'', t)]"
    "files_owned s3 = files_owned s2" "regulator_thread (sworld s3) = t"
    by (simp_all add: s3_def t_def in_reg_views kcall_s_views files_owned_def del: scall_simps)
      (simp_all add: in_reg_def)
  have "t \<noteq> 0" unfolding t_def using assms(1) by (rule kenv_okD)
  moreover have "result m s1 = 0 \<Longrightarrow> IS_ERR t \<Longrightarrow> res_state (kcalls s3) = Some (files_owned s3 + R)"
    using res2 by (simp add: s3 add.commute)
  ultimately show ?thesis
    unfolding s'_def run using res2 ptr s3 sysfs_exit_resources [of s3 R E] by simp
qed

lemma regulator_init_up:
  fixes s :: kernel and c :: "blink regulator_callbacks" and E :: kenv
  assumes "kenv_ok E" and "result (regulator_init (kapi E) (Some c)) s = 0"
  defines "s' \<equiv> exec (regulator_init (kapi E) (Some c)) s"
  shows "device_cbs s' = sysfs_cbs (kapi E)" and "regulator_cbs (sworld s') = c"
    and "regulator_thread (sworld s') \<noteq> 0" and "sysfs_class s' \<noteq> 0" and "sysfs_device s' \<noteq> 0"
proof -
  define s1 where "s1 = exec (in_reg (modify (\<lambda>r. r\<lparr>regulator_cbs := c\<rparr>))) s"
  define m :: "(kernel, int) state" where "m = temp_regulator_sysfs_init (rcall (kapi E)) (Some (sysfs_cbs (kapi E)))"
  define s2 where "s2 = exec m s1"
  define t where "t = kret E (kcalls s2) (Kthread_run ''regulator_logic'')"
  define s3 where "s3 = exec (in_reg (modify (\<lambda>r. r\<lparr>regulator_thread := t\<rparr>)))
      (exec (kcall_s E (Kthread_run ''regulator_logic'')) s2)"
  note run = regulator_init_run [of E c s, folded s1_def m_def, folded s2_def, folded t_def, folded s3_def]
  have "t \<noteq> 0" unfolding t_def using assms(1) by (rule kenv_okD)
  then have up: "result m s1 = 0" "\<not> IS_ERR t" "s' = s3"
    using assms(2) by (auto simp: s'_def run split: if_splits)
  have d2: "unlogged s2 = unlogged s1" "device_cbs s2 = sysfs_cbs (kapi E)"
    unfolding s2_def m_def by (rule sysfs_init_frame)+
  show "device_cbs s' = sysfs_cbs (kapi E)" by (simp add: up s3_def in_reg_views d2)
  show "regulator_cbs (sworld s') = c"
    using unlogged_eqD [OF d2(1)] by (simp add: up s3_def in_reg_def s1_def)
  show "regulator_thread (sworld s') \<noteq> 0" using \<open>t \<noteq> 0\<close> by (simp add: up s3_def in_reg_def)
  show "sysfs_class s' \<noteq> 0" "sysfs_device s' \<noteq> 0"
    using sysfs_init_pointers [OF assms(1), of "sysfs_cbs (kapi E)" s1] up(1)
    by (simp_all add: up(3) s3_def in_reg_views flip: m_def s2_def)
qed

text \<open>What it leaves alone, on every path.\<close>

definition core :: "kernel \<Rightarrow> i32 \<times> u32 \<times> blink" where
  "core s = (current_mode (sworld s), current_period (sworld s), rworld (unlogged s))"

lemma core_unlogged: "unlogged s' = unlogged s \<Longrightarrow> core s' = core s"
  using unlogged_eqD [of s' s] by (simp add: core_def)

lemma core_simps [simp]:
  "core (exec (kcall_s E c) s) = core s"
  "core (exec (in_reg (modify (\<lambda>r. r\<lparr>regulator_thread := t\<rparr>))) s) = core s"
  "core (exec (in_reg (modify (\<lambda>r. r\<lparr>regulator_cbs := c'\<rparr>))) s) = core s"
  "core (exec (temp_regulator_sysfs_init (rcall (kapi E)) (Some tbl)) s) = core s"
  "core (exec (temp_regulator_sysfs_exit (rcall (kapi E))) s) = core s"
  by (rule core_unlogged, rule unlogged_simps, simp add: core_def in_reg_def unlogged_def,
      simp add: core_def in_reg_def unlogged_def, rule core_unlogged, rule sysfs_init_frame,
      rule core_unlogged, rule sysfs_exit_frame)

lemma regulator_init_core: "core (exec (regulator_init (kapi E) (Some c)) s) = core s"
  by (simp add: regulator_init_run del: scall_simps)

subsection \<open>Loading and unloading the module\<close>

definition hw_owned :: "kernel \<Rightarrow> kres multiset" where
  "hw_owned s = temp_owned (rworld (sworld s)) + blink_owned (rworld (sworld s))"

lemma core_views:
  assumes "core s' = core s"
  shows "hw_owned s' = hw_owned s" "kmode s' = kmode s" "kperiod s' = kperiod s" "kblink s' = kblink s"
    "temp_owned (rworld (sworld s')) = temp_owned (rworld (sworld s))"
proof -
  have rw: "rworld (unlogged s') = rworld (unlogged s)" using assms by (simp add: core_def)
  note eq = rw [THEN arg_cong, of temp_reg] rw [THEN arg_cong, of temp_res]
    rw [THEN arg_cong, of blink_thread] rw [THEN arg_cong, of blink_period_ms]
  show "hw_owned s' = hw_owned s"
    using eq by (simp add: hw_owned_def temp_owned_def blink_owned_def unlogged_def)
  show "kmode s' = kmode s" "kperiod s' = kperiod s"
    using assms by (simp_all add: core_def kmode_def kperiod_def)
  show "kblink s' = kblink s" using eq by (simp add: kblink_def unlogged_def)
  show "temp_owned (rworld (sworld s')) = temp_owned (rworld (sworld s))"
    using eq by (simp add: temp_owned_def unlogged_def)
qed

lemma kcalls_in_hw: "kcalls (exec (in_hw m) s) = klog (exec m (rworld (sworld s)))"
  by (simp add: kcalls_def)

text \<open>Whether the LED comes up in the load: the answers to the three requests of \<open>blink_init\<close>.\<close>

definition led_up :: "kenv \<Rightarrow> bool" where
  "led_up E \<longleftrightarrow> blink_comes_up E (klog (exec (temp_init E) hw_statics))"

lemma temp_owned_no_thread: "R_thread t \<notin># temp_owned w"
  by (simp add: temp_owned_def)

lemma hw_exit_resources:
  assumes "res_state (kcalls s) = Some (if up then hw_owned s else temp_owned (rworld (sworld s)))"
  shows "res_state (kcalls (exec (in_hw (temp_exit E)) (exec (in_hw (blink_exit E)) s))) = (if up then Some {#} else None)"
proof -
  let ?w = "rworld (sworld s)"
  have same: "temp_owned (exec (blink_exit E) ?w) = temp_owned ?w" by (simp add: temp_owned_def)
  show ?thesis
  proof (cases up)
    case True
    then have "res_state (klog ?w) = Some (temp_owned ?w + blink_owned ?w)"
      using assms by (simp add: kcalls_def hw_owned_def)
    then have "res_state (klog (exec (blink_exit E) ?w)) = Some ({#} + temp_owned (exec (blink_exit E) ?w))"
      by (simp add: blink_exit_resources same)
    from temp_exit_resources(1) [OF this] True show ?thesis by (simp add: kcalls_def)
  next
    case False
    then have "res_state (klog (exec (blink_exit E) ?w)) = None"
      using assms by (intro blink_exit_without_thread [OF _ temp_owned_no_thread]) (simp add: kcalls_def)
    with False show ?thesis by (simp add: kcalls_def temp_exit_def run_simps)
  qed
qed

definition hw_up :: "kenv \<Rightarrow> kernel" where
  "hw_up E = exec (in_hw (blink_init E)) (exec (in_hw (temp_init E)) kernel_statics)"

lemma hw_up_resources:
  "res_state (kcalls (hw_up E)) =
    Some (if led_up E then hw_owned (hw_up E) else temp_owned (rworld (sworld (hw_up E))))"
proof -
  let ?w = "exec (temp_init E) hw_statics"
  have "res_state (klog ?w) = Some (temp_owned ?w)"
    using temp_init_resources [of hw_statics "{#}" E] by (simp add: hw_statics_def res_state_def)
  from blink_init_resources [OF this] show ?thesis
    by (simp add: led_up_def hw_up_def kcalls_def hw_owned_def temp_owned_def kernel_statics_def regulator_statics_def)
qed

lemma module_init_run:
  "result (temp_regulator_init E) kernel_statics =
     (if result (temp_init E) hw_statics \<noteq> 0 then result (temp_init E) hw_statics
      else result (regulator_init (kapi E) (Some (module_cbs E))) (hw_up E))"
  "exec (temp_regulator_init E) kernel_statics =
     (if result (temp_init E) hw_statics \<noteq> 0 then exec (in_hw (temp_init E)) kernel_statics
      else let s = exec (regulator_init (kapi E) (Some (module_cbs E))) (hw_up E)
        in if result (regulator_init (kapi E) (Some (module_cbs E))) (hw_up E) = 0 then s
           else exec (in_hw (temp_exit E)) (exec (in_hw (blink_exit E)) s))"
proof -
  have r: "result (in_hw (temp_init E)) kernel_statics = result (temp_init E) hw_statics"
    by (simp add: kernel_statics_def regulator_statics_def)
  show "result (temp_regulator_init E) kernel_statics =
     (if result (temp_init E) hw_statics \<noteq> 0 then result (temp_init E) hw_statics
      else result (regulator_init (kapi E) (Some (module_cbs E))) (hw_up E))"
    by (simp add: temp_regulator_init_def path_simps r hw_up_def del: in_hw_simps)
  show "exec (temp_regulator_init E) kernel_statics =
     (if result (temp_init E) hw_statics \<noteq> 0 then exec (in_hw (temp_init E)) kernel_statics
      else let s = exec (regulator_init (kapi E) (Some (module_cbs E))) (hw_up E)
        in if result (regulator_init (kapi E) (Some (module_cbs E))) (hw_up E) = 0 then s
           else exec (in_hw (temp_exit E)) (exec (in_hw (blink_exit E)) s))"
    by (simp add: temp_regulator_init_def path_simps r hw_up_def Let_def del: in_hw_simps)
qed

lemma hw_up_views: "kmode (hw_up E) = 1" "kperiod (hw_up E) = 1000" "kblink (hw_up E) = 1000"
  by (simp_all add: hw_up_def kmode_def kperiod_def kblink_def kernel_statics_def regulator_statics_def)

lemma module_loaded:
  assumes "kenv_ok E" and "result (temp_regulator_init E) kernel_statics = 0"
  defines "s \<equiv> exec (temp_regulator_init E) kernel_statics"
  shows "kernel_inv E s" and "kmode s = 1" and "kperiod s = 1000"
    and "regulator_thread (sworld s) \<noteq> 0" and "sysfs_class s \<noteq> 0" and "sysfs_device s \<noteq> 0"
    and "res_state (kcalls (hw_up E)) = Some R \<Longrightarrow> res_state (kcalls s) =
      Some (R + files_owned s + {#R_thread (regulator_thread (sworld s))#})"
    and "core s = core (hw_up E)"
proof -
  let ?m = "regulator_init (kapi E) (Some (module_cbs E)) :: (kernel, int) state"
  have ok: "result (temp_init E) hw_statics = 0" "result ?m (hw_up E) = 0"
    using assms(2) by (auto simp: module_init_run split: if_splits)
  then have s: "s = exec ?m (hw_up E)" by (simp add: s_def module_init_run Let_def)
  show core: "core s = core (hw_up E)" unfolding s by (rule regulator_init_core)
  have views: "kmode s = 1" "kperiod s = 1000" "kblink s = 1000"
    unfolding s using core_views [OF regulator_init_core] by (simp_all add: hw_up_views)
  note up = regulator_init_up [OF assms(1) ok(2), folded s]
  show "kernel_inv E s" using up views by (simp add: kernel_inv_iff)
  show "kmode s = 1" "kperiod s = 1000" by fact+
  show "regulator_thread (sworld s) \<noteq> 0" "sysfs_class s \<noteq> 0" "sysfs_device s \<noteq> 0" by fact+
  show "res_state (kcalls s) =
      Some (R + files_owned s + {#R_thread (regulator_thread (sworld s))#})"
    if "res_state (kcalls (hw_up E)) = Some R"
    using regulator_init_resources [OF assms(1) that, of "module_cbs E"] ok(2)
    by (simp flip: s)
qed

lemma module_load_failed:
  assumes "kenv_ok E" and "result (temp_regulator_init E) kernel_statics \<noteq> 0"
  shows "res_state (kcalls (exec (temp_regulator_init E) kernel_statics)) =
    (if result (temp_init E) hw_statics \<noteq> 0 \<or> led_up E then Some {#} else None)"
proof (cases "result (temp_init E) hw_statics = 0")
  case True
  let ?m = "regulator_init (kapi E) (Some (module_cbs E)) :: (kernel, int) state"
  have "result ?m (hw_up E) \<noteq> 0" using True assms(2) by (simp add: module_init_run)
  then have "res_state (kcalls (exec ?m (hw_up E))) =
      Some (if led_up E then hw_owned (exec ?m (hw_up E)) else temp_owned (rworld (sworld (exec ?m (hw_up E)))))"
    using regulator_init_resources [OF assms(1) hw_up_resources, of "module_cbs E"]
    by (simp add: core_views [OF regulator_init_core])
  from hw_exit_resources [OF this] \<open>result ?m (hw_up E) \<noteq> 0\<close> True show ?thesis
    by (simp add: module_init_run Let_def)
next
  case False
  have "res_state (klog (exec (temp_init E) hw_statics)) = Some (temp_owned (exec (temp_init E) hw_statics))"
    using temp_init_resources [of hw_statics "{#}" E] by (simp add: hw_statics_def res_state_def)
  with False show ?thesis
    by (simp add: module_init_run kcalls_in_hw temp_init_failed) (simp add: kcalls_def kernel_statics_def regulator_statics_def)
qed

lemma regulator_exit_run:
  fixes s :: kernel
  assumes "regulator_thread (sworld s) \<noteq> 0"
  shows "exec (regulator_exit (kapi E)) s = exec (temp_regulator_sysfs_exit (rcall (kapi E)))
    (exec (in_reg (modify (\<lambda>r. r\<lparr>regulator_thread := 0\<rparr>)))
      (exec (kcall_s E (Kthread_stop (regulator_thread (sworld s)))) s))"
  using assms
  by (simp add: regulator_exit_def path_simps in_reg_views del: scall_simps) (simp add: in_reg_def)

lemma regulator_exit_core: "core (exec (regulator_exit (kapi E)) s) = core s"
proof (cases "regulator_thread (sworld s) = 0")
  case True
  then show ?thesis by (simp add: regulator_exit_def path_simps in_reg_def del: in_sworld_simps)
      (simp add: in_sworld_simps)
next
  case False
  then show ?thesis by (simp add: regulator_exit_run del: scall_simps)
qed

lemma regulator_exit_resources:
  fixes s :: kernel
  assumes "res_state (kcalls s) = Some (R + files_owned s + {#R_thread (regulator_thread (sworld s))#})"
    and "regulator_thread (sworld s) \<noteq> 0" and "sysfs_class s \<noteq> 0" and "sysfs_device s \<noteq> 0"
  shows "res_state (kcalls (exec (regulator_exit (kapi E)) s)) = Some R"
proof -
  define t where "t = regulator_thread (sworld s)"
  define s1 where "s1 = exec (in_reg (modify (\<lambda>r. r\<lparr>regulator_thread := 0\<rparr>))) (exec (kcall_s E (Kthread_stop t)) s)"
  have s1: "sysfs_class s1 = sysfs_class s" "sysfs_device s1 = sysfs_device s"
    "kcalls s1 = kcalls s @ [(Kthread_stop t, kret E (kcalls s) (Kthread_stop t))]"
    by (simp_all add: s1_def in_reg_views kcall_s_views del: scall_simps)
  have "res_state (kcalls s1) = Some (files_owned s1 + R)"
    using assms(1) by (simp add: s1 files_owned_def add.commute flip: t_def)
  then have "res_state (kcalls (exec (temp_regulator_sysfs_exit (rcall (kapi E))) s1)) = Some R"
    using assms(3,4) by (intro sysfs_exit_resources) (simp_all add: s1)
  then show ?thesis
    unfolding regulator_exit_run [OF assms(2)] s1_def t_def .
qed

lemma module_exit_run:
  "exec (temp_regulator_exit E) s =
     exec (in_hw (temp_exit E)) (exec (in_hw (blink_exit E)) (exec (regulator_exit (kapi E)) s))"
  by (simp add: temp_regulator_exit_def exec_bind)

text \<open>
  \<open>blink_init\<close> is \<open>void\<close>: without the LED the load still succeeds, and unloading then stops a thread
  that does not run.
\<close>

lemma module_unload:
  assumes "kenv_ok E" and "result (temp_regulator_init E) kernel_statics = 0"
  shows "res_state (kcalls (exec (temp_regulator_exit E) (exec (temp_regulator_init E) kernel_statics))) =
    (if led_up E then Some {#} else None)"
proof -
  define s where "s = exec (temp_regulator_init E) kernel_statics"
  define s1 where "s1 = exec (regulator_exit (kapi E)) s"
  note up = module_loaded [OF assms, folded s_def]
  have core: "core s1 = core (hw_up E)" using up(8) by (simp add: s1_def regulator_exit_core)
  have "res_state (kcalls s1) = Some (if led_up E then hw_owned (hw_up E) else temp_owned (rworld (sworld (hw_up E))))"
    unfolding s1_def using up hw_up_resources by (intro regulator_exit_resources) simp_all
  then have "res_state (kcalls s1) = Some (if led_up E then hw_owned s1 else temp_owned (rworld (sworld s1)))"
    using core_views [OF core] by simp
  from hw_exit_resources [OF this] show ?thesis by (simp add: module_exit_run flip: s_def s1_def)
qed

end
