(* ===== verification/KRun.thy ===== *)
theory KRun
  imports KModule
begin

section \<open>The loaded module at run time\<close>

text \<open>
  The interleavings of the regulator thread, the blink thread and the reads and writes of
  the files, as a step relation. A step is what one thread does from one release of its locks
  to the next: the sections under \<open>regulator_lock\<close> and the handlers under
  \<open>sysfs_lock\<close> each change the shared state once. The regulator thread decides in one
  section and applies in another, so that steps of others may fall in between. Lemmas: the
  invariant of \<open>KModule\<close> and the lock discipline in every reachable state, what stays
  fixed in manual mode, and the window between decision and application.
\<close>

record config =
  kern :: kernel
  phase :: phase
  led :: bool

datatype kact =
    Thread
  | Blink_pass
  | Show attr
  | Store attr string nat

text \<open>One step of the regulator thread.\<close>

definition thread_section :: "kenv \<Rightarrow> phase \<Rightarrow> (kernel, phase) state" where
  "thread_section E p = in_reg (regulator_section (kapi E) p)"

inductive kstep :: "kenv \<Rightarrow> config \<Rightarrow> kact \<Rightarrow> config \<Rightarrow> bool" for E where
  step_thread: "phase c \<noteq> Stopped \<Longrightarrow>
    kstep E c Thread (c\<lparr>kern := exec (thread_section E (phase c)) (kern c),
      phase := result (thread_section E (phase c)) (kern c)\<rparr>)"
| step_blink: "kstep E c Blink_pass (c\<lparr>kern := exec (in_hw (blink_body E (led c))) (kern c),
      led := result (in_hw (blink_body E (led c))) (kern c)\<rparr>)"
| step_show: "attr_show E (rcall (kapi E)) a = Some h \<Longrightarrow>
    kstep E c (Show a) (c\<lparr>kern := exec h (kern c)\<rparr>)"
| step_store: "attr_store E (rcall (kapi E)) a = Some h \<Longrightarrow>
    kstep E c (Store a buf n) (c\<lparr>kern := exec (h buf n) (kern c)\<rparr>)"

inductive ksteps :: "kenv \<Rightarrow> config \<Rightarrow> kact list \<Rightarrow> config \<Rightarrow> bool" for E where
  ksteps_Nil: "ksteps E c [] c"
| ksteps_Cons: "kstep E c a c' \<Longrightarrow> ksteps E c' tr c'' \<Longrightarrow> ksteps E c (a # tr) c''"

inductive_simps kstep_thread [simp]: "kstep E c Thread c'"
inductive_simps kstep_blink [simp]: "kstep E c Blink_pass c'"
inductive_simps kstep_show: "kstep E c (Show a) c'"
inductive_simps kstep_store: "kstep E c (Store a buf n) c'"
inductive_simps ksteps_Nil_iff [simp]: "ksteps E c [] c'"
inductive_simps ksteps_Cons_iff: "ksteps E c (a # tr) c'"
inductive_cases kstepE: "kstep E c a c'"

text \<open>The configuration right after a load.\<close>

definition loaded :: "kenv \<Rightarrow> config" where
  "loaded E = \<lparr>kern = exec (temp_regulator_init E) kernel_statics, phase = Check, led = False\<rparr>"

definition reachable :: "kenv \<Rightarrow> config \<Rightarrow> bool" where
  "reachable E c \<longleftrightarrow> (\<exists>tr. ksteps E (loaded E) tr c)"

subsection \<open>The effect of each section\<close>

text \<open>What a step may do to the three observables, and the invariant it keeps.\<close>

abbreviation klocks :: "kernel \<Rightarrow> klock list option" where
  "klocks s \<equiv> lock_state (kcalls s)"

definition good :: "kenv \<Rightarrow> config \<Rightarrow> bool" where
  "good E c \<longleftrightarrow> kernel_inv E (kern c) \<and> klocks (kern c) = Some [] \<and>
     (\<forall>n. phase c = Apply n \<longrightarrow> n \<in> {500, 200, 100, 50})"

lemma kernel_inv_reg:
  "kernel_inv E s \<longleftrightarrow> device_cbs s = sysfs_cbs (kapi E) \<and>
     reg_inv (hw_table adjust_period (read_temp E)) blink_period_ms (sworld s)"
  by (simp add: kernel_inv_def registered_def module_cbs_table)

lemma in_reg_run [simp]:
  "result (in_reg m) s = result m (sworld s)" "exec (in_reg m) s = s\<lparr>sworld := exec m (sworld s)\<rparr>"
  by (simp_all add: in_reg_def)

lemma kcalls_sworld [simp]: "kcalls (s\<lparr>sworld := r\<rparr>) = klog (rworld r)"
  by (simp add: kcalls_def)

lemma views_sworld [simp]:
  "kmode (s\<lparr>sworld := r\<rparr>) = current_mode r" "kperiod (s\<lparr>sworld := r\<rparr>) = current_period r"
  by (simp_all add: kmode_def kperiod_def)

lemma kernel_inv_sworld [simp]: "kernel_inv E s \<Longrightarrow> kernel_inv E (s\<lparr>sworld := r\<rparr>) =
    reg_inv (hw_table adjust_period (read_temp E)) blink_period_ms r"
  by (simp add: kernel_inv_reg)

lemma reg_inv_D: "kernel_inv E s \<Longrightarrow> reg_inv (hw_table adjust_period (read_temp E)) blink_period_ms (sworld s)"
  by (simp add: kernel_inv_reg)

lemma inv_table: "kernel_inv E s \<Longrightarrow> regulator_cbs (sworld s) = hw_table adjust_period (read_temp E)"
  by (simp add: kernel_inv_reg reg_inv_def)

text \<open>The period that the sensor calls for when it is read in state \<open>s\<close>.\<close>

definition called_for :: "kenv \<Rightarrow> kernel \<Rightarrow> u32" where
  "called_for E s = auto_period (result (read_temp E) (rworld (sworld s)) div 1000)"

lemma thread_section_effect:
  assumes "kernel_inv E s" and "\<forall>n. p = Apply n \<longrightarrow> 0 < n"
  shows "kernel_inv E (exec (thread_section E p) s)"
    and "kmode (exec (thread_section E p) s) = kmode s"
    and "kperiod (exec (thread_section E p) s) = (case p of Apply n \<Rightarrow> n | _ \<Rightarrow> kperiod s)"
  using assms(1) khw.section_effect [OF reg_inv_D [OF assms(1)] assms(2)]
  by (simp_all add: thread_section_def kmode_def kperiod_def split: phase.split)

lemma thread_section_phase:
  assumes "kernel_inv E s"
  shows "result (thread_section E p) s = (case p of
       Check \<Rightarrow> if kret E (kcalls s) Kthread_should_stop \<noteq> 0 then Stopped else Read
     | Read \<Rightarrow> if kmode s = 1 then Decide else Sleep
     | Decide \<Rightarrow> Apply (called_for E s)
     | Apply n \<Rightarrow> Sleep
     | Sleep \<Rightarrow> Check
     | Stopped \<Rightarrow> Stopped)"
  using khw.section_phase [OF reg_inv_D [OF assms]]
  by (simp add: thread_section_def kmode_def kcalls_def called_for_def split: phase.split)

lemma thread_section_locks:
  assumes "kernel_inv E s" and "klocks s = Some []"
  shows "klocks (exec (thread_section E p) s) = Some []"
  using khw.section_locked [OF inv_table [OF assms(1)], where hs = "[]"] assms(2)
  by (simp add: thread_section_def) (simp add: kcalls_def)

text \<open>The files.\<close>

lemma kernel_inv_registered:
  "kernel_inv E s \<longleftrightarrow> registered (full_table (cb_get_temperature (kapi E)) (cb_get_mode (kapi E))
     (cb_set_mode (kapi E)) (cb_get_period (kapi E)) (cb_set_period (kapi E)))
     (reg_inv (hw_table adjust_period (read_temp E)) blink_period_ms) s"
  by (simp add: kernel_inv_def sysfs_cbs_table module_cbs_table)

lemma show_effect:
  assumes "kernel_inv E s" and "attr_show E (rcall (kapi E)) a = Some h"
  shows "kernel_inv E (exec h s)" and "kmode (exec h s) = kmode s" and "kperiod (exec h s) = kperiod s"
  using assms khw.prov.show_frame [OF assms(1) [unfolded kernel_inv_registered], of E]
  by (cases a; auto simp: kernel_inv_registered kmode_def kperiod_def)+

text \<open>What a write does, as a function of the contents of the files.\<close>

fun store_meaning :: "kenv \<Rightarrow> attr \<Rightarrow> string \<Rightarrow> i32 \<times> u32 \<Rightarrow> i32 \<times> u32" where
  "store_meaning E Mode buf (m, p) = (case kstrtoint E buf of
       None \<Rightarrow> (m, p)
     | Some v \<Rightarrow> if v = 0 \<or> v = 1 then (v, p) else (m, p))"
| "store_meaning E Period_set buf (m, p) = (case kstrtouint E buf of
       None \<Rightarrow> (m, p)
     | Some v \<Rightarrow> if m = 0 \<and> 0 < v then (m, v) else (m, p))"
| "store_meaning E a buf (m, p) = (m, p)"

lemma store_effect:
  assumes "kernel_inv E s" and "attr_store E (rcall (kapi E)) a = Some h"
  shows "kernel_inv E (exec (h buf n) s)"
    and "(kmode (exec (h buf n) s), kperiod (exec (h buf n) s)) = store_meaning E a buf (kmode s, kperiod s)"
  using assms khw.prov.mode_store_effect [OF assms(1) [unfolded kernel_inv_registered], of E buf n]
    khw.prov.period_set_store_effect [OF assms(1) [unfolded kernel_inv_registered], of E buf n]
  by (cases a; auto simp: kernel_inv_registered kmode_def kperiod_def split: option.split)+

lemma file_locks:
  assumes "kernel_inv E s" and "klocks s = Some []"
  shows "attr_show E (rcall (kapi E)) a = Some h \<Longrightarrow> klocks (exec h s) = Some []"
    and "attr_store E (rcall (kapi E)) a = Some g \<Longrightarrow> klocks (exec (g buf n) s) = Some []"
proof -
  have L: "(if regulator_cbs (sworld s) = hw_table adjust_period (read_temp E)
      then lock_state (klog (rworld (sworld s))) else None) = Some []"
    using assms by (simp add: inv_table kcalls_def)
  note all = khw.prov.handlers_locked [OF assms(1) [unfolded kernel_inv_registered] L]
  show "attr_show E (rcall (kapi E)) a = Some h \<Longrightarrow> klocks (exec h s) = Some []"
    using all(1) [of E] all(2) [of E] all(4) [of E] by (cases a; auto simp: kcalls_def split: if_splits)
  show "attr_store E (rcall (kapi E)) a = Some g \<Longrightarrow> klocks (exec (g buf n) s) = Some []"
    using all(3) [of E buf n] all(5) [of E buf n] by (cases a; auto simp: kcalls_def split: if_splits)
qed

text \<open>The blink thread.\<close>

lemma blink_pass_effect:
  assumes "kernel_inv E s"
  shows "kernel_inv E (exec (in_hw (blink_body E b)) s)"
    and "kmode (exec (in_hw (blink_body E b)) s) = kmode s"
    and "kperiod (exec (in_hw (blink_body E b)) s) = kperiod s"
    and "klocks s = Some [] \<Longrightarrow> klocks (exec (in_hw (blink_body E b)) s) = Some []"
    and "sleeps (kcalls (exec (in_hw (blink_body E b)) s)) = sleeps (kcalls s) @ [blink_delay (kperiod s)]"
proof -
  show "kernel_inv E (exec (in_hw (blink_body E b)) s)"
    using assms by (simp add: kernel_inv_reg reg_inv_def blink_body_run)
  show "kmode (exec (in_hw (blink_body E b)) s) = kmode s"
    "kperiod (exec (in_hw (blink_body E b)) s) = kperiod s"
    by simp_all (simp_all add: kmode_def kperiod_def)
  show "klocks s = Some [] \<Longrightarrow> klocks (exec (in_hw (blink_body E b)) s) = Some []"
    by (simp add: kcalls_in_hw blink_body_def run_simps kcalls_def)
  have "blink_period_ms (rworld (sworld s)) = kperiod s"
    using assms by (simp add: kernel_inv_reg reg_inv_def kperiod_def)
  then show "sleeps (kcalls (exec (in_hw (blink_body E b)) s)) = sleeps (kcalls s) @ [blink_delay (kperiod s)]"
    by (simp add: kcalls_in_hw blink_body_run kcalls_def)
qed

subsection \<open>Every reachable state\<close>

lemma good_step:
  assumes "kstep E c a c'" and "good E c"
  shows "good E c'"
  using assms(1)
proof cases
  case step_thread
  have inv: "kernel_inv E (kern c)" "klocks (kern c) = Some []"
    and n: "\<forall>n. phase c = Apply n \<longrightarrow> n \<in> {500, 200, 100, 50}"
    using assms(2) by (simp_all add: good_def)
  have "\<forall>n. phase c = Apply n \<longrightarrow> 0 < n" using n by auto
  then show ?thesis
    using step_thread inv auto_period_cases
    by (auto simp: good_def thread_section_effect thread_section_locks thread_section_phase
        called_for_def split: phase.splits)
next
  case step_blink
  with assms(2) show ?thesis by (simp add: good_def blink_pass_effect del: in_hw_simps)
next
  case (step_show t h)
  with assms(2) show ?thesis by (auto simp: good_def show_effect file_locks)
next
  case (step_store t h)
  with assms(2) show ?thesis by (auto simp: good_def store_effect file_locks)
qed

lemma good_steps: "ksteps E c tr c' \<Longrightarrow> good E c \<Longrightarrow> good E c'"
  by (induction rule: ksteps.induct) (auto intro: good_step)

lemma ksteps_append: "ksteps E c (xs @ ys) c'' \<longleftrightarrow> (\<exists>c'. ksteps E c xs c' \<and> ksteps E c' ys c'')"
  by (induction xs arbitrary: c) (auto simp: ksteps_Cons_iff)

lemma sysfs_init_locks:
  fixes s :: kernel
  assumes "klocks s = Some []"
  shows "klocks (exec (temp_regulator_sysfs_init (rcall (kapi E)) (Some c)) s) = Some []"
  using assms by (simp add: temp_regulator_sysfs_init_def path_simps del: scall_simps)

lemma hw_up_locks: "klocks (hw_up E) = Some []"
proof -
  have "lock_state (klog (exec (temp_init E) hw_statics)) = Some []"
    by (rule temp_init_locks) (simp_all add: hw_statics_def lock_state_def)
  then show ?thesis
    by (simp add: hw_up_def kcalls_def kernel_statics_def regulator_statics_def)
qed

lemma load_locks:
  assumes "result (temp_regulator_init E) kernel_statics = 0"
  shows "klocks (exec (temp_regulator_init E) kernel_statics) = Some []"
proof -
  let ?s1 = "exec (in_reg (modify (\<lambda>r. r\<lparr>regulator_cbs := module_cbs E\<rparr>))) (hw_up E)"
  let ?s2 = "exec (temp_regulator_sysfs_init (rcall (kapi E)) (Some (sysfs_cbs (kapi E)))) ?s1"
  have "klocks ?s1 = Some []" using hw_up_locks by (simp add: kcalls_def)
  then have "klocks ?s2 = Some []" by (rule sysfs_init_locks)
  then show ?thesis
    using assms
    by (auto simp: module_init_run regulator_init_run Let_def in_reg_views kcall_s_views
        simp del: scall_simps in_reg_run split: if_splits)
qed

lemma loaded_good:
  assumes "kenv_ok E" and "result (temp_regulator_init E) kernel_statics = 0"
  shows "good E (loaded E)"
  using module_loaded(1) [OF assms] load_locks [OF assms(2)] by (simp add: good_def loaded_def)

lemma reachable_good:
  assumes "kenv_ok E" and "result (temp_regulator_init E) kernel_statics = 0" and "reachable E c"
  shows "good E c"
  using assms(3) good_steps [OF _ loaded_good [OF assms(1,2)]] by (auto simp: reachable_def)

subsection \<open>Manual mode\<close>

definition is_store :: "kact \<Rightarrow> bool" where
  "is_store a \<longleftrightarrow> (case a of Store _ _ _ \<Rightarrow> True | _ \<Rightarrow> False)"

text \<open>The thread is not between its reading of mode 1 and the application.\<close>

definition undecided :: "phase \<Rightarrow> bool" where
  "undecided p \<longleftrightarrow> p \<noteq> Decide \<and> (\<forall>n. p \<noteq> Apply n)"

lemma manual_step:
  assumes "kstep E c a c'" and "good E c" and "\<not> is_store a"
    and "kmode (kern c) = 0" and "undecided (phase c)"
  shows "kmode (kern c') = 0 \<and> kperiod (kern c') = kperiod (kern c) \<and> undecided (phase c')"
  using assms(1)
proof cases
  case step_thread
  have "\<forall>n. phase c = Apply n \<longrightarrow> 0 < n" using assms(5) by (auto simp: undecided_def)
  then show ?thesis
    using step_thread assms(2,4,5)
    by (auto simp: good_def thread_section_effect thread_section_phase undecided_def split: phase.splits)
next
  case step_blink
  with assms(2,4,5) show ?thesis by (simp add: good_def blink_pass_effect del: in_hw_simps)
next
  case (step_show t h)
  with assms(2,4,5) show ?thesis by (auto simp: good_def show_effect)
next
  case (step_store t h)
  with assms(3) show ?thesis by (simp add: is_store_def)
qed

lemma manual_steps:
  assumes "ksteps E c tr c'" and "good E c" and "\<forall>a \<in> set tr. \<not> is_store a"
    and "kmode (kern c) = 0" and "undecided (phase c)"
  shows "kmode (kern c') = 0 \<and> kperiod (kern c') = kperiod (kern c) \<and> undecided (phase c')"
  using assms
proof (induction rule: ksteps.induct)
  case (ksteps_Cons c a c' tr c'')
  have "good E c'" using good_step ksteps_Cons.hyps(1) ksteps_Cons.prems(1) .
  moreover have "kmode (kern c') = 0 \<and> kperiod (kern c') = kperiod (kern c) \<and> undecided (phase c')"
    using manual_step [OF ksteps_Cons.hyps(1) ksteps_Cons.prems(1)] ksteps_Cons.prems by simp
  ultimately show ?case using ksteps_Cons.IH ksteps_Cons.prems by simp
qed simp

subsection \<open>The window between decision and application\<close>

lemma phase_kern_updates [simp]:
  "phase (c\<lparr>kern := k\<rparr>) = phase c" "kern (c\<lparr>phase := p\<rparr>) = kern c"
  by simp_all

text \<open>Steps as functions, to build a run.\<close>

definition thread_next :: "kenv \<Rightarrow> config \<Rightarrow> config" where
  "thread_next E c = c\<lparr>kern := exec (thread_section E (phase c)) (kern c),
     phase := result (thread_section E (phase c)) (kern c)\<rparr>"

definition mode_next :: "kenv \<Rightarrow> string \<Rightarrow> nat \<Rightarrow> config \<Rightarrow> config" where
  "mode_next E buf n c = c\<lparr>kern := exec (mode_store E (rcall (kapi E)) buf n) (kern c)\<rparr>"

definition period_next :: "kenv \<Rightarrow> string \<Rightarrow> nat \<Rightarrow> config \<Rightarrow> config" where
  "period_next E buf n c = c\<lparr>kern := exec (period_set_store E (rcall (kapi E)) buf n) (kern c)\<rparr>"

lemma next_steps:
  "phase c \<noteq> Stopped \<Longrightarrow> kstep E c Thread (thread_next E c)"
  "kstep E c (Store Mode buf n) (mode_next E buf n c)"
  "kstep E c (Store Period_set buf n) (period_next E buf n c)"
  by (simp_all add: thread_next_def mode_next_def period_next_def kstep_store)

lemma next_views:
  assumes "good E c"
  shows "kmode (kern (thread_next E c)) = kmode (kern c)"
    and "phase (thread_next E c) = result (thread_section E (phase c)) (kern c)"
    and "kperiod (kern (thread_next E c)) = (case phase c of Apply n \<Rightarrow> n | _ \<Rightarrow> kperiod (kern c))"
    and "phase (mode_next E buf n c) = phase c"
    and "(kmode (kern (mode_next E buf n c)), kperiod (kern (mode_next E buf n c))) =
      store_meaning E Mode buf (kmode (kern c), kperiod (kern c))"
    and "phase (period_next E buf n c) = phase c"
    and "(kmode (kern (period_next E buf n c)), kperiod (kern (period_next E buf n c))) =
      store_meaning E Period_set buf (kmode (kern c), kperiod (kern c))"
proof -
  have inv: "kernel_inv E (kern c)" and pos: "\<forall>n. phase c = Apply n \<longrightarrow> 0 < n"
    using assms by (auto simp: good_def)
  show "kmode (kern (thread_next E c)) = kmode (kern c)"
    "phase (thread_next E c) = result (thread_section E (phase c)) (kern c)"
    "kperiod (kern (thread_next E c)) = (case phase c of Apply n \<Rightarrow> n | _ \<Rightarrow> kperiod (kern c))"
    using thread_section_effect [OF inv pos] by (simp_all add: thread_next_def)
  show "phase (mode_next E buf n c) = phase c" "phase (period_next E buf n c) = phase c"
    by (simp_all add: mode_next_def period_next_def)
  show "(kmode (kern (mode_next E buf n c)), kperiod (kern (mode_next E buf n c))) =
      store_meaning E Mode buf (kmode (kern c), kperiod (kern c))"
    using store_effect(2) [OF inv attr_store.simps(2), of buf n] by (simp add: mode_next_def)
  show "(kmode (kern (period_next E buf n c)), kperiod (kern (period_next E buf n c))) =
      store_meaning E Period_set buf (kmode (kern c), kperiod (kern c))"
    using store_effect(2) [OF inv attr_store.simps(4), of buf n] by (simp add: period_next_def)
qed

lemma decided_step:
  assumes "good E c" and "phase c = Read" and "kmode (kern c) = 1"
  defines "c2 \<equiv> thread_next E (thread_next E c)"
  shows "ksteps E c [Thread, Thread] c2" and "good E c2" and "kmode (kern c2) = 1"
    and "phase c2 = Apply (called_for E (kern (thread_next E c)))"
proof -
  let ?c1 = "thread_next E c"
  have inv: "kernel_inv E (kern c)" using assms(1) by (simp add: good_def)
  have p1: "phase ?c1 = Decide"
    using assms by (simp add: next_views thread_section_phase [OF inv])
  have s1: "kstep E c Thread ?c1" using assms(2) by (intro next_steps) simp
  have s2: "kstep E ?c1 Thread c2" unfolding c2_def using p1 by (intro next_steps) simp
  show "ksteps E c [Thread, Thread] c2" using s1 s2 by (auto simp only: ksteps_Cons_iff ksteps_Nil_iff)
  have g1: "good E ?c1" using good_step [OF s1 assms(1)] .
  show "good E c2" using good_step [OF s2 g1] .
  show "kmode (kern c2) = 1" using assms(3) by (simp add: c2_def next_views g1 assms(1))
  show "phase c2 = Apply (called_for E (kern ?c1))"
    using g1 p1 by (simp add: c2_def next_views [OF g1] thread_section_phase good_def)
qed

lemma lost_update:
  assumes "good E c" and "phase c = Read" and "kmode (kern c) = 1"
    and "kstrtoint E mbuf = Some 0" and "kstrtouint E pbuf = Some p" and "0 < p"
  shows "\<exists>c1 c2. ksteps E c [Thread, Thread, Store Mode mbuf m, Store Period_set pbuf n] c1 \<and>
    kmode (kern c1) = 0 \<and> kperiod (kern c1) = p \<and> kstep E c1 Thread c2 \<and>
    kmode (kern c2) = 0 \<and> kperiod (kern c2) = called_for E (kern (thread_next E c))"
proof -
  define d where "d = thread_next E (thread_next E c)"
  define a where "a = mode_next E mbuf m d"
  define b where "b = period_next E pbuf n a"
  note d = decided_step [OF assms(1-3), folded d_def]
  have sa: "kstep E d (Store Mode mbuf m) a" and sb: "kstep E a (Store Period_set pbuf n) b"
    unfolding a_def b_def by (rule next_steps)+
  have ga: "good E a" using good_step [OF sa d(2)] .
  have gb: "good E b" using good_step [OF sb ga] .
  have va: "kmode (kern a) = 0" "phase a = phase d"
    using next_views(4,5) [OF d(2), of mbuf m] assms(4) by (simp_all add: a_def)
  have vb: "kmode (kern b) = 0" "kperiod (kern b) = p" "phase b = phase d"
    using next_views(6,7) [OF ga, of pbuf n] va assms(5,6) by (simp_all add: b_def)
  have sc: "kstep E b Thread (thread_next E b)" using vb d(4) by (intro next_steps) simp
  have "ksteps E c ([Thread, Thread] @ [Store Mode mbuf m, Store Period_set pbuf n]) b"
    unfolding ksteps_append using d(1) ksteps_Cons [OF sa ksteps_Cons [OF sb ksteps_Nil]] by blast
  then show ?thesis
    using sc vb d(4) next_views(1,3) [OF gb]
    by (intro exI [of _ b] exI [of _ "thread_next E b"]) simp
qed

end
