(* ===== verification/KernelProperties.thy ===== *)
theory KernelProperties
  imports KRun
begin

section \<open>Properties of the kernel module\<close>

text \<open>
  The main theorems about \<open>src/06-mini-project/kernel\<close>, each over the lemmas of its
  component, with the witnesses that apply them in a concrete environment.
\<close>

subsection \<open>An environment for the witnesses\<close>

text \<open>Everything succeeds; the sensor reads \<open>raw\<close>; numbers parse as \<open>strtoul\<close> does.\<close>

definition demo_kenv :: "int \<Rightarrow> kenv" where
  "demo_kenv raw = \<lparr>kret = (\<lambda>_ c. case c of
       Class_create _ \<Rightarrow> 100 | Device_create _ _ _ \<Rightarrow> 200 | Kthread_run _ \<Rightarrow> 300
     | Ioremap _ _ \<Rightarrow> 400 | Request_mem_region _ _ _ \<Rightarrow> 500 | Ioread32 _ \<Rightarrow> raw | _ \<Rightarrow> 0),
     kstrtoint = (\<lambda>s. case scan_u32 s of None \<Rightarrow> None | Some v \<Rightarrow> if uint v < 2 ^ 31 then Some v else None),
     kstrtouint = scan_u32, PAGE_SIZE = 4096\<rparr>"

text \<open>The same, but the regulator's thread cannot be started, or the LED's pin is taken.\<close>

definition demo_no_thread :: kenv where
  "demo_no_thread = (demo_kenv 0)\<lparr>kret := (\<lambda>h c. if c = Kthread_run ''regulator_logic'' then - 12 else kret (demo_kenv 0) h c)\<rparr>"

definition demo_no_led :: kenv where
  "demo_no_led = (demo_kenv 0)\<lparr>kret := (\<lambda>h c. case c of Gpio_request _ _ \<Rightarrow> - 16 | _ \<Rightarrow> kret (demo_kenv 0) h c)\<rparr>"

lemma demo_kret [simp]:
  "kret (demo_kenv raw) h (Class_create nm) = 100" "kret (demo_kenv raw) h (Device_create p g nm) = 200"
  "kret (demo_kenv raw) h (Kthread_run nm) = 300" "kret (demo_kenv raw) h (Ioremap a n) = 400"
  "kret (demo_kenv raw) h (Request_mem_region a n nm) = 500" "kret (demo_kenv raw) h (Ioread32 p) = raw"
  "kret (demo_kenv raw) h (Mutex_lock l) = 0" "kret (demo_kenv raw) h (Mutex_unlock l) = 0"
  "kret (demo_kenv raw) h (Gpio_request g nm) = 0" "kret (demo_kenv raw) h (Gpio_direction_output g v) = 0"
  "kret (demo_kenv raw) h Kthread_should_stop = 0" "kret (demo_kenv raw) h (Sysfs_create_group p) = 0"
  by (simp_all add: demo_kenv_def)

lemma demo_kstr:
  "kstrtouint (demo_kenv raw) (fmt_u v @ nl) = Some v"
  "kstrtoint (demo_kenv raw) (fmt_u v @ nl) = (if uint v < 2 ^ 31 then Some v else None)"
  "PAGE_SIZE (demo_kenv raw) = 4096"
  by (simp_all add: demo_kenv_def scan_u32_fmt_u)

lemma demo_ok: "kenv_ok (demo_kenv raw)"
  by (simp add: kenv_ok_def)

lemma demo_led_up: "led_up (demo_kenv raw)" "led_up demo_no_thread" "\<not> led_up demo_no_led"
  by (simp_all add: led_up_def blink_comes_up_def IS_ERR_def demo_no_thread_def demo_no_led_def Let_def)

lemma demo_failing_ok: "kenv_ok demo_no_thread" "kenv_ok demo_no_led"
  by (simp_all add: demo_no_thread_def demo_no_led_def kenv_ok_def)

lemma load_result:
  assumes "result (temp_init E) hw_statics = 0"
    and "\<And>h nm. \<not> IS_ERR (kret E h (Class_create nm))" "\<And>h p g nm. \<not> IS_ERR (kret E h (Device_create p g nm))"
      "\<And>h p. kret E h (Sysfs_create_group p) = 0" "\<And>h nm. \<not> IS_ERR (kret E h (Kthread_run nm))"
  shows "result (temp_regulator_init E) kernel_statics = 0"
  using assms
  by (simp add: module_init_run regulator_init_run temp_regulator_sysfs_init_def path_simps
      del: scall_simps)

lemma demo_loads: "result (temp_regulator_init (demo_kenv raw)) kernel_statics = 0"
  by (rule load_result) (simp_all add: IS_ERR_def temp_init_def run_simps hw_statics_def)

lemma demo_no_led_loads: "result (temp_regulator_init demo_no_led) kernel_statics = 0"
  by (rule load_result) (simp_all add: demo_no_led_def IS_ERR_def temp_init_def run_simps hw_statics_def)

lemma demo_no_thread_fails: "result (temp_regulator_init demo_no_thread) kernel_statics \<noteq> 0"
  by (simp add: module_init_run regulator_init_run temp_regulator_sysfs_init_def path_simps
      demo_no_thread_def temp_init_def hw_statics_def run_simps IS_ERR_def del: scall_simps)

lemma demo_good: "good (demo_kenv raw) (loaded (demo_kenv raw))"
  by (rule loaded_good) (simp_all add: demo_ok demo_loads)

subsection \<open>The module at run time\<close>

text \<open>
  C1: whatever the threads and the users of the files do, in every state that the loaded
  module can reach the LED blinks with the period that the regulator reports, the mode is 0
  or 1, the period is positive, no lock is held between the steps and none was ever taken
  out of order.
\<close>

theorem led_blinks_with_reported_period:
  assumes "kenv_ok E" and "result (temp_regulator_init E) kernel_statics = 0" and "reachable E c"
  shows "kblink (kern c) = kperiod (kern c) \<and> (kmode (kern c) = 0 \<or> kmode (kern c) = 1) \<and>
    0 < kperiod (kern c) \<and> lock_state (kcalls (kern c)) = Some []"
  using reachable_good [OF assms] by (simp add: good_def kernel_inv_iff)

theorem led_blinks_with_reported_period_witness:
  "kblink (kern (loaded (demo_kenv 1280))) = kperiod (kern (loaded (demo_kenv 1280)))"
proof -
  have "reachable (demo_kenv 1280) (loaded (demo_kenv 1280))"
    unfolding reachable_def by (rule exI [of _ "[]"]) simp
  from led_blinks_with_reported_period [OF demo_ok demo_loads this] show ?thesis by blast
qed

text \<open>
  C4: in manual mode, once the regulator thread is not between its reading of mode 1 and
  the application of its decision, every run without writes to the files leaves mode and
  period as they are.
\<close>

theorem manual_setting_stays:
  assumes "good E c" and "kmode (kern c) = 0" and "undecided (phase c)"
    and "ksteps E c tr c'" and "\<forall>a \<in> set tr. \<not> is_store a"
  shows "kmode (kern c') = 0 \<and> kperiod (kern c') = kperiod (kern c)"
  using manual_steps [OF assms(4,1,5,2,3)] by blast

definition demo_manual :: config where
  "demo_manual = mode_next (demo_kenv 1280) (fmt_u 0 @ nl) 2 (loaded (demo_kenv 1280))"

lemma demo_manual_state:
  "good (demo_kenv 1280) demo_manual" "kmode (kern demo_manual) = 0" "phase demo_manual = Check"
proof -
  let ?E = "demo_kenv 1280"
  show "good ?E demo_manual"
    unfolding demo_manual_def using good_step [OF next_steps(2) demo_good] .
  have "kstrtoint ?E (fmt_u 0 @ nl) = Some 0" unfolding demo_kstr by simp
  then show "kmode (kern demo_manual) = 0"
    using next_views(5) [OF demo_good, of 1280 "fmt_u 0 @ nl" 2] by (simp add: demo_manual_def)
  show "phase demo_manual = Check" unfolding demo_manual_def next_views(4) [OF demo_good]
    by (simp add: loaded_def)
qed

theorem manual_setting_stays_witness:
  "\<exists>c'. ksteps (demo_kenv 1280) demo_manual [Thread, Blink_pass] c' \<and>
     kperiod (kern c') = kperiod (kern demo_manual)"
proof -
  obtain c' where steps: "ksteps (demo_kenv 1280) demo_manual [Thread, Blink_pass] c'"
    by (simp add: ksteps_Cons_iff demo_manual_state)
  have "undecided (phase demo_manual)" by (simp add: demo_manual_state undecided_def)
  from manual_setting_stays [OF demo_manual_state(1,2) this steps] steps show ?thesis
    by (auto simp: is_store_def)
qed

text \<open>
  C5: the regulator thread reads the mode and applies its decision in two separate critical
  sections, so a user who switches to manual mode and sets a period in between loses the
  setting: the thread overwrites it although the mode is already manual.
\<close>

theorem manual_setting_can_be_lost:
  assumes "good E c" and "phase c = Read" and "kmode (kern c) = 1"
    and "kstrtoint E mbuf = Some 0" and "kstrtouint E pbuf = Some p" and "p \<notin> {500, 200, 100, 50}" and "0 < p"
  shows "\<exists>c1 c2. ksteps E c [Thread, Thread, Store Mode mbuf m, Store Period_set pbuf n] c1 \<and>
    kmode (kern c1) = 0 \<and> kperiod (kern c1) = p \<and> kstep E c1 Thread c2 \<and>
    kmode (kern c2) = 0 \<and> kperiod (kern c2) \<noteq> p"
  using lost_update [OF assms(1-5,7)] assms(6) auto_period_cases
  unfolding called_for_def by metis

definition demo_read :: config where
  "demo_read = thread_next (demo_kenv 1280) (loaded (demo_kenv 1280))"

lemma demo_read_state:
  "good (demo_kenv 1280) demo_read" "phase demo_read = Read" "kmode (kern demo_read) = 1"
proof -
  let ?E = "demo_kenv 1280"
  have p: "phase (loaded ?E) = Check" by (simp add: loaded_def)
  have inv: "kernel_inv ?E (kern (loaded ?E))" using demo_good by (simp add: good_def)
  show "good ?E demo_read"
    unfolding demo_read_def using good_step [OF next_steps(1) demo_good] p by simp
  show "phase demo_read = Read"
    by (simp add: demo_read_def next_views [OF demo_good] p thread_section_phase [OF inv])
  show "kmode (kern demo_read) = 1"
    using module_loaded(2) [OF demo_ok demo_loads, of 1280]
    by (simp add: demo_read_def next_views [OF demo_good]) (simp add: loaded_def)
qed

theorem manual_setting_can_be_lost_witness:
  "\<exists>c1 c2. ksteps (demo_kenv 1280) demo_read [Thread, Thread, Store Mode (fmt_u 0 @ nl) 2,
      Store Period_set (fmt_u 300 @ nl) 4] c1 \<and>
    kmode (kern c1) = 0 \<and> kperiod (kern c1) = 300 \<and> kstep (demo_kenv 1280) c1 Thread c2 \<and>
    kmode (kern c2) = 0 \<and> kperiod (kern c2) \<noteq> 300"
proof -
  have "kstrtoint (demo_kenv 1280) (fmt_u 0 @ nl) = Some 0"
    "kstrtouint (demo_kenv 1280) (fmt_u 300 @ nl) = Some 300"
    unfolding demo_kstr by simp_all
  from manual_setting_can_be_lost [OF demo_read_state this] show ?thesis by simp
qed

lemma auto_period_milli:
  "auto_period (t div 1000) =
    (if uint t < 35000 then 500 else if uint t < 40000 then 200 else if uint t < 45000 then 100 else 50)"
proof -
  have d: "k div 1000 < c \<longleftrightarrow> k < 1000 * c" for k c :: int by linarith
  have "t div 1000 < c \<longleftrightarrow> uint t < 1000 * uint c" for c :: u32
    unfolding word_less_def uint_div by (simp only: uint_numeral d) (simp add: d)
  from this [of 35] this [of 40] this [of 45] show ?thesis by (simp add: auto_period_def)
qed

text \<open>
  C7: one pass of the regulator thread in automatic mode, undisturbed: the four sections
  bring the thread back to the start of its loop and leave the mode. With the temperature that was read, in
  thousandths of a degree and as an unsigned number, the period is then 500 ms below 35 degrees, 200 ms below
  40, 100 ms below 45 and 50 ms from there on; it is the one reported and the one the LED blinks with.
\<close>

theorem auto_pass_sets_period:
  assumes "kernel_inv E s" and "kmode s = 1"
  defines "s' \<equiv> exec (in_reg (regulator_sections (kapi E) 4 Read)) s"
    and "milli \<equiv> uint (result (read_temp E) (rworld (exec (regulator_read_mode (kapi E)) (sworld s))))"
  shows "result (in_reg (regulator_sections (kapi E) 4 Read)) s = Check \<and> kernel_inv E s' \<and> kmode s' = 1 \<and>
    kperiod s' = (if milli < 35000 then 500 else if milli < 40000 then 200 else if milli < 45000 then 100 else 50) \<and>
    kblink s' = kperiod s'"
proof -
  note inv = reg_inv_D [OF assms(1)]
  have m: "current_mode (sworld s) = 1" using assms(2) by (simp add: kmode_def)
  note body = khw.regulator_body_effect [OF inv] khw.body_as_sections [OF inv]
  have run: "exec (regulator_sections (kapi E) 4 Read) (sworld s) = exec (regulator_body (kapi E)) (sworld s)"
    "result (regulator_sections (kapi E) 4 Read) (sworld s) = Check"
    using body(5,6) m by simp_all
  have "kperiod s' = auto_period (result (read_temp E) (rworld (exec (regulator_read_mode (kapi E)) (sworld s))) div 1000)"
    using body(4) m run(1) by (simp add: s'_def)
  moreover have "kernel_inv E s'" using body(1,2) run(1) assms(1) by (simp add: s'_def)
  ultimately show ?thesis
    using body(1,2) m run by (simp add: s'_def kernel_inv_iff auto_period_milli milli_def)
qed

lemma demo_loaded: "kernel_inv (demo_kenv raw) (exec (temp_regulator_init (demo_kenv raw)) kernel_statics)"
  "kmode (exec (temp_regulator_init (demo_kenv raw)) kernel_statics) = 1"
  using module_loaded(1,2) [OF demo_ok demo_loads] by simp_all

theorem auto_pass_sets_period_witness:
  "result (in_reg (regulator_sections (kapi (demo_kenv 1280)) 4 Read))
     (exec (temp_regulator_init (demo_kenv 1280)) kernel_statics) = Check"
  using auto_pass_sets_period [OF demo_loaded] by blast

subsection \<open>The files\<close>

text \<open>
  C3: every write to any file of the module has the meaning of the abstract specification
  \<open>store_meaning\<close> on mode and period, parse errors and refused values included, keeps the
  invariant, and reports the whole text as consumed.
\<close>

theorem file_write_refines_meaning:
  assumes "kernel_inv E s" and "attr_store E (rcall (kapi E)) a = Some h"
  shows "(kmode (exec (h buf n) s), kperiod (exec (h buf n) s)) = store_meaning E a buf (kmode s, kperiod s) \<and>
    kernel_inv E (exec (h buf n) s) \<and> result (h buf n) s = n"
proof -
  have "result (h buf n) s = n"
    using assms(2) khw.prov.mode_store_result khw.prov.period_set_store_result by (cases a) auto
  then show ?thesis using store_effect [OF assms, of buf n] by simp
qed

theorem file_write_refines_meaning_witness:
  "kmode (exec (mode_store (demo_kenv 0) (rcall (kapi (demo_kenv 0))) (fmt_u 0 @ nl) 2)
    (exec (temp_regulator_init (demo_kenv 0)) kernel_statics)) = 0"
  using file_write_refines_meaning [OF demo_loaded(1) attr_store.simps(2), of 0 "fmt_u 0 @ nl" 2]
  by (simp add: demo_kstr)

text \<open>
  C14: what is read from the mode file after a write of an accepted mode is that mode, whatever the mode
  was before; what is read from the status file after a write of a positive period is that period in manual
  mode, and the period from before in automatic mode.
\<close>

theorem file_write_read:
  assumes "kernel_inv E s" and "32 \<le> PAGE_SIZE E"
    and "kstrtoint E mbuf = Some m" and "m = 0 \<or> m = 1"
    and "kstrtouint E pbuf = Some p" and "0 < p"
  shows "result (mode_show E (rcall (kapi E))) (exec (mode_store E (rcall (kapi E)) mbuf k) s) =
      (fmt_d m @ nl, length (fmt_d m @ nl)) \<and>
    result (period_status_show E (rcall (kapi E))) (exec (period_set_store E (rcall (kapi E)) pbuf k) s) =
      (let q = (if kmode s = 0 then p else kperiod s) in (fmt_u q @ nl, length (fmt_u q @ nl)))"
proof -
  note reg = assms(1) [unfolded kernel_inv_registered]
  have lens: "length (fmt_d m @ nl) < PAGE_SIZE E" "length (fmt_u q @ nl) < PAGE_SIZE E" for q
    using length_fmt_d [of m] length_fmt_u [of q] assms(2) by simp_all
  note st = khw.prov.period_set_store_effect [OF reg, of E pbuf k]
  show ?thesis
    using khw.prov.mode_store_show [OF reg assms(3,4), of k] lens st assms(5,6)
    by (simp add: khw.prov.period_status_show_value snprintf_fits kmode_def kperiod_def Let_def)
qed

theorem file_write_read_witness:
  "fst (result (period_status_show (demo_kenv 1280) (rcall (kapi (demo_kenv 1280))))
     (exec (period_set_store (demo_kenv 1280) (rcall (kapi (demo_kenv 1280))) (fmt_u 300 @ nl) 4)
       (kern demo_manual))) = fmt_u 300 @ nl"
proof -
  have inv: "kernel_inv (demo_kenv 1280) (kern demo_manual)"
    using demo_manual_state(1) by (simp add: good_def)
  have "kstrtoint (demo_kenv 1280) (fmt_u 1 @ nl) = Some 1" unfolding demo_kstr by simp
  from file_write_read [OF inv _ this _ demo_kstr(1), of 300 4] show ?thesis
    by (simp add: demo_kstr demo_manual_state)
qed

subsection \<open>The sensor\<close>

lemma read_temp_value:
  assumes "temp_reg s \<noteq> 0" and "\<forall>h p. kret E h (Ioread32 p) = raw"
  shows "result (read_temp E) s = temperature_of_raw (word_of_int raw)"
  using assms by (simp add: read_temp_def run_simps)

text \<open>
  C12: for every reading of the 12-bit sensor the two lines of 32-bit arithmetic give the
  data sheet's value in thousandths of a degree, truncated, without overflow.
\<close>

theorem sensor_value_exact:
  assumes "temp_reg s \<noteq> 0" and "\<forall>h p. kret E h (Ioread32 p) = raw" and "0 \<le> raw" and "raw \<le> 0xFFF"
  shows "sint (result (read_temp E) s) =
    (if 0x500 < raw then 223000 - (1191 * raw) div 10 else 259000 - (1452 * raw) div 10)"
proof -
  have u: "uint (word_of_int raw :: u32) = raw" using assms(3,4) by (intro uint_of_small) simp_all
  then have "(word_of_int raw :: u32) \<le> 0xFFF" using assms(4) by (simp add: word_le_def)
  from temperature_of_raw_exact [OF this] show ?thesis
    by (simp only: read_temp_value [OF assms(1,2)] u)
qed

theorem sensor_value_exact_witness:
  "sint (result (read_temp (demo_kenv 0x500)) (hw_statics\<lparr>temp_reg := 400\<rparr>)) = 73144"
  using sensor_value_exact [where s = "hw_statics\<lparr>temp_reg := 400\<rparr>" and E = "demo_kenv 0x500" and raw = "0x500"]
  by simp

lemma nonneg_reading: "uint raw \<le> 1872 \<Longrightarrow> 0 \<le> sint (temperature_of_raw raw)"
proof -
  assume r: "uint raw \<le> 1872"
  then have le: "raw \<le> 0xFFF" by (simp add: word_le_def)
  have "1191 * uint raw div 10 \<le> 1191 * 1872 div 10" using r by (intro zdiv_mono1) simp_all
  moreover have "1452 * uint raw div 10 \<le> 1452 * 1280 div 10" if "uint raw \<le> 1280"
    using that by (intro zdiv_mono1) simp_all
  ultimately show ?thesis
    by (cases "0x500 < uint raw") (simp_all add: temperature_of_raw_exact [OF le])
qed

text \<open>
  C8: as long as the temperature is not below zero, that is up to a reading of 1872, a hotter sensor
  (a smaller reading) never makes the automatic mode choose a longer period.
\<close>

theorem hotter_never_slower:
  assumes "raw \<le> raw'" and "raw' \<le> 1872"
  shows "auto_period (temperature_of_raw raw div 1000) \<le> auto_period (temperature_of_raw raw' div 1000)"
proof -
  have u: "uint raw' \<le> 1872" "uint raw \<le> 1872" "raw' \<le> 0xFFF"
    using assms by (simp_all add: word_le_def)
  have "uint (temperature_of_raw raw') \<le> uint (temperature_of_raw raw)"
    using temperature_antitone [OF assms(1) u(3)] nonneg_reading [OF u(1)] nonneg_reading [OF u(2)]
    by (simp add: temperature_as_unsigned)
  then have "temperature_of_raw raw' div 1000 \<le> temperature_of_raw raw div 1000"
    by (simp add: word_le_def uint_div zdiv_mono1)
  then show ?thesis by (rule auto_period_antitone)
qed

theorem hotter_never_slower_witness:
  "auto_period (temperature_of_raw 100 div 1000) \<le> auto_period (temperature_of_raw 1800 div 1000)"
  by (rule hotter_never_slower) simp_all

text \<open>
  C13: below zero (a reading of 1873 or more) the value is negative, wraps in the unsigned
  return type, and the automatic mode takes it for the hottest range: 50 ms.
\<close>

theorem below_zero_blinks_fastest:
  assumes "1873 \<le> uint raw" and "uint raw \<le> 0xFFF"
  shows "sint (temperature_of_raw raw) < 0 \<and> auto_period (temperature_of_raw raw div 1000) = 50"
proof -
  have le: "raw \<le> 0xFFF" using assms(2) by (simp add: word_le_def)
  have "1191 * 1873 div 10 \<le> 1191 * uint raw div 10" using assms(1) by (intro zdiv_mono1) simp_all
  moreover have "1191 * uint raw div 10 \<le> 1191 * 0xFFF div 10" using assms(2) by (intro zdiv_mono1) simp_all
  ultimately have t: "sint (temperature_of_raw raw) < 0" "- 300000 \<le> sint (temperature_of_raw raw)"
    using assms(1) by (simp_all add: temperature_of_raw_exact [OF le])
  have "uint (temperature_of_raw raw) = sint (temperature_of_raw raw) + 2 ^ 32"
  proof -
    have "uint (temperature_of_raw raw) = sint (temperature_of_raw raw) mod 2 ^ 32"
      using uint_word_of_int [of "sint (temperature_of_raw raw)", where 'a = 32] by simp
    also have "\<dots> = (sint (temperature_of_raw raw) + 2 ^ 32) mod 2 ^ 32" by simp
    also have "\<dots> = sint (temperature_of_raw raw) + 2 ^ 32" using t by (intro mod_pos_pos_trivial) simp_all
    finally show ?thesis .
  qed
  then have "4294667296 div 1000 \<le> uint (temperature_of_raw raw) div 1000"
    using t by (intro zdiv_mono1) simp_all
  then have "\<not> temperature_of_raw raw div 1000 < k" if "uint k \<le> 45" for k
    using that by (simp add: word_less_def uint_div)
  then show ?thesis using t by (simp add: auto_period_def)
qed

theorem below_zero_blinks_fastest_witness:
  "sint (temperature_of_raw 2000) < 0 \<and> auto_period (temperature_of_raw 2000 div 1000) = 50"
  by (rule below_zero_blinks_fastest) simp_all

subsection \<open>Loading and unloading\<close>

text \<open>
  C9: a load that reports success leaves the tables wired and the invariant true: automatic
  mode, 1000 ms reported and 1000 ms blinking.
\<close>

theorem load_establishes_invariant:
  assumes "kenv_ok E" and "result (temp_regulator_init E) kernel_statics = 0"
  defines "s \<equiv> exec (temp_regulator_init E) kernel_statics"
  shows "kernel_inv E s \<and> kmode s = 1 \<and> kperiod s = 1000 \<and> kblink s = 1000 \<and>
    lock_state (kcalls s) = Some []"
  unfolding s_def
  using module_loaded(1-3) [OF assms(1,2)] load_locks [OF assms(2)] by (simp add: kernel_inv_iff)

theorem load_establishes_invariant_witness:
  "kernel_inv (demo_kenv 0) (exec (temp_regulator_init (demo_kenv 0)) kernel_statics)"
  using load_establishes_invariant [OF demo_ok demo_loads] by blast

text \<open>
  C10: what a load that fails owns at its end, whatever the kernel answers (its constructors give a
  valid pointer or an error pointer, never \<open>NULL\<close>). If the sensor cannot be mapped, or if the LED came up
  and the load fails at any later point, at the files or at the regulator's own thread, everything that was
  acquired is released, once, and nothing else. If the LED did not come up, which \<open>blink_init\<close> does not
  report, the error path misuses the kernel: it stops a thread that does not run.
\<close>

theorem failed_load_releases_everything:
  assumes "kenv_ok E" and "result (temp_regulator_init E) kernel_statics \<noteq> 0"
  shows "res_state (kcalls (exec (temp_regulator_init E) kernel_statics)) =
    (if result (temp_init E) hw_statics \<noteq> 0 \<or> led_up E then Some {#} else None)"
  by (rule module_load_failed [OF assms])

theorem failed_load_releases_everything_witness:
  "res_state (kcalls (exec (temp_regulator_init demo_no_thread) kernel_statics)) = Some {#}"
  using failed_load_releases_everything [OF demo_failing_ok(1) demo_no_thread_fails] demo_led_up by simp

text \<open>
  C11: unloading after a successful load, under the same condition on the kernel's constructors, releases each resource exactly once if the LED came up in
  the load (its pin was granted and set to output, its thread started). If it did not, the load succeeds
  nevertheless, and the unload misuses the kernel: it stops a thread that does not run.
\<close>

theorem unload_releases_everything:
  assumes "kenv_ok E" and "result (temp_regulator_init E) kernel_statics = 0"
  shows "res_state (kcalls (exec (temp_regulator_exit E) (exec (temp_regulator_init E) kernel_statics))) =
    (if led_up E then Some {#} else None)"
  by (rule module_unload [OF assms])

theorem unload_releases_everything_witness:
  "res_state (kcalls (exec (temp_regulator_exit (demo_kenv 0))
     (exec (temp_regulator_init (demo_kenv 0)) kernel_statics))) = Some {#} \<and>
   res_state (kcalls (exec (temp_regulator_exit demo_no_led)
     (exec (temp_regulator_init demo_no_led) kernel_statics))) = None"
  using unload_releases_everything [OF demo_ok demo_loads]
    unload_releases_everything [OF demo_failing_ok(2) demo_no_led_loads] demo_led_up by simp

subsection \<open>The blink thread\<close>

text \<open>
  C15: as long as it is not stopped and the period is not changed, the thread's \<open>n\<close> passes set the LED to
  alternating levels and sleep half the period after each, for every \<open>n\<close>. A period from \<open>2 ^ 31\<close> ms on,
  which the period file accepts, is negative in the thread's \<open>int\<close>: it sleeps \<open>2 ^ 31\<close> ms more than half of it.
\<close>

theorem blink_thread_alternates:
  assumes "\<And>es. kret E es Kthread_should_stop = 0"
  shows "gpio_writes (klog (exec (thread_blinkThread E n st) s)) = gpio_writes (klog s) @ alternating st n \<and>
    map uint (sleeps (klog (exec (thread_blinkThread E n st) s))) = map uint (sleeps (klog s)) @
      replicate n (uint (blink_period_ms s) div 2 + (if uint (blink_period_ms s) < 2 ^ 31 then 0 else 2 ^ 31))"
  using blink_thread_iterations(1,2) [OF assms, of n st s] by (simp add: blink_delay_exact)

theorem blink_thread_alternates_witness:
  "gpio_writes (klog (exec (thread_blinkThread (demo_kenv 0) 3 False) (hw_statics\<lparr>blink_period_ms := 500\<rparr>))) =
     [False, True, False]"
  using blink_thread_alternates [where E = "demo_kenv 0" and s = "hw_statics\<lparr>blink_period_ms := 500\<rparr>" and n = 3 and st = False]
  by (simp add: hw_statics_def numeral_3_eq_3 del: thread_blinkThread.simps)

text \<open>
  C16: once the environment has asked it to stop, from the \<open>N\<close>-th call on, the thread
  returns 0, within as many passes as there are calls left.
\<close>

theorem blink_thread_returns:
  assumes "\<And>es. N \<le> length es \<Longrightarrow> kret E es Kthread_should_stop \<noteq> 0"
    and "N < fuel + length (klog s)" and "0 < fuel"
  shows "result (thread_blinkThread E fuel st) s = Some 0"
  by (rule blink_thread_stops [OF assms])

definition demo_stopping :: kenv where
  "demo_stopping = (demo_kenv 0)\<lparr>kret := (\<lambda>h c. if c = Kthread_should_stop then (if 7 \<le> length h then 1 else 0)
     else kret (demo_kenv 0) h c)\<rparr>"

theorem blink_thread_returns_witness:
  "result (thread_blinkThread demo_stopping 8 False) hw_statics = Some 0"
  by (rule blink_thread_returns [where N = 7]) (simp_all add: demo_stopping_def hw_statics_def)

end
