(* ===== verification/UserApi.thy ===== *)
theory UserApi
  imports Prelude "HOL-Library.Multiset"
begin

section \<open>The interface of the user-space programs\<close>

text \<open>
  The system and library calls of the daemon and of the command line client, modelled as the
  kernel's are in \<open>KernelApi\<close>: \<open>ucall\<close> is a call, a \<open>uenv\<close> answers it with
  an integer as a function of the calls made before, and each call is logged. The answer of
  \<open>Pread\<close> is the first byte that arrives in the buffer, negative when none does.
  An address (\<open>Malloc\<close>, \<open>Mmap\<close>) is an integer, 0 for \<open>NULL\<close> and -1 for \<open>MAP_FAILED\<close>. Messages to the terminal are left
  out. Two disciplines read a log: the order of the mutexes, and the ownership of file
  descriptors, socket files and threads.
\<close>

datatype ulock =
    Btn_list_lock
  | Btn_lock int
  | Led_lock int
  | Cb_lock
  | Anim_lock
  | App_lock
  | Files_lock

datatype ucall =
    Plock ulock
  | Punlock ulock
  | Pmutex_init ulock
  | Pmutex_destroy ulock
  | Pcond_signal
  | Pthread_create string
  | Pthread_join string
  | Pthread_detach string
  | Open string
  | Close int
  | Write int string
  | Write_bytes int "u8 list"
  | Pwrite int string
  | Pread int nat
  | Ioctl int nat
  | Usleep nat
  | Epoll_create
  | Epoll_ctl int int
  | Exit nat
  | Socket
  | Bind int string
  | Unlink string
  | Shutdown int
  | Sendto int "u8 list" string
  | Read int nat
  | Timerfd_create
  | Timerfd_settime int int int
  | Epoll_wait int
  | Syslog string
  | Sched_setaffinity int nat
  | Mmap int nat nat
  | Munmap int nat
  | Malloc nat
  | Free int

type_synonym uevent = "ucall \<times> int"

record uenv = uret :: "uevent list \<Rightarrow> ucall \<Rightarrow> int"

record ulog = ulog :: "uevent list"

definition uapi :: "uenv \<Rightarrow> ucall \<Rightarrow> ('z ulog_scheme, int) state" where
  "uapi E c = State (\<lambda>s. let r = uret E (ulog s) c in (r, s\<lparr>ulog := ulog s @ [(c, r)]\<rparr>))"

lemma result_uapi [simp, run_simps]: "result (uapi E c) s = uret E (ulog s) c"
  by (simp add: uapi_def result_def Let_def)

lemma exec_uapi [simp, run_simps]:
  "exec (uapi E c) s = s\<lparr>ulog := ulog s @ [(c, uret E (ulog s) c)]\<rparr>"
  by (simp add: uapi_def exec_def Let_def)

lemma ulog_uapi: "ulog (exec (uapi E c) s) = ulog s @ [(c, uret E (ulog s) c)]"
  by simp

text \<open>A call whose result is not used, on any world.\<close>

definition uvoid :: "('s, 'a) state \<Rightarrow> ('s, unit) state" where
  "uvoid m = m \<bind> (\<lambda>_. ret ())"

lemma exec_uvoid [simp, run_simps]: "exec (uvoid m) s = exec m s"
  by (simp add: uvoid_def exec_bind)

lemma keeps_uvoid [keeps_rules]: "keeps Q m \<Longrightarrow> keeps Q (uvoid m)"
  by (simp add: keeps_def)

text \<open>To follow a path of the code by its log only.\<close>

lemmas upath_simps = result_bind exec_bind result_if exec_if result_let exec_let
  result_case_option exec_case_option result_exec_basic exec_uvoid result_uapi ulog_uapi

subsection \<open>The mutexes\<close>

text \<open>
  The order in which the mutexes nest: a button's while its callback runs, the one of the
  callback table while a message is handled, then the application's, then the one of the
  files.
\<close>

fun ulock_rank :: "ulock \<Rightarrow> nat" where
  "ulock_rank (Btn_lock _) = 0"
| "ulock_rank Cb_lock = 0"
| "ulock_rank Btn_list_lock = 0"
| "ulock_rank (Led_lock _) = 0"
| "ulock_rank App_lock = 1"
| "ulock_rank Anim_lock = 1"
| "ulock_rank Files_lock = 2"

definition ulock_step :: "ulock list \<Rightarrow> uevent \<Rightarrow> ulock list option" where
  "ulock_step hs e = (case fst e of
       Plock l \<Rightarrow> if \<forall>h \<in> set hs. ulock_rank h < ulock_rank l then Some (l # hs) else None
     | Punlock l \<Rightarrow> if l \<in> set hs then Some (remove1 l hs) else None
     | _ \<Rightarrow> Some hs)"

definition ulock_state :: "uevent list \<Rightarrow> ulock list option" where
  "ulock_state = run_log ulock_step []"

lemma ulock_state_append [simp, log_simps]:
  "ulock_state (es @ fs) = Option.bind (ulock_state es) (\<lambda>hs. run_log ulock_step hs fs)"
  by (simp add: ulock_state_def)

lemma ulock_step_simps [simp]:
  "ulock_step hs (Plock l, r) =
     (if \<forall>h \<in> set hs. ulock_rank h < ulock_rank l then Some (l # hs) else None)"
  "ulock_step hs (Punlock l, r) = (if l \<in> set hs then Some (remove1 l hs) else None)"
  by (simp_all add: ulock_step_def)

definition ulock_call :: "ucall \<Rightarrow> bool" where
  "ulock_call c = (case c of Plock _ \<Rightarrow> True | Punlock _ \<Rightarrow> True | _ \<Rightarrow> False)"

lemma ulock_step_other [simp]: "\<not> ulock_call c \<Longrightarrow> ulock_step hs (c, r) = Some hs"
  by (cases c) (simp_all add: ulock_step_def ulock_call_def)

lemma ulock_call_simps [simp]:
  "ulock_call (Plock l)" "ulock_call (Punlock l)" "\<not> ulock_call (Pmutex_init l)"
  "\<not> ulock_call (Pmutex_destroy l)" "\<not> ulock_call Pcond_signal" "\<not> ulock_call (Pthread_create nm)"
  "\<not> ulock_call (Pthread_join nm)" "\<not> ulock_call (Pthread_detach nm)" "\<not> ulock_call (Open p)"
  "\<not> ulock_call (Close f)" "\<not> ulock_call (Write f s)" "\<not> ulock_call (Write_bytes f bs)"
  "\<not> ulock_call (Pwrite f s)" "\<not> ulock_call (Pread f n)" "\<not> ulock_call (Ioctl f n)"
  "\<not> ulock_call (Usleep n)" "\<not> ulock_call Epoll_create" "\<not> ulock_call (Epoll_ctl e f)"
  "\<not> ulock_call (Exit n)" "\<not> ulock_call Socket" "\<not> ulock_call (Bind f p)"
  "\<not> ulock_call (Unlink p)" "\<not> ulock_call (Shutdown f)" "\<not> ulock_call (Sendto f bs p)"
  "\<not> ulock_call (Read f n)" "\<not> ulock_call Timerfd_create" "\<not> ulock_call (Timerfd_settime f i j)"
  "\<not> ulock_call (Epoll_wait f)" "\<not> ulock_call (Syslog p)"
  "\<not> ulock_call (Sched_setaffinity f n)" "\<not> ulock_call (Mmap f n n')" "\<not> ulock_call (Munmap f n)"
  "\<not> ulock_call (Malloc n)" "\<not> ulock_call (Free f)"
  by (simp_all add: ulock_call_def)

text \<open>How a call interface on a larger world records its calls, seen through \<open>L\<close>.\<close>

definition ulogs_locks :: "('s \<Rightarrow> ulock list option) \<Rightarrow> (ucall \<Rightarrow> ('s, int) state) \<Rightarrow> bool" where
  "ulogs_locks L U \<longleftrightarrow> (\<forall>c s. L (exec (U c) s) =
     Option.bind (L s) (\<lambda>hs. ulock_step hs (c, result (U c) s)))"

lemma ulogs_locksD:
  "ulogs_locks L U \<Longrightarrow> L (exec (U c) s) = Option.bind (L s) (\<lambda>hs. ulock_step hs (c, result (U c) s))"
  by (simp add: ulogs_locks_def)

subsection \<open>What a process owns\<close>

text \<open>
  File descriptors, the socket file, running threads, mappings, memory of \<open>malloc\<close>. \<open>None\<close> is a misuse: a descriptor
  that is not open is closed or used, a thread joined that does not run.
\<close>

datatype ures =
    U_fd int
  | U_path string
  | U_thread string
  | U_map int
  | U_mem int

definition need_ures :: "ures \<Rightarrow> ures multiset \<Rightarrow> ures multiset option" where
  "need_ures x R = (if x \<in># R then Some R else None)"

definition drop_ures :: "ures \<Rightarrow> ures multiset \<Rightarrow> ures multiset option" where
  "drop_ures x R = (if x \<in># R then Some (R - {#x#}) else None)"

definition ures_step :: "ures multiset \<Rightarrow> uevent \<Rightarrow> ures multiset option" where
  "ures_step R e = (case fst e of
       Open _ \<Rightarrow> Some (if snd e < 0 then R else add_mset (U_fd (snd e)) R)
     | Socket \<Rightarrow> Some (if snd e < 0 then R else add_mset (U_fd (snd e)) R)
     | Epoll_create \<Rightarrow> Some (if snd e < 0 then R else add_mset (U_fd (snd e)) R)
     | Timerfd_create \<Rightarrow> Some (if snd e < 0 then R else add_mset (U_fd (snd e)) R)
     | Epoll_ctl ep f \<Rightarrow> (if U_fd ep \<in># R \<and> U_fd f \<in># R then Some R else None)
     | Epoll_wait ep \<Rightarrow> need_ures (U_fd ep) R
     | Timerfd_settime f _ _ \<Rightarrow> need_ures (U_fd f) R
     | Read f _ \<Rightarrow> need_ures (U_fd f) R
     | Ioctl f _ \<Rightarrow> need_ures (U_fd f) R
     | Close f \<Rightarrow> drop_ures (U_fd f) R
     | Write f _ \<Rightarrow> need_ures (U_fd f) R
     | Write_bytes f _ \<Rightarrow> need_ures (U_fd f) R
     | Pwrite f _ \<Rightarrow> need_ures (U_fd f) R
     | Pread f _ \<Rightarrow> need_ures (U_fd f) R
     | Sendto f _ _ \<Rightarrow> need_ures (U_fd f) R
     | Shutdown f \<Rightarrow> need_ures (U_fd f) R
     | Bind f p \<Rightarrow> (if U_fd f \<in># R then Some (if snd e < 0 then R else add_mset (U_path p) R) else None)
     | Unlink p \<Rightarrow> Some (filter_mset (\<lambda>x. x \<noteq> U_path p) R)
     | Pthread_create nm \<Rightarrow> Some (if snd e = 0 then add_mset (U_thread nm) R else R)
     | Pthread_join nm \<Rightarrow> drop_ures (U_thread nm) R
     | Mmap _ _ _ \<Rightarrow> Some (if snd e = - 1 then R else add_mset (U_map (snd e)) R)
     | Munmap a _ \<Rightarrow> drop_ures (U_map a) R
     | Malloc _ \<Rightarrow> Some (if snd e = 0 then R else add_mset (U_mem (snd e)) R)
     | Free a \<Rightarrow> (if a = 0 then Some R else drop_ures (U_mem a) R)
     | _ \<Rightarrow> Some R)"

definition ures_state :: "uevent list \<Rightarrow> ures multiset option" where
  "ures_state = run_log ures_step {#}"

lemma ures_state_append [simp, log_simps]:
  "ures_state (es @ fs) = Option.bind (ures_state es) (\<lambda>R. run_log ures_step R fs)"
  by (simp add: ures_state_def)

lemma ures_step_simps [simp]:
  "ures_step R (Open p, r) = Some (if r < 0 then R else add_mset (U_fd r) R)"
  "ures_step R (Socket, r) = Some (if r < 0 then R else add_mset (U_fd r) R)"
  "ures_step R (Close f, r) = drop_ures (U_fd f) R"
  "ures_step R (Write f s, r) = need_ures (U_fd f) R"
  "ures_step R (Write_bytes f bs, r) = need_ures (U_fd f) R"
  "ures_step R (Pwrite f s, r) = need_ures (U_fd f) R"
  "ures_step R (Pread f n, r) = need_ures (U_fd f) R"
  "ures_step R (Sendto f bs p, r) = need_ures (U_fd f) R"
  "ures_step R (Shutdown f, r) = need_ures (U_fd f) R"
  "ures_step R (Bind f p, r) =
     (if U_fd f \<in># R then Some (if r < 0 then R else add_mset (U_path p) R) else None)"
  "ures_step R (Unlink p, r) = Some (filter_mset (\<lambda>x. x \<noteq> U_path p) R)"
  "ures_step R (Pthread_create nm, r) = Some (if r = 0 then add_mset (U_thread nm) R else R)"
  "ures_step R (Pthread_join nm, r) = drop_ures (U_thread nm) R"
  "ures_step R (Mmap f n n', r) = Some (if r = - 1 then R else add_mset (U_map r) R)"
  "ures_step R (Munmap f n, r) = drop_ures (U_map f) R"
  "ures_step R (Malloc n, r) = Some (if r = 0 then R else add_mset (U_mem r) R)"
  "ures_step R (Free f, r) = (if f = 0 then Some R else drop_ures (U_mem f) R)"
  "ures_step R (Sched_setaffinity f n, r) = Some R"
  "ures_step R (Plock l, r) = Some R" "ures_step R (Punlock l, r) = Some R"
  "ures_step R (Pmutex_init l, r) = Some R" "ures_step R (Pmutex_destroy l, r) = Some R"
  "ures_step R (Usleep n, r) = Some R" "ures_step R (Ioctl f n, r) = need_ures (U_fd f) R"
  "ures_step R (Epoll_create, r) = Some (if r < 0 then R else add_mset (U_fd r) R)"
  "ures_step R (Timerfd_create, r) = Some (if r < 0 then R else add_mset (U_fd r) R)"
  "ures_step R (Epoll_ctl ep f, r) = (if U_fd ep \<in># R \<and> U_fd f \<in># R then Some R else None)"
  "ures_step R (Epoll_wait f, r) = need_ures (U_fd f) R"
  "ures_step R (Timerfd_settime f i j, r) = need_ures (U_fd f) R"
  "ures_step R (Read f n, r) = need_ures (U_fd f) R"
  by (simp_all add: ures_step_def)

lemma drop_ures_add [simp]: "drop_ures x (add_mset x R) = Some R"
  by (simp add: drop_ures_def)

lemma drop_ures_other [simp]:
  "x \<noteq> y \<Longrightarrow> drop_ures x (add_mset y R) = map_option (add_mset y) (drop_ures x R)"
  by (simp add: drop_ures_def)

lemma need_ures_add [simp]: "need_ures x (add_mset x R) = Some (add_mset x R)"
  by (simp add: need_ures_def)

end
