(* ===== verification/SysfsClient.thy ===== *)
theory SysfsClient
  imports CFormat UserApi
begin

section \<open>The daemon's access to the regulator: \<open>daemon/application/sysfs.c\<close>\<close>

text \<open>
  Five functions on four files. The operating system is the record \<open>'w os\<close>: system
  calls, the whole text that a file yields when it is read, and the writing of a text, on a
  world \<open>'w\<close>; a file that cannot be opened is \<open>None\<close>, respectively
  \<open>False\<close>. The locale \<open>regulator_files\<close> is the contract of the files of the
  regulator, the lemmas in it say what each function returns and
  changes.
\<close>

record 'w os =
  ocall :: "ucall \<Rightarrow> ('w, int) state"
  oread :: "string \<Rightarrow> ('w, string option) state"
  owrite :: "string \<Rightarrow> string \<Rightarrow> ('w, bool) state"

definition SYSFS_BASE_PATH :: string where
  "SYSFS_BASE_PATH = ''/sys/class/temp_regulator/regulator''"

definition PATH_TEMPERATURE :: string where "PATH_TEMPERATURE = SYSFS_BASE_PATH @ ''/temperature''"
definition PATH_MODE :: string where "PATH_MODE = SYSFS_BASE_PATH @ ''/mode''"
definition PATH_PERIOD_ST :: string where "PATH_PERIOD_ST = SYSFS_BASE_PATH @ ''/period_status''"
definition PATH_PERIOD_SET :: string where "PATH_PERIOD_SET = SYSFS_BASE_PATH @ ''/period_set''"

lemma paths_distinct [simp]:
  "PATH_TEMPERATURE \<noteq> PATH_MODE" "PATH_TEMPERATURE \<noteq> PATH_PERIOD_ST"
  "PATH_TEMPERATURE \<noteq> PATH_PERIOD_SET" "PATH_MODE \<noteq> PATH_PERIOD_ST"
  "PATH_MODE \<noteq> PATH_PERIOD_SET" "PATH_PERIOD_ST \<noteq> PATH_PERIOD_SET"
  "PATH_MODE \<noteq> PATH_TEMPERATURE" "PATH_PERIOD_ST \<noteq> PATH_TEMPERATURE"
  "PATH_PERIOD_SET \<noteq> PATH_TEMPERATURE" "PATH_PERIOD_ST \<noteq> PATH_MODE"
  "PATH_PERIOD_SET \<noteq> PATH_MODE" "PATH_PERIOD_SET \<noteq> PATH_PERIOD_ST"
  by (simp_all add: PATH_TEMPERATURE_def PATH_MODE_def PATH_PERIOD_ST_def PATH_PERIOD_SET_def)

text \<open>
  \<open>rnd\<close> rounds an exact value to a \<open>float\<close>, as \<open>fscanf\<close> does when it stores one.
\<close>

definition sysfs_get_temperature :: "(rat \<Rightarrow> 'f) \<Rightarrow> 'w os \<Rightarrow> ('w, 'f) state" where
  "sysfs_get_temperature rnd F = do {
     uvoid (ocall F (Plock Files_lock));
     c \<leftarrow> oread F PATH_TEMPERATURE;
     uvoid (ocall F (Punlock Files_lock));
     ret (rnd (case c of None \<Rightarrow> 0 | Some t \<Rightarrow> (case scan_dec t of None \<Rightarrow> 0 | Some v \<Rightarrow> v)))
   }"

definition sysfs_get_mode :: "'w os \<Rightarrow> ('w, u32) state" where
  "sysfs_get_mode F = do {
     uvoid (ocall F (Plock Files_lock));
     c \<leftarrow> oread F PATH_MODE;
     uvoid (ocall F (Punlock Files_lock));
     ret (case c of None \<Rightarrow> 0 | Some t \<Rightarrow> (case scan_u32 t of None \<Rightarrow> 0 | Some v \<Rightarrow> v))
   }"

definition sysfs_set_mode :: "'w os \<Rightarrow> u32 \<Rightarrow> ('w, unit) state" where
  "sysfs_set_mode F mode = do {
     uvoid (ocall F (Plock Files_lock));
     uvoid (owrite F PATH_MODE (fmt_u mode @ nl));
     uvoid (ocall F (Punlock Files_lock))
   }"

definition sysfs_get_period :: "'w os \<Rightarrow> ('w, u32) state" where
  "sysfs_get_period F = do {
     uvoid (ocall F (Plock Files_lock));
     c \<leftarrow> oread F PATH_PERIOD_ST;
     uvoid (ocall F (Punlock Files_lock));
     ret (case c of None \<Rightarrow> 0 | Some t \<Rightarrow> (case scan_u32 t of None \<Rightarrow> 0 | Some v \<Rightarrow> v))
   }"

definition sysfs_set_period :: "'w os \<Rightarrow> u32 \<Rightarrow> ('w, unit) state" where
  "sysfs_set_period F period = do {
     uvoid (ocall F (Plock Files_lock));
     uvoid (owrite F PATH_PERIOD_SET (fmt_u period @ nl));
     uvoid (ocall F (Punlock Files_lock))
   }"

lemmas sysfs_client_defs = sysfs_get_temperature_def sysfs_get_mode_def sysfs_set_mode_def
  sysfs_get_period_def sysfs_set_period_def

subsection \<open>The contract of the files\<close>

text \<open>
  \<open>mode_of\<close>, \<open>period_of\<close> and \<open>temp_of\<close> (in thousandths of a degree) are
  what the files show. A write that the regulator refuses changes nothing: a mode other than
  0 and 1, a period of 0 or in automatic mode.
\<close>

locale regulator_files =
  fixes F :: "'w os" and mode_of :: "'w \<Rightarrow> u32" and period_of :: "'w \<Rightarrow> u32"
    and temp_of :: "'w \<Rightarrow> u32" and L :: "'w \<Rightarrow> ulock list option" and invar :: "'w \<Rightarrow> bool"
  assumes call_frame: "mode_of (exec (ocall F c) w) = mode_of w"
      "period_of (exec (ocall F c) w) = period_of w" "temp_of (exec (ocall F c) w) = temp_of w"
      "invar (exec (ocall F c) w) = invar w"
    and call_locks: "ulogs_locks L (ocall F)"
    and read_value:
      "invar w \<Longrightarrow> result (oread F PATH_MODE) w = Some (fmt_d (mode_of w) @ nl)"
      "invar w \<Longrightarrow> result (oread F PATH_PERIOD_ST) w = Some (fmt_u (period_of w) @ nl)"
      "invar w \<Longrightarrow> result (oread F PATH_TEMPERATURE) w =
        Some (fmt_u (temp_of w div 1000) @ ''.'' @ fmt_03u (temp_of w mod 1000) @ nl)"
    and read_frame: "invar w \<Longrightarrow> mode_of (exec (oread F p) w) = mode_of w"
      "invar w \<Longrightarrow> period_of (exec (oread F p) w) = period_of w"
      "invar w \<Longrightarrow> invar (exec (oread F p) w)"
    and mode_written: "invar w \<Longrightarrow> mode_of (exec (owrite F PATH_MODE (fmt_u v @ nl)) w) =
        (if v = 0 \<or> v = 1 then v else mode_of w)"
      "invar w \<Longrightarrow> period_of (exec (owrite F PATH_MODE (fmt_u v @ nl)) w) = period_of w"
    and period_written: "invar w \<Longrightarrow> period_of (exec (owrite F PATH_PERIOD_SET (fmt_u v @ nl)) w) =
        (if mode_of w = 0 \<and> 0 < v then v else period_of w)"
      "invar w \<Longrightarrow> mode_of (exec (owrite F PATH_PERIOD_SET (fmt_u v @ nl)) w) = mode_of w"
    and write_inv: "invar w \<Longrightarrow> invar (exec (owrite F p t) w)"
    and mode_range: "invar w \<Longrightarrow> mode_of w = 0 \<or> mode_of w = 1"
    and file_locks: "L (exec (oread F p) w) = L w" "L (exec (owrite F p t) w) = L w"
begin

lemmas laws = call_frame read_value read_frame mode_written period_written write_inv

lemma fmt_d_mode: "invar w \<Longrightarrow> fmt_d (mode_of w) = fmt_u (mode_of w)"
  using mode_range [of w] by (auto simp: fmt_d_def fmt_u_def show_int_def)

lemma get_mode_value: "invar w \<Longrightarrow> result (sysfs_get_mode F) w = mode_of w"
  by (simp add: sysfs_get_mode_def run_simps laws fmt_d_mode scan_u32_fmt_u)

lemma get_period_value: "invar w \<Longrightarrow> result (sysfs_get_period F) w = period_of w"
  by (simp add: sysfs_get_period_def run_simps laws scan_u32_fmt_u)

lemma get_temperature_value:
  "invar w \<Longrightarrow> result (sysfs_get_temperature rnd F) w = rnd (of_nat (unat (temp_of w)) / 1000)"
proof -
  assume w: "invar w"
  let ?t = "temp_of w"
  have "unat (?t mod 1000) = unat ?t mod 1000" "unat (?t div 1000) = unat ?t div 1000"
    by (simp_all add: unat_mod unat_div)
  then have "scan_dec (fmt_u (?t div 1000) @ CHR ''.'' # fmt_03u (?t mod 1000) @ nl) =
      Some (of_nat (unat ?t) / 1000)"
    by (subst scan_dec_fixed3) (simp_all add: div_mult_mod_eq flip: of_nat_mult of_nat_add)
  then show ?thesis using w by (simp add: sysfs_get_temperature_def run_simps laws)
qed

lemma getters_frame:
  assumes "invar w"
  shows "mode_of (exec (sysfs_get_mode F) w) = mode_of w"
    "period_of (exec (sysfs_get_mode F) w) = period_of w" "invar (exec (sysfs_get_mode F) w)"
    "mode_of (exec (sysfs_get_period F) w) = mode_of w"
    "period_of (exec (sysfs_get_period F) w) = period_of w" "invar (exec (sysfs_get_period F) w)"
    "mode_of (exec (sysfs_get_temperature rnd F) w) = mode_of w"
    "period_of (exec (sysfs_get_temperature rnd F) w) = period_of w"
    "invar (exec (sysfs_get_temperature rnd F) w)"
  using assms by (simp_all add: sysfs_client_defs run_simps laws)

lemma set_mode_effect:
  assumes "invar w"
  shows "mode_of (exec (sysfs_set_mode F v) w) = (if v = 0 \<or> v = 1 then v else mode_of w)"
    and "period_of (exec (sysfs_set_mode F v) w) = period_of w"
    and "invar (exec (sysfs_set_mode F v) w)"
  using assms by (simp_all add: sysfs_set_mode_def run_simps laws)

lemma set_period_effect:
  assumes "invar w"
  shows "period_of (exec (sysfs_set_period F v) w) =
      (if mode_of w = 0 \<and> 0 < v then v else period_of w)"
    and "mode_of (exec (sysfs_set_period F v) w) = mode_of w"
    and "invar (exec (sysfs_set_period F v) w)"
  using assms by (simp_all add: sysfs_set_period_def run_simps laws)

lemma client_locks:
  assumes "L w = Some hs" and "\<forall>h \<in> set hs. ulock_rank h < 2"
  shows "L (exec (sysfs_get_mode F) w) = Some hs" "L (exec (sysfs_get_period F) w) = Some hs"
    "L (exec (sysfs_get_temperature rnd F) w) = Some hs"
    "L (exec (sysfs_set_mode F v) w) = Some hs" "L (exec (sysfs_set_period F v) w) = Some hs"
  using assms
  by (simp_all add: sysfs_client_defs run_simps ulogs_locksD [OF call_locks] file_locks)

end

text \<open>Without the module there are no files: the getters return 0, the setters do nothing.\<close>

lemma sysfs_missing:
  assumes "\<And>p w. result (oread F p) w = None"
  shows "result (sysfs_get_mode F) w = 0" "result (sysfs_get_period F) w = 0"
    "result (sysfs_get_temperature rnd F) w = rnd 0"
  using assms by (simp_all add: sysfs_client_defs run_simps)

end
