(* ===== verification/Gpio.thy ===== *)
theory Gpio
  imports UserApi
begin

section \<open>LEDs and buttons of the daemon: \<open>daemon/gpio\<close>\<close>

text \<open>
  \<open>led.c\<close> and \<open>button.c\<close> on the call interface \<open>U\<close> of a world \<open>'w\<close>.
  A structure is addressed by an integer (0 is \<open>NULL\<close>); the button module keeps the
  structures, the list of registered buttons and the epoll descriptor in \<open>'w btns\<close>.
  \<open>None\<close> as the result of a function is \<open>exit\<close>. Lemmas: the paths fit their buffers,
  what is owned on each path, the bound of the list, the handling of an event.
\<close>

subsection \<open>\<open>gpio/led.c\<close>\<close>

definition GPIO_EXPORT :: string where "GPIO_EXPORT = ''/sys/class/gpio/export''"
definition GPIO_UNEXPORT :: string where "GPIO_UNEXPORT = ''/sys/class/gpio/unexport''"
definition GPIO_BASE :: string where "GPIO_BASE = ''/sys/class/gpio/gpio''"

datatype LED_type = LED_STATUS | LED_POWER | LED_other int

record led =
  gpio :: int
  led_id :: int  \<comment> \<open>which structure it is: names its mutex\<close>

fun led_pin :: "LED_type \<Rightarrow> string option" where
  "led_pin LED_STATUS = Some ''10''"
| "led_pin LED_POWER = Some ''362''"
| "led_pin (LED_other _) = None"

text \<open>Open a file, write a text to it, close it, none of it checked.\<close>

definition write_file :: "(ucall \<Rightarrow> ('w, int) state) \<Rightarrow> string \<Rightarrow> string \<Rightarrow> ('w, unit) state" where
  "write_file U path txt = do {
     f \<leftarrow> U (Open path);
     uvoid (U (Write f txt));
     uvoid (U (Close f))
   }"

definition LED_init :: "(ucall \<Rightarrow> ('w, int) state) \<Rightarrow> led option \<Rightarrow> LED_type \<Rightarrow> ('w, int \<times> led option) state"
where
  "LED_init U led type = (case led of
       None \<Rightarrow> ret (- 1, None)
     | Some l \<Rightarrow> (case led_pin type of
         None \<Rightarrow> ret (- 1, Some l)
       | Some pin \<Rightarrow> do {
           let gpio_path = GPIO_BASE @ pin;
           write_file U GPIO_UNEXPORT pin;
           write_file U GPIO_EXPORT pin;
           write_file U (gpio_path @ ''/direction'') ''out'';
           f \<leftarrow> U (Open (gpio_path @ ''/value''));
           if f = - 1 then ret (- 1, Some l)
           else do {
             let l' = l\<lparr>gpio := f\<rparr>;
             r \<leftarrow> U (Pmutex_init (Led_lock (led_id l)));
             if r \<noteq> 0 then do {
               uvoid (U (Close f));
               ret (- 1, Some l')
             } else ret (0, Some l')
           }
         }))"

text \<open>\<open>pwrite (gpio, "1", sizeof("1"), 0)\<close>: the text with its final NUL.\<close>

definition LED_set :: "(ucall \<Rightarrow> ('w, int) state) \<Rightarrow> string \<Rightarrow> led option \<Rightarrow> ('w, unit) state" where
  "LED_set U txt led = (case led of
       None \<Rightarrow> ret ()
     | Some l \<Rightarrow> do {
         uvoid (U (Plock (Led_lock (led_id l))));
         uvoid (U (Pwrite (gpio l) txt));
         uvoid (U (Punlock (Led_lock (led_id l))))
       })"

definition LED_on :: "(ucall \<Rightarrow> ('w, int) state) \<Rightarrow> led option \<Rightarrow> ('w, unit) state" where
  "LED_on U led = LED_set U [CHR ''1'', CHR 0x00] led"

definition LED_off :: "(ucall \<Rightarrow> ('w, int) state) \<Rightarrow> led option \<Rightarrow> ('w, unit) state" where
  "LED_off U led = LED_set U [CHR ''0'', CHR 0x00] led"

definition LED_toggle :: "(ucall \<Rightarrow> ('w, int) state) \<Rightarrow> led option \<Rightarrow> ('w, unit) state" where
  "LED_toggle U led = (case led of
       None \<Rightarrow> ret ()
     | Some l \<Rightarrow> do {
         uvoid (U (Plock (Led_lock (led_id l))));
         v \<leftarrow> U (Pread (gpio l) 2);
         (if v = 48 then uvoid (U (Pwrite (gpio l) [CHR ''1'', CHR 0x00]))
          else uvoid (U (Pwrite (gpio l) [CHR ''0'', CHR 0x00])));
         uvoid (U (Punlock (Led_lock (led_id l))))
       })"

definition LED_deinit :: "(ucall \<Rightarrow> ('w, int) state) \<Rightarrow> led option \<Rightarrow> ('w, unit) state" where
  "LED_deinit U led = (case led of
       None \<Rightarrow> ret ()
     | Some l \<Rightarrow> do {
         uvoid (U (Pmutex_destroy (Led_lock (led_id l))));
         uvoid (U (Close (gpio l)))
       })"

text \<open>The buffers: \<open>gpio_path[32]\<close>, \<open>direction_path[100]\<close>, \<open>value_path[100]\<close>.\<close>

lemma led_paths_fit:
  assumes "led_pin type = Some pin"
  shows "length (GPIO_BASE @ pin) < 32" "length (GPIO_BASE @ pin @ ''/direction'') < 100"
  using assms by (auto simp: GPIO_BASE_def elim!: led_pin.elims)

text \<open>The level that the LED shows, from the log of writes.\<close>

definition led_levels :: "int \<Rightarrow> uevent list \<Rightarrow> bool list" where
  "led_levels f es = List.map_filter (\<lambda>e. case fst e of
     Pwrite g (c # _) \<Rightarrow> if g = f then Some (c = CHR ''1'') else None | _ \<Rightarrow> None) es"

lemma led_levels_append [simp]: "led_levels f (xs @ ys) = led_levels f xs @ led_levels f ys"
  by (simp add: led_levels_def List.map_filter_def)

lemma led_levels_simps [simp]:
  "led_levels f [] = []"
  "led_levels f ((Plock l, r) # es) = led_levels f es"
  "led_levels f ((Punlock l, r) # es) = led_levels f es"
  "led_levels f ((Pread g n, r) # es) = led_levels f es"
  "led_levels f ((Usleep n, r) # es) = led_levels f es"
  "led_levels f ((Pwrite g (c # cs), r) # es) =
     (if g = f then (c = CHR ''1'') # led_levels f es else led_levels f es)"
  by (simp_all add: led_levels_def List.map_filter_def)

lemma LED_levels:
  "led_levels (gpio l) (ulog (exec (LED_on (uapi E) (Some l)) s)) = led_levels (gpio l) (ulog s) @ [True]"
  "led_levels (gpio l) (ulog (exec (LED_off (uapi E) (Some l)) s)) = led_levels (gpio l) (ulog s) @ [False]"
  by (simp_all add: LED_on_def LED_off_def LED_set_def run_simps)

lemma LED_toggle_level:
  assumes "\<And>h f. uret E h (Pread f 2) = (if last (led_levels f h) then 49 else 48)"
    and "led_levels (gpio l) (ulog s) = vs @ [b]"
  shows "led_levels (gpio l) (ulog (exec (LED_toggle (uapi E) (Some l)) s)) = vs @ [b, \<not> b]"
  using assms by (simp add: LED_toggle_def run_simps)

lemma write_file_resources:
  assumes "ures_state (ulog s) = Some R" and "\<forall>h. 0 \<le> uret E h (Open path)"
  shows "ures_state (ulog (exec (write_file (uapi E) path txt) s)) = Some R"
  using assms by (simp add: write_file_def upath_simps not_less [symmetric] del: exec_uapi)

lemma LED_init_resources:
  assumes "ures_state (ulog s) = Some R" and "led_pin type = Some pin"
    and opens: "\<forall>h p. p \<noteq> GPIO_BASE @ pin @ ''/value'' \<longrightarrow> 0 \<le> uret E h (Open p)"
    and fails: "\<forall>h p. uret E h (Open p) < 0 \<longrightarrow> uret E h (Open p) = - 1"
  shows "ures_state (ulog (exec (LED_init (uapi E) (Some l) type) s)) =
      Some (if fst (result (LED_init (uapi E) (Some l) type) s) = 0
            then add_mset (U_fd (gpio (the (snd (result (LED_init (uapi E) (Some l) type) s))))) R else R)"
proof -
  have ne: "GPIO_UNEXPORT \<noteq> GPIO_BASE @ pin @ ''/value''" "GPIO_EXPORT \<noteq> GPIO_BASE @ pin @ ''/value''"
    by (simp_all add: GPIO_UNEXPORT_def GPIO_EXPORT_def GPIO_BASE_def)
  have o: "\<forall>h. 0 \<le> uret E h (Open GPIO_UNEXPORT)" "\<forall>h. 0 \<le> uret E h (Open GPIO_EXPORT)"
    "\<forall>h. 0 \<le> uret E h (Open (GPIO_BASE @ pin @ ''/direction''))"
    using opens ne by auto
  define s1 where "s1 = exec (write_file (uapi E) GPIO_UNEXPORT pin) s"
  define s2 where "s2 = exec (write_file (uapi E) GPIO_EXPORT pin) s1"
  define s3 where "s3 = exec (write_file (uapi E) (GPIO_BASE @ pin @ ''/direction'') ''out'') s2"
  have "ures_state (ulog s3) = Some R"
    unfolding s3_def s2_def s1_def using assms(1) o by (intro write_file_resources)
  then show ?thesis
    using assms(2) fails
    by (simp add: LED_init_def upath_simps del: exec_uapi flip: s1_def s2_def s3_def)
qed

lemma LED_deinit_resources:
  assumes "ures_state (ulog s) = Some (add_mset (U_fd (gpio l)) R)"
  shows "ures_state (ulog (exec (LED_deinit (uapi E) (Some l)) s)) = Some R"
  using assms by (simp add: LED_deinit_def run_simps)

subsection \<open>\<open>gpio/button.c\<close>\<close>

definition MAX_BTN :: nat where "MAX_BTN = 10"

datatype BTN_type = BTN_INCREASE | BTN_DECREASE | BTN_MODE | BTN_other int

fun btn_pin_of :: "BTN_type \<Rightarrow> string option" where
  "btn_pin_of BTN_INCREASE = Some ''3''"
| "btn_pin_of BTN_DECREASE = Some ''0''"
| "btn_pin_of BTN_MODE = Some ''2''"
| "btn_pin_of (BTN_other _) = None"

record 'w btn =
  btn_fd :: int
  btn_pin :: string
  btn_callback :: "('w, unit) state option"

record 'w btns =
  btn_mem :: "int \<Rightarrow> 'w btn"  \<comment> \<open>the structures by address\<close>
  btn_list :: "int list"
  btn_tail :: i32
  epoll_fd :: int
  bworld :: 'w

definition bcall :: "(ucall \<Rightarrow> ('w, int) state) \<Rightarrow> ucall \<Rightarrow> ('w btns, int) state" where
  "bcall U c = zoom bworld (\<lambda>w b. b\<lparr>bworld := w\<rparr>) (U c)"

lemma bcall_simps [simp, run_simps]:
  "result (bcall U c) b = result (U c) (bworld b)"
  "exec (bcall U c) b = b\<lparr>bworld := exec (U c) (bworld b)\<rparr>"
  by (simp_all add: bcall_def)

definition set_btn :: "int \<Rightarrow> ('w btn \<Rightarrow> 'w btn) \<Rightarrow> ('w btns, unit) state" where
  "set_btn a f = modify (\<lambda>b. b\<lparr>btn_mem := (btn_mem b)(a := f (btn_mem b a))\<rparr>)"

lemma set_btn_simps [simp, run_simps]:
  "exec (set_btn a f) b = b\<lparr>btn_mem := (btn_mem b)(a := f (btn_mem b a))\<rparr>"
  by (simp add: set_btn_def)

text \<open>\<open>True\<close>: the process goes on.\<close>

definition epoll_init :: "(ucall \<Rightarrow> ('w, int) state) \<Rightarrow> ('w btns, bool) state" where
  "epoll_init U = do {
     epfd \<leftarrow> bcall U Epoll_create;
     if epfd < 0 then do { uvoid (bcall U (Exit 1)); ret False }
     else do {
       modify (\<lambda>b. b\<lparr>epoll_fd := epfd\<rparr>);
       r \<leftarrow> bcall U (Pthread_create ''epoll_thread'');
       if r \<noteq> 0 then do { uvoid (bcall U (Exit 30)); ret False } else ret True
     }
   }"

definition BTN_add_epoll_event :: "(ucall \<Rightarrow> ('w, int) state) \<Rightarrow> int \<Rightarrow> ('w btns, unit) state" where
  "BTN_add_epoll_event U btn = do {
     ep \<leftarrow> gets epoll_fd;
     f \<leftarrow> gets (\<lambda>b. btn_fd (btn_mem b btn));
     uvoid (bcall U (Epoll_ctl ep f))
   }"

text \<open>Open a file, write to it, close it; \<open>False\<close> when it could not be opened.\<close>

definition try_write :: "(ucall \<Rightarrow> ('w, int) state) \<Rightarrow> string \<Rightarrow> string \<Rightarrow> ('w btns, bool) state" where
  "try_write U path txt = do {
     f \<leftarrow> bcall U (Open path);
     if f \<noteq> - 1 then do {
       uvoid (bcall U (Write f txt));
       uvoid (bcall U (Close f));
       ret True
     } else ret False
   }"

text \<open>The part of \<open>BTN_init\<close> under \<open>btn_list_mutex\<close>.\<close>

definition BTN_register :: "(ucall \<Rightarrow> ('w, int) state) \<Rightarrow> int \<Rightarrow> ('w btns, int option) state" where
  "BTN_register U btn = do {
     uvoid (bcall U (Plock Btn_list_lock));
     tail \<leftarrow> gets btn_tail;
     modify (\<lambda>b. b\<lparr>btn_tail := btn_tail b + 1\<rparr>);
     if int MAX_BTN \<le> sint tail then do {
       uvoid (bcall U (Punlock Btn_list_lock));
       f \<leftarrow> gets (\<lambda>b. btn_fd (btn_mem b btn));
       uvoid (bcall U (Close f));
       ret (Some (- 1))
     } else do {
       modify (\<lambda>b. b\<lparr>btn_list := (btn_list b)[nat (sint tail) := btn]\<rparr>);
       ok \<leftarrow> (if tail = 0 then epoll_init U else ret True);
       if \<not> ok then ret None
       else do {
         BTN_add_epoll_event U btn;
         uvoid (bcall U (Punlock Btn_list_lock));
         ret (Some 0)
       }
     }
   }"

definition BTN_init :: "(ucall \<Rightarrow> ('w, int) state) \<Rightarrow> int \<Rightarrow> BTN_type \<Rightarrow> ('w btns, int option) state" where
  "BTN_init U btn type = (if btn = 0 then ret (Some (- 1)) else do {
     uvoid (bcall U (Pmutex_init (Btn_lock btn)));
     set_btn btn (\<lambda>x. x\<lparr>btn_callback := None\<rparr>);
     (case btn_pin_of type of
        None \<Rightarrow> ret (Some (- 1))
      | Some pin \<Rightarrow> do {
          set_btn btn (\<lambda>x. x\<lparr>btn_pin := pin\<rparr>);
          try_write U GPIO_UNEXPORT pin;
          ok \<leftarrow> try_write U GPIO_EXPORT pin;
          if \<not> ok then ret (Some (- 1))
          else do {
            ok \<leftarrow> try_write U (GPIO_BASE @ pin @ ''/direction'') ''in'';
            if \<not> ok then ret (Some (- 1))
            else do {
              ok \<leftarrow> try_write U (GPIO_BASE @ pin @ ''/edge'') ''both'';
              if \<not> ok then ret (Some (- 1))
              else do {
                f \<leftarrow> bcall U (Open (GPIO_BASE @ pin @ ''/value''));
                if f = - 1 then ret (Some (- 1))
                else do {
                  set_btn btn (\<lambda>x. x\<lparr>btn_fd := f\<rparr>);
                  uvoid (bcall U (Pread f 2));
                  BTN_register U btn
                }
              }
            }
          }
        })
   })"

definition BTN_deinit :: "(ucall \<Rightarrow> ('w, int) state) \<Rightarrow> int \<Rightarrow> ('w btns, unit) state" where
  "BTN_deinit U btn = (if btn = 0 then ret () else do {
     uvoid (bcall U (Plock (Btn_lock btn)));
     f \<leftarrow> gets (\<lambda>b. btn_fd (btn_mem b btn));
     only_if (f \<noteq> - 1) (do {
       uvoid (bcall U (Close f));
       set_btn btn (\<lambda>x. x\<lparr>btn_fd := - 1\<rparr>)
     });
     uvoid (bcall U (Punlock (Btn_lock btn)));
     uvoid (bcall U (Pmutex_destroy (Btn_lock btn)))
   })"

definition BTN_set_callback ::
  "(ucall \<Rightarrow> ('w, int) state) \<Rightarrow> int \<Rightarrow> ('w, unit) state option \<Rightarrow> ('w btns, unit) state" where
  "BTN_set_callback U btn callback = do {
     uvoid (bcall U (Plock (Btn_lock btn)));
     set_btn btn (\<lambda>x. x\<lparr>btn_callback := callback\<rparr>);
     uvoid (bcall U (Punlock (Btn_lock btn)))
   }"

text \<open>
  One event of \<open>epoll_wait\<close>, whose data is the button's address; \<open>epoll_thread\<close> handles
  the events of each batch in order.
\<close>

definition btn_event :: "(ucall \<Rightarrow> ('w, int) state) \<Rightarrow> int \<Rightarrow> ('w btns, unit) state" where
  "btn_event U btn = (if btn = 0 then ret () else do {
     uvoid (bcall U (Plock (Btn_lock btn)));
     f \<leftarrow> gets (\<lambda>b. btn_fd (btn_mem b btn));
     (if f \<noteq> - 1 then do {
        v \<leftarrow> bcall U (Pread f 2);
        (if v = 49 then do {
           cb \<leftarrow> gets (\<lambda>b. btn_callback (btn_mem b btn));
           (case cb of None \<Rightarrow> ret ()
            | Some m \<Rightarrow> zoom bworld (\<lambda>w b. b\<lparr>bworld := w\<rparr>) m)
         } else ret ())
      } else ret ());
     uvoid (bcall U (Punlock (Btn_lock btn)))
   })"

fun btn_events :: "(ucall \<Rightarrow> ('w, int) state) \<Rightarrow> int list \<Rightarrow> ('w btns, unit) state" where
  "btn_events U [] = ret ()"
| "btn_events U (e # es) = do { btn_event U e; btn_events U es }"

text \<open>The thread, over the batches that \<open>epoll_wait\<close> delivers (\<open>None\<close>: it failed).\<close>

fun epoll_thread :: "(ucall \<Rightarrow> ('w, int) state) \<Rightarrow> int list option list \<Rightarrow> ('w btns, unit) state" where
  "epoll_thread U [] = ret ()"
| "epoll_thread U (None # bs) = epoll_thread U bs"
| "epoll_thread U (Some es # bs) = do { btn_events U es; epoll_thread U bs }"

lemma btn_paths_fit:
  assumes "btn_pin_of type = Some pin"
  shows "length (GPIO_BASE @ pin) < 32" "length (GPIO_BASE @ pin @ ''/direction'') < 100" "length pin < 32"
  using assms by (auto simp: GPIO_BASE_def elim!: btn_pin_of.elims)

text \<open>The list: as long as the array, the first \<open>tail\<close> entries registered.\<close>

definition btns_inv :: "'w btns \<Rightarrow> bool" where
  "btns_inv b \<longleftrightarrow> length (btn_list b) = MAX_BTN \<and> 0 \<le> sint (btn_tail b)"

lemma epoll_init_frame [simp]:
  "btn_list (exec (epoll_init U) b) = btn_list b" "btn_tail (exec (epoll_init U) b) = btn_tail b"
  "btn_mem (exec (epoll_init U) b) = btn_mem b"
  by (simp_all add: epoll_init_def run_simps)

lemma try_write_frame [simp]:
  "btn_list (exec (try_write U p t) b) = btn_list b" "btn_tail (exec (try_write U p t) b) = btn_tail b"
  "btn_mem (exec (try_write U p t) b) = btn_mem b" "epoll_fd (exec (try_write U p t) b) = epoll_fd b"
  by (simp_all add: try_write_def run_simps)

lemma BTN_register_list:
  assumes "btns_inv b" and "result (BTN_register U btn) b = Some 0"
  shows "nat (sint (btn_tail b)) < MAX_BTN"
    and "btn_list (exec (BTN_register U btn) b) = (btn_list b)[nat (sint (btn_tail b)) := btn]"
    and "btn_tail (exec (BTN_register U btn) b) = btn_tail b + 1"
  using assms
  by (auto simp: BTN_register_def run_simps BTN_add_epoll_event_def btns_inv_def split: if_splits)

lemma BTN_register_full:
  assumes "int MAX_BTN \<le> sint (btn_tail b)"
  shows "result (BTN_register U btn) b = Some (- 1)"
    and "btn_list (exec (BTN_register U btn) b) = btn_list b"
  using assms by (simp_all add: BTN_register_def run_simps)

text \<open>The log behind the buttons, and what each call adds to it.\<close>

definition blog :: "('z ulog_scheme) btns \<Rightarrow> uevent list" where
  "blog b = ulog (bworld b)"

lemma bcall_views:
  "result (bcall (uapi E) c) b = uret E (blog b) c"
  "blog (exec (bcall (uapi E) c) b) = blog b @ [(c, uret E (blog b) c)]"
  "btn_mem (exec (bcall U c) b') = btn_mem b'" "btn_tail (exec (bcall U c) b') = btn_tail b'"
  "btn_list (exec (bcall U c) b') = btn_list b'" "epoll_fd (exec (bcall U c) b') = epoll_fd b'"
  by (simp_all add: blog_def)

lemma blog_updates [simp]:
  "blog (b\<lparr>btn_mem := m\<rparr>) = blog b" "blog (b\<lparr>btn_list := l\<rparr>) = blog b"
  "blog (b\<lparr>btn_tail := t\<rparr>) = blog b" "blog (b\<lparr>epoll_fd := e\<rparr>) = blog b"
  by (simp_all add: blog_def)

lemmas bpath_simps = result_bind exec_bind result_if exec_if result_let exec_let
  result_case_option exec_case_option result_exec_basic exec_uvoid bcall_views

lemma try_write_resources:
  assumes "ures_state (blog b) = Some R" and "\<forall>h p. uret E h (Open p) < 0 \<longrightarrow> uret E h (Open p) = - 1"
  shows "ures_state (blog (exec (try_write (uapi E) path txt) b)) = Some R"
proof -
  have "uret E (blog b) (Open path) \<noteq> - 1 \<Longrightarrow> \<not> uret E (blog b) (Open path) < 0"
    using assms(2) by blast
  then show ?thesis
    using assms(1) by (auto simp: try_write_def bpath_simps simp del: bcall_simps)
qed

text \<open>
  What registering a button adds: the button's descriptor, and with the first button the epoll
  descriptor and its thread.
\<close>

definition registered_owned :: "i32 \<Rightarrow> int \<Rightarrow> int \<Rightarrow> ures multiset" where
  "registered_owned tail ep f = (if tail = 0 then {#U_thread ''epoll_thread'', U_fd ep#} else {#}) + {#U_fd f#}"

text \<open>The buttons behind the first rely on the epoll descriptor of the first.\<close>

definition epoll_there :: "i32 \<Rightarrow> 'w btns \<Rightarrow> ures multiset \<Rightarrow> bool" where
  "epoll_there t b R \<longleftrightarrow> btn_tail b = t \<and> (t \<noteq> 0 \<longrightarrow> U_fd (epoll_fd b) \<in># R)"

lemma BTN_register_resources:
  assumes "ures_state (blog b) = Some (add_mset (U_fd (btn_fd (btn_mem b btn))) R)"
    and "epoll_there (btn_tail b) b R" and "result (BTN_register (uapi E) btn) b = Some r"
  shows "ures_state (blog (exec (BTN_register (uapi E) btn) b)) =
    Some (if r \<noteq> 0 then R
          else R + registered_owned (btn_tail b) (epoll_fd (exec (BTN_register (uapi E) btn) b)) (btn_fd (btn_mem b btn)))"
  using assms
  by (auto simp: BTN_register_def epoll_init_def BTN_add_epoll_event_def bpath_simps registered_owned_def
      epoll_there_def simp del: bcall_simps split: if_splits)

text \<open>A computation that returns an error and owns what it owned, or returns 0 and registers the button.\<close>

definition btn_spec ::
  "i32 \<Rightarrow> ures multiset \<Rightarrow> int \<Rightarrow> (('z ulog_scheme) btns, int option) state \<Rightarrow> bool" where
  "btn_spec t R btn m \<longleftrightarrow> (\<forall>b r. ures_state (blog b) = Some R \<longrightarrow> epoll_there t b R \<longrightarrow>
     result m b = Some r \<longrightarrow> ures_state (blog (exec m b)) = Some (if r \<noteq> 0 then R
       else R + registered_owned t (epoll_fd (exec m b)) (btn_fd (btn_mem (exec m b) btn))))"

lemma btn_specD:
  "btn_spec t R btn m \<Longrightarrow> ures_state (blog b) = Some R \<Longrightarrow> epoll_there t b R \<Longrightarrow> result m b = Some r \<Longrightarrow>
     ures_state (blog (exec m b)) = Some (if r \<noteq> 0 then R
       else R + registered_owned t (epoll_fd (exec m b)) (btn_fd (btn_mem (exec m b) btn)))"
  by (simp add: btn_spec_def)

lemma btn_spec_error: "r \<noteq> 0 \<Longrightarrow> btn_spec t R btn (ret (Some r))"
  by (simp add: btn_spec_def)

lemma btn_spec_bind:
  assumes "\<And>x. btn_spec t R btn (f x)"
    and "\<And>b. ures_state (blog b) = Some R \<Longrightarrow> ures_state (blog (exec n b)) = Some R"
    and "\<And>b. btn_tail (exec n b) = btn_tail b" and "\<And>b. epoll_fd (exec n b) = epoll_fd b"
  shows "btn_spec t R btn (n \<bind> f)"
  unfolding btn_spec_def result_bind exec_bind
  by (intro allI impI btn_specD [OF assms(1)]) (simp_all add: assms(2-4) epoll_there_def)

lemma btn_spec_try:
  assumes "btn_spec t R btn m" and "\<forall>h p. uret E h (Open p) < 0 \<longrightarrow> uret E h (Open p) = - 1"
  shows "btn_spec t R btn (do { ok \<leftarrow> try_write (uapi E) path txt; if \<not> ok then ret (Some (- 1)) else m })"
  by (rule btn_spec_bind) (simp_all add: assms btn_spec_error try_write_resources)

lemma btn_spec_write:
  assumes "btn_spec t R btn m" and "\<forall>h p. uret E h (Open p) < 0 \<longrightarrow> uret E h (Open p) = - 1"
  shows "btn_spec t R btn (do { try_write (uapi E) path txt; m })"
  by (rule btn_spec_bind) (simp_all add: assms try_write_resources)

lemma BTN_register_mem [simp]: "btn_mem (exec (BTN_register U btn) b) = btn_mem b"
  by (simp add: BTN_register_def run_simps BTN_add_epoll_event_def)

lemma btn_spec_open:
  assumes "\<forall>h p. uret E h (Open p) < 0 \<longrightarrow> uret E h (Open p) = - 1"
  shows "btn_spec t R btn (do {
    f \<leftarrow> bcall (uapi E) (Open path);
    if f = - 1 then ret (Some (- 1))
    else do {
      set_btn btn (\<lambda>x. x\<lparr>btn_fd := f\<rparr>);
      uvoid (bcall (uapi E) (Pread f 2));
      BTN_register (uapi E) btn
    } })"
  unfolding btn_spec_def
proof (intro allI impI)
  fix b :: "('z ulog_scheme) btns" and r
  let ?f = "uret E (blog b) (Open path)"
  let ?m = "do {
    f \<leftarrow> bcall (uapi E) (Open path);
    if f = - 1 then ret (Some (- 1))
    else do {
      set_btn btn (\<lambda>x. x\<lparr>btn_fd := f\<rparr>);
      uvoid (bcall (uapi E) (Pread f 2));
      BTN_register (uapi E) btn
    } }"
  let ?b = "exec (bcall (uapi E) (Pread ?f 2)) (exec (set_btn btn (\<lambda>x. x\<lparr>btn_fd := ?f\<rparr>))
    (exec (bcall (uapi E) (Open path)) b))"
  assume b: "ures_state (blog b) = Some R" "epoll_there t b R" "result ?m b = Some r"
  have views: "btn_mem ?b btn = (btn_mem b btn)\<lparr>btn_fd := ?f\<rparr>" "btn_tail ?b = t" "epoll_there (btn_tail ?b) ?b R"
    using b(2) by (simp_all add: bcall_views epoll_there_def del: bcall_simps)
  show "ures_state (blog (exec ?m b)) = Some (if r \<noteq> 0 then R
       else R + registered_owned t (epoll_fd (exec ?m b)) (btn_fd (btn_mem (exec ?m b) btn)))"
  proof (cases "?f = - 1")
    case True
    then show ?thesis using b by (auto simp: bpath_simps simp del: bcall_simps)
  next
    case False
    then have pos: "\<not> ?f < 0" using assms by blast
    have run: "exec ?m b = exec (BTN_register (uapi E) btn) ?b"
      "result ?m b = result (BTN_register (uapi E) btn) ?b"
      using False by (simp_all add: bpath_simps del: bcall_simps set_btn_simps)
    have "ures_state (blog ?b) = Some (add_mset (U_fd (btn_fd (btn_mem ?b btn))) R)"
      using b(1) pos by (simp add: bcall_views del: bcall_simps)
    from BTN_register_resources [OF this views(3), of E r] b(3) show ?thesis
      by (simp only: run BTN_register_mem views)
  qed
qed

lemma BTN_init_resources:
  assumes "ures_state (blog b) = Some R" and "epoll_there (btn_tail b) b R"
    and "\<forall>h p. uret E h (Open p) < 0 \<longrightarrow> uret E h (Open p) = - 1"
    and "result (BTN_init (uapi E) btn type) b = Some r"
  defines "b' \<equiv> exec (BTN_init (uapi E) btn type) b"
  shows "ures_state (blog b') = Some (if r \<noteq> 0 then R
    else R + registered_owned (btn_tail b) (epoll_fd b') (btn_fd (btn_mem b' btn)))"
proof (cases "btn = 0 \<or> btn_pin_of type = None")
  case True
  then show ?thesis using assms(1,4) unfolding b'_def
    by (auto simp: BTN_init_def bpath_simps simp del: bcall_simps split: if_splits)
next
  case False
  then obtain pin where pin: "btn \<noteq> 0" "btn_pin_of type = Some pin" by auto
  note rules = btn_spec_write [OF _ assms(3)] btn_spec_try [OF _ assms(3)] btn_spec_open [OF assms(3)]
  have "btn_spec (btn_tail b) R btn (BTN_init (uapi E) btn type)"
    unfolding BTN_init_def using pin
    by (simp, intro btn_spec_bind [where n = "uvoid (bcall (uapi E) (Pmutex_init (Btn_lock btn)))"]
        btn_spec_bind [where n = "set_btn btn f" for f] rules)
      (simp_all add: bcall_views del: bcall_simps)
  from btn_specD [OF this assms(1,2,4)] show ?thesis unfolding b'_def .
qed

text \<open>An event: the callback runs when the button reads 1, with the button's mutex held.\<close>

lemma btn_event_world:
  assumes "btn \<noteq> 0" and "btn_fd (btn_mem b btn) \<noteq> - 1"
  shows "bworld (exec (btn_event U btn) b) =
    (let w1 = exec (U (Plock (Btn_lock btn))) (bworld b);
         w2 = exec (U (Pread (btn_fd (btn_mem b btn)) 2)) w1;
         w3 = (if result (U (Pread (btn_fd (btn_mem b btn)) 2)) w1 = 49
               then (case btn_callback (btn_mem b btn) of None \<Rightarrow> w2 | Some m \<Rightarrow> exec m w2) else w2)
     in exec (U (Punlock (Btn_lock btn))) w3)"
  using assms by (simp add: btn_event_def run_simps Let_def split: option.split)

lemma btn_event_frame [simp]:
  "btn_mem (exec (btn_event U btn) b) = btn_mem b" "btn_tail (exec (btn_event U btn) b) = btn_tail b"
  "btn_list (exec (btn_event U btn) b) = btn_list b"
  by (simp_all add: btn_event_def run_simps split: option.split)

text \<open>What no call changes, these functions do not change.\<close>

lemma keeps_write_file [keeps_rules]: "(\<And>c. keeps P (U c)) \<Longrightarrow> keeps P (write_file U path txt)"
  unfolding write_file_def by (intro keeps_rules)

lemma keeps_LED_init [keeps_rules]: "(\<And>c. keeps P (U c)) \<Longrightarrow> keeps P (LED_init U l type)"
  unfolding LED_init_def Let_def by (intro keeps_rules)

abbreviation behind :: "('w \<Rightarrow> 'b) \<Rightarrow> 'w btns \<Rightarrow> 'b" where
  "behind P \<equiv> \<lambda>b. P (bworld b)"

lemma keeps_bcall [keeps_rules]: "keeps P (U c) \<Longrightarrow> keeps (behind P) (bcall U c)"
  by (simp add: keeps_def)

lemma keeps_set_btn [keeps_rules]: "keeps (behind P) (set_btn a f)"
  by (simp add: keeps_def)

lemma keeps_BTN_init [keeps_rules]: "(\<And>c. keeps P (U c)) \<Longrightarrow> keeps (behind P) (BTN_init U btn type)"
  unfolding BTN_init_def BTN_register_def epoll_init_def BTN_add_epoll_event_def try_write_def
  by (intro keeps_rules keeps_modify) simp_all

lemma keeps_BTN_set_callback [keeps_rules]:
  "(\<And>c. keeps P (U c)) \<Longrightarrow> keeps (behind P) (BTN_set_callback U btn cb)"
  unfolding BTN_set_callback_def by (intro keeps_rules)

lemma LED_init_some: "fst (result (LED_init U (Some l) type) w) = 0 \<Longrightarrow>
    snd (result (LED_init U (Some l) type) w) \<noteq> None"
  by (auto simp: LED_init_def write_file_def run_simps Let_def split: option.splits if_splits)

lemma BTN_set_callback_mem [simp]:
  "btn_mem (exec (BTN_set_callback U btn cb) b) =
     (btn_mem b)(btn := (btn_mem b btn)\<lparr>btn_callback := cb\<rparr>)"
  by (simp add: BTN_set_callback_def run_simps)

end
