(* ===== verification/App.thy ===== *)
theory App
  imports SysfsClient Gpio
begin

section \<open>The daemon's application logic: \<open>daemon/application/app.c\<close>\<close>

text \<open>
  The operations behind the buttons and the messages (read, compute, write back, under
  \<open>app_lock\<close>), and the queue of LED pulses with its worker thread. The statics are
  \<open>'w app\<close>, the operating system is \<open>F\<close> on the world \<open>'w\<close>. Lemmas: the effect of
  each operation on the regulator in both modes, inside the contract of its files; for the
  queue, a step relation with its invariant: every trigger is one pulse, none is lost, and
  the worker does not sleep on a pending one.
\<close>

definition GAP_PERIOD_MS :: u32 where "GAP_PERIOD_MS = 50"

record 'w app =
  app_led :: "led option"
  pending_animations :: i32
  keep_running :: bool
  aworld :: 'w

definition app_statics :: "'w \<Rightarrow> 'w app" where
  "app_statics w = \<lparr>app_led = None, pending_animations = 0, keep_running = True, aworld = w\<rparr>"

definition in_app :: "('w, 'a) state \<Rightarrow> ('w app, 'a) state" where
  "in_app m = zoom aworld (\<lambda>w a. a\<lparr>aworld := w\<rparr>) m"

lemma in_app_simps [simp, run_simps]:
  "result (in_app m) a = result m (aworld a)"
  "exec (in_app m) a = a\<lparr>aworld := exec m (aworld a)\<rparr>"
  by (simp_all add: in_app_def)

definition btn_set_led :: "led option \<Rightarrow> ('w app, unit) state" where
  "btn_set_led l = (case l of None \<Rightarrow> ret () | Some _ \<Rightarrow> modify (\<lambda>a. a\<lparr>app_led := l\<rparr>))"

definition set_period :: "'w os \<Rightarrow> u32 \<Rightarrow> ('w app, unit) state" where
  "set_period F period_ms = in_app (sysfs_set_period F period_ms)"

definition get_period :: "'w os \<Rightarrow> ('w app, u32) state" where
  "get_period F = in_app (sysfs_get_period F)"

definition increase_period :: "'w os \<Rightarrow> ('w app, unit) state" where
  "increase_period F = do {
     uvoid (in_app (ocall F (Plock App_lock)));
     current_period \<leftarrow> in_app (sysfs_get_period F);
     set_period F (current_period + GAP_PERIOD_MS);
     uvoid (in_app (ocall F (Punlock App_lock)))
   }"

definition decrease_period :: "'w os \<Rightarrow> ('w app, unit) state" where
  "decrease_period F = do {
     uvoid (in_app (ocall F (Plock App_lock)));
     current_period \<leftarrow> in_app (sysfs_get_period F);
     (if GAP_PERIOD_MS < current_period then set_period F (current_period - GAP_PERIOD_MS) else ret ());
     uvoid (in_app (ocall F (Punlock App_lock)))
   }"

definition get_mode :: "'w os \<Rightarrow> ('w app, i32) state" where
  "get_mode F = in_app (sysfs_get_mode F)"

definition set_mode :: "'w os \<Rightarrow> i32 \<Rightarrow> ('w app, unit) state" where
  "set_mode F mode = in_app (sysfs_set_mode F mode)"

definition mode_toggle :: "'w os \<Rightarrow> ('w app, unit) state" where
  "mode_toggle F = do {
     uvoid (in_app (ocall F (Plock App_lock)));
     current_mode \<leftarrow> in_app (sysfs_get_mode F);
     set_mode F (current_mode XOR 1);
     uvoid (in_app (ocall F (Punlock App_lock)))
   }"

definition get_temperature :: "(rat \<Rightarrow> 'f) \<Rightarrow> 'w os \<Rightarrow> ('w app, 'f) state" where
  "get_temperature rnd F = in_app (sysfs_get_temperature rnd F)"

definition trigger_pulse :: "'w os \<Rightarrow> ('w app, unit) state" where
  "trigger_pulse F = do {
     uvoid (in_app (ocall F (Plock Anim_lock)));
     modify (\<lambda>a. a\<lparr>pending_animations := pending_animations a + 1\<rparr>);
     uvoid (in_app (ocall F Pcond_signal));
     uvoid (in_app (ocall F (Punlock Anim_lock)))
   }"

definition btn_increase_period :: "'w os \<Rightarrow> ('w app, unit) state" where
  "btn_increase_period F = do { trigger_pulse F; increase_period F }"

definition btn_decrease_period :: "'w os \<Rightarrow> ('w app, unit) state" where
  "btn_decrease_period F = do { trigger_pulse F; decrease_period F }"

definition init_animations :: "'w os \<Rightarrow> ('w app, unit) state" where
  "init_animations F = uvoid (in_app (ocall F (Pthread_create ''animation_worker'')))"

subsection \<open>The operations on a regulator that keeps its contract\<close>

context regulator_files
begin

abbreviation ainv :: "'w app \<Rightarrow> bool" where "ainv a \<equiv> invar (aworld a)"
abbreviation amode :: "'w app \<Rightarrow> u32" where "amode a \<equiv> mode_of (aworld a)"
abbreviation aperiod :: "'w app \<Rightarrow> u32" where "aperiod a \<equiv> period_of (aworld a)"

lemmas app_ops = set_period_def get_period_def increase_period_def decrease_period_def
  get_mode_def set_mode_def mode_toggle_def get_temperature_def trigger_pulse_def
  btn_increase_period_def btn_decrease_period_def

lemmas client_effects = get_mode_value get_period_value get_temperature_value getters_frame
  set_mode_effect set_period_effect

lemma increase_period_effect:
  assumes "ainv a"
  shows "aperiod (exec (increase_period F) a) =
      (if amode a = 0 \<and> aperiod a + 50 \<noteq> 0 then aperiod a + 50 else aperiod a)"
    and "amode (exec (increase_period F) a) = amode a" and "ainv (exec (increase_period F) a)"
  using assms
  by (simp_all add: app_ops run_simps laws client_effects GAP_PERIOD_MS_def word_gt_0)

lemma decrease_period_effect:
  assumes "ainv a"
  shows "aperiod (exec (decrease_period F) a) =
      (if amode a = 0 \<and> 50 < aperiod a then aperiod a - 50 else aperiod a)"
    and "amode (exec (decrease_period F) a) = amode a" and "ainv (exec (decrease_period F) a)"
  using assms
  by (auto simp: app_ops run_simps laws client_effects GAP_PERIOD_MS_def word_gt_0)

lemma mode_toggle_effect:
  assumes "ainv a"
  shows "amode (exec (mode_toggle F) a) = (if amode a = 0 then 1 else 0)"
    and "aperiod (exec (mode_toggle F) a) = aperiod a" and "ainv (exec (mode_toggle F) a)"
  using assms mode_range [of "aworld a"]
  by (auto simp: app_ops run_simps laws client_effects)

lemma set_period_app:
  assumes "ainv a"
  shows "aperiod (exec (set_period F v) a) = (if amode a = 0 \<and> 0 < v then v else aperiod a)"
    and "amode (exec (set_period F v) a) = amode a" and "ainv (exec (set_period F v) a)"
  using assms by (simp_all add: app_ops run_simps client_effects)

lemma set_mode_app:
  assumes "ainv a"
  shows "amode (exec (set_mode F v) a) = (if v = 0 \<or> v = 1 then v else amode a)"
    and "aperiod (exec (set_mode F v) a) = aperiod a" and "ainv (exec (set_mode F v) a)"
  using assms by (simp_all add: app_ops run_simps client_effects)

lemma trigger_pulse_effect:
  "pending_animations (exec (trigger_pulse F) a) = pending_animations a + 1"
  "amode (exec (trigger_pulse F) a) = amode a" "aperiod (exec (trigger_pulse F) a) = aperiod a"
  "ainv (exec (trigger_pulse F) a) = ainv a"
  "keep_running (exec (trigger_pulse F) a) = keep_running a"
  by (simp_all add: trigger_pulse_def run_simps laws)

lemma app_locks:
  assumes "L (aworld a) = Some hs" and "\<forall>h \<in> set hs. ulock_rank h < 1"
  shows "L (aworld (exec (increase_period F) a)) = Some hs"
    "L (aworld (exec (decrease_period F) a)) = Some hs" "L (aworld (exec (mode_toggle F) a)) = Some hs"
    "L (aworld (exec (trigger_pulse F) a)) = Some hs" "L (aworld (exec (set_period F v) a)) = Some hs"
    "L (aworld (exec (set_mode F m) a)) = Some hs"
proof -
  have h2: "\<forall>h \<in> set hs. ulock_rank h < 2" "\<forall>h \<in> set (App_lock # hs). ulock_rank h < 2"
    using assms(2) by auto
  note inner = client_locks [OF _ h2(1)] client_locks [OF _ h2(2)]
  show "L (aworld (exec (increase_period F) a)) = Some hs"
    "L (aworld (exec (decrease_period F) a)) = Some hs" "L (aworld (exec (mode_toggle F) a)) = Some hs"
    "L (aworld (exec (trigger_pulse F) a)) = Some hs" "L (aworld (exec (set_period F v) a)) = Some hs"
    "L (aworld (exec (set_mode F m) a)) = Some hs"
    using assms by (simp_all add: app_ops run_simps ulogs_locksD [OF call_locks] inner)
qed

text \<open>The two buttons undo each other while the period stays in range.\<close>

lemma increase_decrease:
  assumes "ainv a" and "amode a = 0" and "0 < aperiod a" and "uint (aperiod a) + 50 < 2 ^ 32"
  shows "aperiod (exec (decrease_period F) (exec (increase_period F) a)) = aperiod a"
proof -
  have u: "uint (aperiod a + 50) = uint (aperiod a) + 50"
    using assms(4) by (simp add: uint_plus_if')
  then have "aperiod a + 50 \<noteq> 0" using uint_ge_0 [of "aperiod a"] by (metis add_pos_nonneg
        add.commute order_less_irrefl uint_0_iff zero_less_numeral)
  moreover have "50 < aperiod a + 50"
    using u assms(3) by (simp add: word_less_def)
  ultimately show ?thesis
    using increase_period_effect [OF assms(1)] decrease_period_effect [OF increase_period_effect(3) [OF assms(1)]]
      assms(2) by (auto simp: word_gt_0)
qed

end

subsection \<open>The animation queue\<close>

text \<open>
  Where the worker stands. From \<open>W_top\<close> it tests \<open>keep_running\<close> and takes
  \<open>anim_lock\<close>; in \<open>W_wait\<close> it sleeps on the condition, the lock released; in
  \<open>W_pulse\<close> it has taken one animation and performs it.
\<close>

datatype wphase = W_top | W_wait | W_pulse | W_done

text \<open>With \<open>anim_lock\<close> held: the test of the inner loop and what follows it.\<close>

definition worker_locked :: "'w os \<Rightarrow> ('w app, wphase) state" where
  "worker_locked F = do {
     n \<leftarrow> gets pending_animations;
     run \<leftarrow> gets keep_running;
     if n = 0 \<and> run then do {
       uvoid (in_app (ocall F (Punlock Anim_lock)));  \<comment> \<open>inside \<open>pthread_cond_wait\<close>\<close>
       ret W_wait
     } else if \<not> run then do {
       uvoid (in_app (ocall F (Punlock Anim_lock)));
       ret W_done
     } else do {
       modify (\<lambda>a. a\<lparr>pending_animations := pending_animations a - 1\<rparr>);
       uvoid (in_app (ocall F (Punlock Anim_lock)));
       ret W_pulse
     }
   }"

definition worker_pulse :: "'w os \<Rightarrow> ('w app, unit) state" where
  "worker_pulse F = do {
     l \<leftarrow> gets app_led;
     only_if (l \<noteq> None) (do {
       in_app (LED_on (ocall F) l);
       uvoid (in_app (ocall F (Usleep 20000)));
       in_app (LED_off (ocall F) l);
       uvoid (in_app (ocall F (Usleep 50000)))
     })
   }"

text \<open>One step of \<open>animation_worker\<close>, from one of its points to the next.\<close>

definition worker_section :: "'w os \<Rightarrow> wphase \<Rightarrow> ('w app, wphase) state" where
  "worker_section F p = (case p of
       W_top \<Rightarrow> do {
         run \<leftarrow> gets keep_running;
         if \<not> run then ret W_done
         else do {
           uvoid (in_app (ocall F (Plock Anim_lock)));
           worker_locked F
         } }
     | W_wait \<Rightarrow> do {
         uvoid (in_app (ocall F (Plock Anim_lock)));
         worker_locked F }
     | W_pulse \<Rightarrow> do { worker_pulse F; ret W_top }
     | W_done \<Rightarrow> ret W_done)"

text \<open>
  The operating system seen with its condition variable: beside the world of \<open>F\<close> it counts the calls of
  \<open>pthread_cond_signal\<close>.
\<close>

record 'w condvar =
  cv_world :: 'w
  cv_signals :: nat

definition in_condvar :: "('w, 'a) state \<Rightarrow> ('w condvar, 'a) state" where
  "in_condvar = zoom cv_world (\<lambda>w v. v\<lparr>cv_world := w\<rparr>)"

definition condvar_os :: "'w os \<Rightarrow> 'w condvar os" where
  "condvar_os F = \<lparr>
     ocall = (\<lambda>c. do {
       r \<leftarrow> in_condvar (ocall F c);
       only_if (c = Pcond_signal) (modify (\<lambda>v. v\<lparr>cv_signals := Suc (cv_signals v)\<rparr>));
       ret r
     }),
     oread = (\<lambda>p. in_condvar (oread F p)),
     owrite = (\<lambda>p t. in_condvar (owrite F p t))\<rparr>"

text \<open>
  The worker and the triggers, with three fields kept for the proofs: the triggers so far, the
  pulses finished, and whether a signal is under way to a sleeping worker, which is the case
  when \<open>pthread_cond_signal\<close> was called while it slept. A sleeping worker may also wake without a
  signal.
\<close>

record 'w anim =
  aapp :: "'w condvar app"
  wphase :: wphase
  triggers :: nat
  pulses :: nat
  signalled :: bool

datatype anim_act = Trigger | Worker

definition signals_of :: "'w condvar app \<Rightarrow> nat" where
  "signals_of a = cv_signals (aworld a)"

definition triggered :: "'w os \<Rightarrow> 'w anim \<Rightarrow> 'w anim" where
  "triggered F c = (let a = exec (trigger_pulse (condvar_os F)) (aapp c)
     in c\<lparr>aapp := a, triggers := Suc (triggers c),
          signalled := signalled c \<or> (wphase c = W_wait \<and> signals_of (aapp c) < signals_of a)\<rparr>)"

definition worked :: "'w os \<Rightarrow> 'w anim \<Rightarrow> 'w anim" where
  "worked F c = c\<lparr>aapp := exec (worker_section (condvar_os F) (wphase c)) (aapp c),
      wphase := result (worker_section (condvar_os F) (wphase c)) (aapp c),
      pulses := (if wphase c = W_pulse then Suc (pulses c) else pulses c), signalled := False\<rparr>"

inductive anim_step :: "'w os \<Rightarrow> 'w anim \<Rightarrow> anim_act \<Rightarrow> 'w anim \<Rightarrow> bool" for F where
  anim_trigger: "anim_step F c Trigger (triggered F c)"
| anim_worker: "wphase c \<noteq> W_done \<Longrightarrow> anim_step F c Worker (worked F c)"

inductive_cases anim_stepE: "anim_step F c act c'"

definition anim_start :: "'w condvar app \<Rightarrow> 'w anim" where
  "anim_start a = \<lparr>aapp = a, wphase = W_top, triggers = 0, pulses = 0, signalled = False\<rparr>"

inductive anim_reach :: "'w os \<Rightarrow> 'w condvar app \<Rightarrow> 'w anim \<Rightarrow> bool" for F a where
  anim_init: "anim_reach F a (anim_start a)"
| anim_next: "anim_reach F a c \<Longrightarrow> anim_step F c act c' \<Longrightarrow> anim_reach F a c'"

lemma worker_frame [simp]:
  "app_led (exec (worker_section F p) a) = app_led a"
  "keep_running (exec (worker_section F p) a) = keep_running a"
  by (cases p; simp add: worker_section_def worker_locked_def worker_pulse_def run_simps)+

lemma worker_phase:
  assumes "keep_running a"
  shows "result (worker_section F p) a = (case p of
      W_pulse \<Rightarrow> W_top | W_done \<Rightarrow> W_done
    | _ \<Rightarrow> if pending_animations a = 0 then W_wait else W_pulse)"
    and "pending_animations (exec (worker_section F p) a) =
      (if (p = W_top \<or> p = W_wait) \<and> pending_animations a \<noteq> 0 then pending_animations a - 1
       else pending_animations a)"
  using assms
  by (cases p; simp add: worker_section_def worker_locked_def worker_pulse_def run_simps)+

lemma trigger_frame [simp]:
  "pending_animations (exec (trigger_pulse F) a) = pending_animations a + 1"
  "keep_running (exec (trigger_pulse F) a) = keep_running a"
  "app_led (exec (trigger_pulse F) a) = app_led a"
  by (simp_all add: trigger_pulse_def run_simps)

lemma trigger_signals: "signals_of (exec (trigger_pulse (condvar_os F)) a) = Suc (signals_of a)"
  by (simp add: trigger_pulse_def run_simps condvar_os_def in_condvar_def signals_of_def)

text \<open>The invariant of the queue, for runs of at most \<open>2 ^ 31 - 1\<close> triggers.\<close>

definition anim_inv :: "'w anim \<Rightarrow> bool" where
  "anim_inv c \<longleftrightarrow> keep_running (aapp c) \<and> wphase c \<noteq> W_done \<and>
     (triggers c < 2 ^ 31 \<longrightarrow>
        triggers c = pulses c + unat (pending_animations (aapp c)) + (if wphase c = W_pulse then 1 else 0)) \<and>
     (wphase c = W_wait \<longrightarrow> pending_animations (aapp c) \<noteq> 0 \<longrightarrow> signalled c)"

lemma unat_minus_1_nonzero: "(x :: i32) \<noteq> 0 \<Longrightarrow> unat (x - 1) = unat x - 1"
  by (metis unat_minus_one)

lemma unat_plus_1_small: "unat (x :: i32) < 2 ^ 31 \<Longrightarrow> unat (x + 1) = unat x + 1"
  by (subst unat_add_lem [THEN iffD1]) simp_all

lemma anim_step_inv:
  assumes "anim_step F c act c'" and "anim_inv c"
  shows "anim_inv c'"
  using assms(1)
proof cases
  case anim_trigger
  have "unat (pending_animations (aapp c) + 1) = unat (pending_animations (aapp c)) + 1"
    if "Suc (triggers c) < 2 ^ 31"
    using that assms(2) by (intro unat_plus_1_small) (auto simp: anim_inv_def)
  then show ?thesis using anim_trigger assms(2) by (auto simp: anim_inv_def triggered_def Let_def trigger_signals)
next
  case anim_worker
  have nz: "unat (pending_animations (aapp c)) \<noteq> 0" if "pending_animations (aapp c) \<noteq> 0"
    using that by (simp add: unat_eq_zero)
  have run: "keep_running (aapp c)" using assms(2) by (simp add: anim_inv_def)
  show ?thesis
    using anim_worker assms(2) nz
    by (cases "wphase c"; cases "pending_animations (aapp c) = 0";
        auto simp: anim_inv_def worked_def worker_phase [OF run] unat_minus_1_nonzero)
qed

text \<open>A worker with an animation pending takes it with its next section, unless it still shows one.\<close>

lemma anim_worker_takes:
  assumes "anim_inv c" and "pending_animations (aapp c) \<noteq> 0" "wphase c \<noteq> W_pulse"
  shows "anim_step F c Worker (worked F c)" "wphase (worked F c) = W_pulse"
    "pending_animations (aapp (worked F c)) = pending_animations (aapp c) - 1"
proof -
  have run: "keep_running (aapp c)" "wphase c \<noteq> W_done" using assms(1) by (simp_all add: anim_inv_def)
  show "anim_step F c Worker (worked F c)" by (rule anim_worker [OF run(2)])
  show "wphase (worked F c) = W_pulse" "pending_animations (aapp (worked F c)) = pending_animations (aapp c) - 1"
    using run assms(2,3) by (cases "wphase c"; simp add: worked_def worker_phase [OF run(1)])+
qed

lemma anim_reach_inv: "anim_reach F a c \<Longrightarrow> keep_running a \<Longrightarrow> pending_animations a = 0 \<Longrightarrow> anim_inv c"
proof (induction rule: anim_reach.induct)
  case anim_init
  then show ?case by (simp add: anim_inv_def anim_start_def)
next
  case (anim_next c act c')
  then show ?case using anim_step_inv by blast
qed

end
