(* ===== verification/Ipc.thy ===== *)
theory Ipc
  imports CFormat UserApi
begin

section \<open>Messages, server and client: \<open>common\<close>, \<open>daemon/ipc\<close>, \<open>cli\<close>\<close>

text \<open>
  The message of \<open>common_ipc.h\<close> and its bytes on the socket, the server of
  \<open>ipc_server.c\<close> and the command line client \<open>cli/main.c\<close>. The server calls its
  clients through a table of functions on a world \<open>'w\<close>; the locale
  \<open>command_service\<close> is the contract of that table, against the meaning of the four
  commands on the pair of mode and period. Lemmas: the bytes round trip, what the client
  accepts and sends, what a datagram does, what starting and stopping own.
\<close>

subsection \<open>The message\<close>

definition SOCKET_PATH :: string where "SOCKET_PATH = ''/tmp/regulator_daemon.sock''"

definition CMD_SET_MODE :: i32 where "CMD_SET_MODE = 10"
definition CMD_SET_PERIOD :: i32 where "CMD_SET_PERIOD = 20"
definition CMD_INC_PERIOD :: i32 where "CMD_INC_PERIOD = 30"
definition CMD_DEC_PERIOD :: i32 where "CMD_DEC_PERIOD = 40"

lemmas cmd_defs = CMD_SET_MODE_def CMD_SET_PERIOD_def CMD_INC_PERIOD_def CMD_DEC_PERIOD_def

record ipc_msg =
  command :: i32
  msg_value :: u32

text \<open>The structure in memory: two 32-bit words, least significant byte first, no padding.\<close>

definition word_bytes :: "u32 \<Rightarrow> u8 list" where
  "word_bytes w = [ucast w, ucast (drop_bit 8 w), ucast (drop_bit 16 w), ucast (drop_bit 24 w)]"

fun bytes_word :: "u8 list \<Rightarrow> u32" where
  "bytes_word [] = 0"
| "bytes_word (b # bs) = ucast b OR push_bit 8 (bytes_word bs)"

definition msg_bytes :: "ipc_msg \<Rightarrow> u8 list" where
  "msg_bytes m = word_bytes (command m) @ word_bytes (msg_value m)"

definition bytes_msg :: "u8 list \<Rightarrow> ipc_msg" where
  "bytes_msg bs = \<lparr>command = bytes_word (take 4 bs), msg_value = bytes_word (take 4 (drop 4 bs))\<rparr>"

definition MSG_SIZE :: nat where "MSG_SIZE = 8"

lemma length_msg_bytes [simp]: "length (msg_bytes m) = MSG_SIZE"
  by (simp add: msg_bytes_def word_bytes_def MSG_SIZE_def)

lemma bytes_word_bytes [simp]: "bytes_word (word_bytes w) = w"
proof (rule bit_word_eqI)
  fix n assume "n < LENGTH(32)"
  then show "bit (bytes_word (word_bytes w)) n = bit w n"
    by (cases "n < 8"; cases "n < 16"; cases "n < 24") (auto simp: word_bytes_def bit_simps not_less)
qed

lemma length_word_bytes [simp]: "length (word_bytes w) = 4"
  by (simp add: word_bytes_def)

lemma bytes_msg_bytes [simp]: "bytes_msg (msg_bytes m) = m"
  by (simp add: bytes_msg_def msg_bytes_def)

subsection \<open>The client\<close>

definition EXIT_SUCCESS :: int where "EXIT_SUCCESS = 0"
definition EXIT_FAILURE :: int where "EXIT_FAILURE = 1"

text \<open>\<open>argv\<close> as a list; the message is filled in through the pointer.\<close>

definition process_arguments :: "string list \<Rightarrow> ipc_msg \<Rightarrow> int \<times> ipc_msg" where
  "process_arguments argv msg =
     (if argv ! 1 = ''mode'' \<and> length argv = 3 then
        let msg = msg\<lparr>command := CMD_SET_MODE, msg_value := atoi (argv ! 2)\<rparr>
        in if msg_value msg \<noteq> 0 \<and> msg_value msg \<noteq> 1 then (EXIT_FAILURE, msg) else (EXIT_SUCCESS, msg)
      else if argv ! 1 = ''period'' \<and> length argv = 3 then
        let msg = msg\<lparr>command := CMD_SET_PERIOD, msg_value := atoi (argv ! 2)\<rparr>
        in if msg_value msg \<le> 0 then (EXIT_FAILURE, msg) else (EXIT_SUCCESS, msg)
      else if argv ! 1 = ''dec'' \<and> length argv = 2 then
        (EXIT_SUCCESS, msg\<lparr>command := CMD_INC_PERIOD, msg_value := 0\<rparr>)
      else if argv ! 1 = ''inc'' \<and> length argv = 2 then
        (EXIT_SUCCESS, msg\<lparr>command := CMD_DEC_PERIOD, msg_value := 0\<rparr>)
      else (EXIT_FAILURE, msg))"

definition cli_main :: "(ucall \<Rightarrow> ('w, int) state) \<Rightarrow> string list \<Rightarrow> ('w, int) state" where
  "cli_main U argv =
     (if length argv < 2 then ret EXIT_FAILURE
      else case process_arguments argv \<lparr>command = 0, msg_value = 0\<rparr> of (r, msg) \<Rightarrow>
        if r \<noteq> EXIT_SUCCESS then ret EXIT_FAILURE
        else do {
          client_fd \<leftarrow> U Socket;
          if client_fd < 0 then ret EXIT_FAILURE
          else do {
            sent_bytes \<leftarrow> U (Sendto client_fd (msg_bytes msg) SOCKET_PATH);
            uvoid (U (Close client_fd));
            ret (if sent_bytes < 0 then EXIT_FAILURE else EXIT_SUCCESS)
          }
        })"

text \<open>The datagrams that a log has sent to the daemon.\<close>

definition sent :: "uevent list \<Rightarrow> u8 list list" where
  "sent es = List.map_filter (\<lambda>e. case fst e of
     Sendto _ bs p \<Rightarrow> if p = SOCKET_PATH \<and> 0 \<le> snd e then Some bs else None | _ \<Rightarrow> None) es"

lemma sent_simps [simp]:
  "sent [] = []" "sent (es @ fs) = sent es @ sent fs"
  "sent ((Socket, r) # es) = sent es" "sent ((Close f, r) # es) = sent es"
  "sent ((Sendto f bs p, r) # es) = (if p = SOCKET_PATH \<and> 0 \<le> r then bs # sent es else sent es)"
  by (simp_all add: sent_def List.map_filter_def)

lemma cli_sends:
  assumes "result (cli_main (uapi E) argv) s = EXIT_SUCCESS"
  shows "sent (ulog (exec (cli_main (uapi E) argv) s)) =
      sent (ulog s) @ [msg_bytes (snd (process_arguments argv \<lparr>command = 0, msg_value = 0\<rparr>))]"
    and "fst (process_arguments argv \<lparr>command = 0, msg_value = 0\<rparr>) = EXIT_SUCCESS"
  using assms
  by (auto simp: cli_main_def upath_simps EXIT_FAILURE_def EXIT_SUCCESS_def
      simp del: exec_uapi split: if_splits prod.splits)

lemma cli_resources:
  assumes "ures_state (ulog s) = Some R"
  shows "ures_state (ulog (exec (cli_main (uapi E) argv) s)) = Some R"
  using assms
  by (auto simp: cli_main_def upath_simps simp del: exec_uapi split: prod.splits)

lemma process_arguments_iff:
  "process_arguments argv m = (EXIT_SUCCESS, msg) \<longleftrightarrow>
    (\<exists>prog t. argv = [prog, ''mode'', t] \<and> (atoi t = 0 \<or> atoi t = 1) \<and> msg = m\<lparr>command := CMD_SET_MODE, msg_value := atoi t\<rparr>) \<or>
    (\<exists>prog t. argv = [prog, ''period'', t] \<and> atoi t \<noteq> 0 \<and> msg = m\<lparr>command := CMD_SET_PERIOD, msg_value := atoi t\<rparr>) \<or>
    (\<exists>prog. argv = [prog, ''dec''] \<and> msg = m\<lparr>command := CMD_INC_PERIOD, msg_value := 0\<rparr>) \<or>
    (\<exists>prog. argv = [prog, ''inc''] \<and> msg = m\<lparr>command := CMD_DEC_PERIOD, msg_value := 0\<rparr>)"
proof (cases "length argv = 2 \<or> length argv = 3")
  case True
  then obtain a b c where "argv = [a, b] \<or> argv = [a, b, c]"
    by (auto simp: length_Suc_conv numeral_2_eq_2 numeral_3_eq_3)
  then show ?thesis by (auto simp: process_arguments_def Let_def EXIT_SUCCESS_def EXIT_FAILURE_def)
next
  case False
  then show ?thesis by (auto simp: process_arguments_def Let_def EXIT_SUCCESS_def EXIT_FAILURE_def)
qed

lemma process_arguments_set:
  "process_arguments [prog, ''mode'', show_nat v] m =
     (if word_of_nat v = (0 :: u32) \<or> word_of_nat v = (1 :: u32) then EXIT_SUCCESS else EXIT_FAILURE,
      m\<lparr>command := CMD_SET_MODE, msg_value := word_of_nat v\<rparr>)" if "v < 2 ^ 63"
  using atoi_show_int [of "[]" "int v"] that by (simp add: process_arguments_def show_int_def)

subsection \<open>The server\<close>

record 'w ipc_callbacks =
  on_set_mode :: "(i32 \<Rightarrow> ('w, unit) state) option"
  on_set_period :: "(u32 \<Rightarrow> ('w, unit) state) option"
  on_inc_period :: "('w, unit) state option"
  on_dec_period :: "('w, unit) state option"

definition no_callbacks :: "'w ipc_callbacks" where
  "no_callbacks = \<lparr>on_set_mode = None, on_set_period = None, on_inc_period = None, on_dec_period = None\<rparr>"

record 'w ipc =
  server_fd :: int
  current_cbs :: "'w ipc_callbacks"
  is_running :: bool
  iworld :: 'w

definition ipc_statics :: "'w \<Rightarrow> 'w ipc" where
  "ipc_statics w = \<lparr>server_fd = - 1, current_cbs = no_callbacks, is_running = False, iworld = w\<rparr>"

definition in_ipc :: "('w, 'a) state \<Rightarrow> ('w ipc, 'a) state" where
  "in_ipc m = zoom iworld (\<lambda>w i. i\<lparr>iworld := w\<rparr>) m"

lemma in_ipc_simps [simp, run_simps]:
  "result (in_ipc m) i = result m (iworld i)"
  "exec (in_ipc m) i = i\<lparr>iworld := exec m (iworld i)\<rparr>"
  by (simp_all add: in_ipc_def)

definition icall :: "(ucall \<Rightarrow> ('w, int) state) \<Rightarrow> ucall \<Rightarrow> ('w ipc, int) state" where
  "icall U c = in_ipc (U c)"

lemma icall_simps [simp, run_simps]:
  "result (icall U c) i = result (U c) (iworld i)"
  "exec (icall U c) i = i\<lparr>iworld := exec (U c) (iworld i)\<rparr>"
  by (simp_all add: icall_def)

text \<open>\<open>if (cb) cb ();\<close>\<close>

definition call_if_set :: "('w, unit) state option \<Rightarrow> ('w ipc, unit) state" where
  "call_if_set cb = (case cb of None \<Rightarrow> ret () | Some m \<Rightarrow> in_ipc m)"

definition process_message :: "(ucall \<Rightarrow> ('w, int) state) \<Rightarrow> ipc_msg \<Rightarrow> ('w ipc, unit) state" where
  "process_message U msg = do {
     uvoid (icall U (Plock Cb_lock));
     cbs \<leftarrow> gets current_cbs;
     (if command msg = CMD_SET_MODE then
        call_if_set (map_option (\<lambda>f. f (msg_value msg)) (on_set_mode cbs))
      else if command msg = CMD_SET_PERIOD then
        call_if_set (map_option (\<lambda>f. f (msg_value msg)) (on_set_period cbs))
      else if command msg = CMD_INC_PERIOD then call_if_set (on_inc_period cbs)
      else if command msg = CMD_DEC_PERIOD then call_if_set (on_dec_period cbs)
      else ret ());
     uvoid (icall U (Punlock Cb_lock))
   }"

text \<open>
  One pass of the receiving loop, on what \<open>recvfrom\<close> brings: \<open>None\<close> is an error, a
  datagram is cut to the size of the buffer. The result says whether the loop goes on.
\<close>

definition ipc_receive :: "(ucall \<Rightarrow> ('w, int) state) \<Rightarrow> u8 list option \<Rightarrow> ('w ipc, bool) state" where
  "ipc_receive U d = do {
     let bytes_read = (case d of None \<Rightarrow> - 1 | Some bs \<Rightarrow> int (min MSG_SIZE (length bs)));
     if bytes_read = int MSG_SIZE then do {
       process_message U (bytes_msg (take MSG_SIZE (the d)));
       ret True
     } else do {
       run \<leftarrow> gets is_running;
       ret (\<not> (bytes_read \<le> 0 \<and> \<not> run))
     }
   }"

fun ipc_thread_func :: "(ucall \<Rightarrow> ('w, int) state) \<Rightarrow> u8 list option list \<Rightarrow> ('w ipc, unit) state" where
  "ipc_thread_func U [] = ret ()"  \<comment> \<open>blocked in \<open>recvfrom\<close>\<close>
| "ipc_thread_func U (d # ds) = do {
     run \<leftarrow> gets is_running;
     if \<not> run then ret ()
     else do {
       more \<leftarrow> ipc_receive U d;
       if more then ipc_thread_func U ds else ret ()
     }
   }"

definition start_ipc_server ::
  "(ucall \<Rightarrow> ('w, int) state) \<Rightarrow> 'w ipc_callbacks option \<Rightarrow> ('w ipc, int) state" where
  "start_ipc_server U cbs = do {
     run \<leftarrow> gets is_running;
     if run then ret (- 1)
     else do {
       uvoid (icall U (Plock Cb_lock));
       (case cbs of None \<Rightarrow> ret () | Some c \<Rightarrow> modify (\<lambda>i. i\<lparr>current_cbs := c\<rparr>));
       uvoid (icall U (Punlock Cb_lock));
       f \<leftarrow> icall U Socket;
       modify (\<lambda>i. i\<lparr>server_fd := f\<rparr>);
       if f < 0 then ret (- 1)
       else do {
         uvoid (icall U (Unlink SOCKET_PATH));
         b \<leftarrow> icall U (Bind f SOCKET_PATH);
         if b < 0 then do {
           uvoid (icall U (Close f));
           modify (\<lambda>i. i\<lparr>server_fd := - 1\<rparr>);
           ret (- 1)
         } else do {
           modify (\<lambda>i. i\<lparr>is_running := True\<rparr>);
           t \<leftarrow> icall U (Pthread_create ''ipc_thread'');
           if t \<noteq> 0 then do {
             modify (\<lambda>i. i\<lparr>is_running := False\<rparr>);
             uvoid (icall U (Close f));
             uvoid (icall U (Unlink SOCKET_PATH));
             modify (\<lambda>i. i\<lparr>server_fd := - 1\<rparr>);
             ret (- 1)
           } else ret 0
         }
       }
     }
   }"

definition stop_ipc_server :: "(ucall \<Rightarrow> ('w, int) state) \<Rightarrow> ('w ipc, int) state" where
  "stop_ipc_server U = do {
     run \<leftarrow> gets is_running;
     if \<not> run then ret 0
     else do {
       modify (\<lambda>i. i\<lparr>is_running := False\<rparr>);
       f \<leftarrow> gets server_fd;
       only_if (f \<noteq> - 1) (do {
         uvoid (icall U (Shutdown f));
         uvoid (icall U (Close f));
         modify (\<lambda>i. i\<lparr>server_fd := - 1\<rparr>)
       });
       uvoid (icall U (Pthread_join ''ipc_thread''));
       uvoid (icall U (Unlink SOCKET_PATH));
       uvoid (icall U (Plock Cb_lock));
       modify (\<lambda>i. i\<lparr>current_cbs := no_callbacks\<rparr>);
       uvoid (icall U (Punlock Cb_lock));
       ret 0
     }
   }"

subsection \<open>What the server owns\<close>

definition ilog :: "('z ulog_scheme) ipc \<Rightarrow> uevent list" where
  "ilog i = ulog (iworld i)"

definition server_owned :: "'w ipc \<Rightarrow> ures multiset" where
  "server_owned i = (if is_running i
     then {#U_fd (server_fd i), U_path SOCKET_PATH, U_thread ''ipc_thread''#} else {#})"

lemma icall_views:
  "result (icall (uapi E) c) i = uret E (ilog i) c"
  "ilog (exec (icall (uapi E) c) i) = ilog i @ [(c, uret E (ilog i) c)]"
  "server_fd (exec (icall U c) i') = server_fd i'" "is_running (exec (icall U c) i') = is_running i'"
  "current_cbs (exec (icall U c) i') = current_cbs i'"
  by (simp_all add: ilog_def)

lemma ilog_updates [simp]:
  "ilog (i\<lparr>server_fd := f\<rparr>) = ilog i" "ilog (i\<lparr>is_running := r\<rparr>) = ilog i"
  "ilog (i\<lparr>current_cbs := c\<rparr>) = ilog i"
  by (simp_all add: ilog_def)

lemmas ipath_simps = result_bind exec_bind result_if exec_if result_let exec_let
  result_case_option exec_case_option result_exec_basic exec_uvoid icall_views

lemma filter_not_in: "x \<notin># R \<Longrightarrow> filter_mset (\<lambda>y. y \<noteq> x) R = R"
  by (auto simp: filter_mset_eq_conv multiset_eq_iff count_eq_zero_iff)

text \<open>Starting is all or nothing; stopping gives everything back.\<close>

lemma start_resources:
  assumes "ures_state (ilog i) = Some R" and "U_path SOCKET_PATH \<notin># R" and "\<not> is_running i"
  shows "ures_state (ilog (exec (start_ipc_server (uapi E) cbs) i)) =
      Some (R + server_owned (exec (start_ipc_server (uapi E) cbs) i))"
    and "is_running (exec (start_ipc_server (uapi E) cbs) i) \<longleftrightarrow>
      result (start_ipc_server (uapi E) cbs) i = 0"
  using assms
  by (cases cbs; simp add: start_ipc_server_def ipath_simps server_owned_def filter_not_in
      del: icall_simps)+

lemma stop_resources:
  assumes "ures_state (ilog i) = Some (R + server_owned i)" and "U_path SOCKET_PATH \<notin># R"
    and "is_running i" and "server_fd i \<noteq> - 1"
  shows "ures_state (ilog (exec (stop_ipc_server (uapi E)) i)) = Some R"
    and "current_cbs (exec (stop_ipc_server (uapi E)) i) = no_callbacks"
  using assms
  by (simp_all add: stop_ipc_server_def ipath_simps server_owned_def filter_not_in
      del: icall_simps)

lemma keeps_icall [keeps_rules]: "keeps P (U c) \<Longrightarrow> keeps (\<lambda>i. P (iworld i)) (icall U c)"
  by (simp add: keeps_def)

lemma keeps_start [keeps_rules]:
  "(\<And>c. keeps P (U c)) \<Longrightarrow> keeps (\<lambda>i. P (iworld i)) (start_ipc_server U cbs)"
  unfolding start_ipc_server_def by (intro keeps_rules keeps_modify) simp_all

lemma start_up:
  assumes "0 \<le> result (start_ipc_server U (Some cbs)) i"
  shows "is_running (exec (start_ipc_server U (Some cbs)) i)"
    and "current_cbs (exec (start_ipc_server U (Some cbs)) i) = cbs"
  using assms by (auto simp: start_ipc_server_def run_simps split: if_splits)

lemma start_fd: "result (start_ipc_server U cbs) i = 0 \<Longrightarrow>
    0 \<le> server_fd (exec (start_ipc_server U cbs) i)"
  by (cases cbs) (auto simp: start_ipc_server_def run_simps split: if_splits)

subsection \<open>The contract of the callbacks\<close>

text \<open>
  What the four commands mean for mode and period: an unknown command, a refused mode, a
  period of 0 and, in automatic mode, every change of the period leave both as they are.
\<close>

definition command_meaning :: "ipc_msg \<Rightarrow> i32 \<times> u32 \<Rightarrow> i32 \<times> u32" where
  "command_meaning msg = (\<lambda>(m, p). let v = msg_value msg in
     if command msg = CMD_SET_MODE then (if v = 0 \<or> v = 1 then (v, p) else (m, p))
     else if command msg = CMD_SET_PERIOD then (if m = 0 \<and> 0 < v then (m, v) else (m, p))
     else if command msg = CMD_INC_PERIOD then (if m = 0 \<and> p + 50 \<noteq> 0 then (m, p + 50) else (m, p))
     else if command msg = CMD_DEC_PERIOD then (if m = 0 \<and> 50 < p then (m, p - 50) else (m, p))
     else (m, p))"

definition full_callbacks ::
  "(i32 \<Rightarrow> ('w, unit) state) \<Rightarrow> (u32 \<Rightarrow> ('w, unit) state) \<Rightarrow> ('w, unit) state \<Rightarrow> ('w, unit) state \<Rightarrow>
   'w ipc_callbacks" where
  "full_callbacks sm sp inc dec = \<lparr>on_set_mode = Some sm, on_set_period = Some sp,
     on_inc_period = Some inc, on_dec_period = Some dec\<rparr>"

lemma full_callbacks_simps [simp]:
  "on_set_mode (full_callbacks sm sp inc dec) = Some sm"
  "on_set_period (full_callbacks sm sp inc dec) = Some sp"
  "on_inc_period (full_callbacks sm sp inc dec) = Some inc"
  "on_dec_period (full_callbacks sm sp inc dec) = Some dec"
  by (simp_all add: full_callbacks_def)

fun datagram_meaning :: "u8 list option \<Rightarrow> i32 \<times> u32 \<Rightarrow> i32 \<times> u32" where
  "datagram_meaning None v = v"
| "datagram_meaning (Some bs) v =
     (if MSG_SIZE \<le> length bs then command_meaning (bytes_msg (take MSG_SIZE bs)) v else v)"

locale command_service =
  fixes U :: "ucall \<Rightarrow> ('w, int) state"
    and sm :: "i32 \<Rightarrow> ('w, unit) state" and sp :: "u32 \<Rightarrow> ('w, unit) state"
    and inc :: "('w, unit) state" and dec :: "('w, unit) state"
    and view :: "'w \<Rightarrow> i32 \<times> u32" and L :: "'w \<Rightarrow> ulock list option" and invar :: "'w \<Rightarrow> bool"
  assumes U_frame: "view (exec (U c) w) = view w" "invar (exec (U c) w) = invar w"
    and U_locks: "ulogs_locks L U"
    and meanings:
      "invar w \<Longrightarrow> view (exec (sm v) w) = command_meaning \<lparr>command = CMD_SET_MODE, msg_value = v\<rparr> (view w)"
      "invar w \<Longrightarrow> view (exec (sp v) w) = command_meaning \<lparr>command = CMD_SET_PERIOD, msg_value = v\<rparr> (view w)"
      "invar w \<Longrightarrow> view (exec inc w) = command_meaning \<lparr>command = CMD_INC_PERIOD, msg_value = v\<rparr> (view w)"
      "invar w \<Longrightarrow> view (exec dec w) = command_meaning \<lparr>command = CMD_DEC_PERIOD, msg_value = v\<rparr> (view w)"
    and invars: "invar w \<Longrightarrow> invar (exec (sm v) w)" "invar w \<Longrightarrow> invar (exec (sp v) w)"
      "invar w \<Longrightarrow> invar (exec inc w)" "invar w \<Longrightarrow> invar (exec dec w)"
    and locked: "L w = Some [Cb_lock] \<Longrightarrow> L (exec (sm v) w) = Some [Cb_lock]"
      "L w = Some [Cb_lock] \<Longrightarrow> L (exec (sp v) w) = Some [Cb_lock]"
      "L w = Some [Cb_lock] \<Longrightarrow> L (exec inc w) = Some [Cb_lock]"
      "L w = Some [Cb_lock] \<Longrightarrow> L (exec dec w) = Some [Cb_lock]"
begin

definition serving :: "'w ipc \<Rightarrow> bool" where
  "serving i \<longleftrightarrow> current_cbs i = full_callbacks sm sp inc dec \<and> invar (iworld i)"

lemma msg_eta: "command msg = c \<Longrightarrow> \<lparr>command = c, msg_value = msg_value msg\<rparr> = msg"
  by (cases msg) simp

lemma process_message_effect:
  assumes "serving i"
  shows "view (iworld (exec (process_message U msg) i)) = command_meaning msg (view (iworld i))"
    and "serving (exec (process_message U msg) i)"
    and "is_running (exec (process_message U msg) i) = is_running i"
proof -
  have inv: "invar (exec (U c) (iworld i))" for c using assms by (simp add: serving_def U_frame)
  show "view (iworld (exec (process_message U msg) i)) = command_meaning msg (view (iworld i))"
    using assms inv
    by (auto simp: serving_def process_message_def call_if_set_def run_simps U_frame
        meanings(1,2) meanings(3,4) [where v = "msg_value msg"] msg_eta)
      (simp add: command_meaning_def split: prod.split)
  show "serving (exec (process_message U msg) i)"
    using assms inv
    by (simp add: serving_def process_message_def call_if_set_def run_simps U_frame invars)
  show "is_running (exec (process_message U msg) i) = is_running i"
    using assms by (simp add: serving_def process_message_def call_if_set_def run_simps)
qed

lemma process_message_locks:
  assumes "serving i" and "L (iworld i) = Some []"
  shows "L (iworld (exec (process_message U msg) i)) = Some []"
  using assms
  by (simp add: serving_def process_message_def call_if_set_def run_simps ulogs_locksD [OF U_locks]
      locked)

lemma ipc_receive_effect:
  assumes "serving i"
  shows "view (iworld (exec (ipc_receive U d) i)) = datagram_meaning d (view (iworld i))"
    and "serving (exec (ipc_receive U d) i)"
    and "is_running (exec (ipc_receive U d) i) = is_running i"
    and "is_running i \<Longrightarrow> result (ipc_receive U d) i"
  using process_message_effect [OF assms] assms
  by (cases d; simp add: ipc_receive_def run_simps min_def)+

lemma ipc_thread_effect:
  assumes "serving i" and "is_running i"
  shows "view (iworld (exec (ipc_thread_func U ds) i)) = fold datagram_meaning ds (view (iworld i))"
    and "serving (exec (ipc_thread_func U ds) i)"
  using assms
  by (induction ds arbitrary: i) (simp_all add: run_simps ipc_receive_effect)

end

lemma command_meaning_range:
  assumes "m = 0 \<or> m = 1" and "0 < p" and "command_meaning msg (m, p) = (m', p')"
  shows "(m' = 0 \<or> m' = 1) \<and> 0 < p'"
  using assms by (auto simp: command_meaning_def Let_def word_gt_0 split: if_splits)

end
