(* ===== verification/Oled.thy ===== *)
theory Oled
  imports CFormat UserApi
begin

section \<open>The OLED display: \<open>daemon/oled\<close>\<close>

text \<open>
  \<open>ssd1306.c\<close> (commands and glyphs over the I2C bus) and \<open>oled.c\<close> (the screen and
  its refresh thread). The bus descriptor and the callback table are the statics
  \<open>'w oled\<close>; the writes are read back from the log. Single-precision arithmetic and its
  formatting are a parameter \<open>'f floats\<close>. Lemmas: the addressing of a position, the
  text that the data bytes spell, the bounds of the glyph table and of the line buffer, what
  a refresh shows.
\<close>

record 'f floats =
  f_round :: "rat \<Rightarrow> 'f"  \<comment> \<open>the nearest \<open>float\<close>\<close>
  f_of_u32 :: "u32 \<Rightarrow> 'f"
  f_div :: "'f \<Rightarrow> 'f \<Rightarrow> 'f"
  fmt_1f :: "'f \<Rightarrow> string"
  fmt_2f :: "'f \<Rightarrow> string"

record ('w, 'f) oled_callbacks =
  ocb_get_temperature :: "('w, 'f) state"
  ocb_get_mode :: "('w, i32) state"
  ocb_get_period :: "('w, u32) state"

record ('w, 'f) oled =
  oled_fd :: int
  oled_cbs :: "('w, 'f) oled_callbacks option"
  oworld :: 'w

definition in_oled :: "('w, 'a) state \<Rightarrow> (('w, 'f) oled, 'a) state" where
  "in_oled m = zoom oworld (\<lambda>w d. d\<lparr>oworld := w\<rparr>) m"

lemma in_oled_simps [simp, run_simps]:
  "result (in_oled m) d = result m (oworld d)"
  "exec (in_oled m) d = d\<lparr>oworld := exec m (oworld d)\<rparr>"
  by (simp_all add: in_oled_def)

definition I2C_BUS :: string where "I2C_BUS = ''/dev/i2c-0''"
definition OLED_ADDR :: nat where "OLED_ADDR = 0x3c"
definition OLED_COMMAND_MODE :: u8 where "OLED_COMMAND_MODE = 0x00"
definition OLED_DATA_MODE :: u8 where "OLED_DATA_MODE = 0x40"
definition OLED_DISPLAY_OFF_CMD :: u8 where "OLED_DISPLAY_OFF_CMD = 0xae"
definition OLED_DISPLAY_ON_CMD :: u8 where "OLED_DISPLAY_ON_CMD = 0xaf"

definition font :: "u8 list list" where
  "font = [
    [0x00, 0x00, 0x00, 0x00, 0x00, 0x00, 0x00, 0x00],
    [0x00, 0x00, 0x5F, 0x00, 0x00, 0x00, 0x00, 0x00],
    [0x00, 0x00, 0x07, 0x00, 0x07, 0x00, 0x00, 0x00],
    [0x00, 0x14, 0x7F, 0x14, 0x7F, 0x14, 0x00, 0x00],
    [0x00, 0x24, 0x2A, 0x7F, 0x2A, 0x12, 0x00, 0x00],
    [0x00, 0x23, 0x13, 0x08, 0x64, 0x62, 0x00, 0x00],
    [0x00, 0x36, 0x49, 0x55, 0x22, 0x50, 0x00, 0x00],
    [0x00, 0x00, 0x05, 0x03, 0x00, 0x00, 0x00, 0x00],
    [0x00, 0x1C, 0x22, 0x41, 0x00, 0x00, 0x00, 0x00],
    [0x00, 0x41, 0x22, 0x1C, 0x00, 0x00, 0x00, 0x00],
    [0x00, 0x08, 0x2A, 0x1C, 0x2A, 0x08, 0x00, 0x00],
    [0x00, 0x08, 0x08, 0x3E, 0x08, 0x08, 0x00, 0x00],
    [0x00, 0xA0, 0x60, 0x00, 0x00, 0x00, 0x00, 0x00],
    [0x00, 0x08, 0x08, 0x08, 0x08, 0x08, 0x00, 0x00],
    [0x00, 0x60, 0x60, 0x00, 0x00, 0x00, 0x00, 0x00],
    [0x00, 0x20, 0x10, 0x08, 0x04, 0x02, 0x00, 0x00],
    [0x00, 0x3E, 0x51, 0x49, 0x45, 0x3E, 0x00, 0x00],
    [0x00, 0x00, 0x42, 0x7F, 0x40, 0x00, 0x00, 0x00],
    [0x00, 0x62, 0x51, 0x49, 0x49, 0x46, 0x00, 0x00],
    [0x00, 0x22, 0x41, 0x49, 0x49, 0x36, 0x00, 0x00],
    [0x00, 0x18, 0x14, 0x12, 0x7F, 0x10, 0x00, 0x00],
    [0x00, 0x27, 0x45, 0x45, 0x45, 0x39, 0x00, 0x00],
    [0x00, 0x3C, 0x4A, 0x49, 0x49, 0x30, 0x00, 0x00],
    [0x00, 0x01, 0x71, 0x09, 0x05, 0x03, 0x00, 0x00],
    [0x00, 0x36, 0x49, 0x49, 0x49, 0x36, 0x00, 0x00],
    [0x00, 0x06, 0x49, 0x49, 0x29, 0x1E, 0x00, 0x00],
    [0x00, 0x00, 0x36, 0x36, 0x00, 0x00, 0x00, 0x00],
    [0x00, 0x00, 0xAC, 0x6C, 0x00, 0x00, 0x00, 0x00],
    [0x00, 0x08, 0x14, 0x22, 0x41, 0x00, 0x00, 0x00],
    [0x00, 0x14, 0x14, 0x14, 0x14, 0x14, 0x00, 0x00],
    [0x00, 0x41, 0x22, 0x14, 0x08, 0x00, 0x00, 0x00],
    [0x00, 0x02, 0x01, 0x51, 0x09, 0x06, 0x00, 0x00],
    [0x00, 0x32, 0x49, 0x79, 0x41, 0x3E, 0x00, 0x00],
    [0x00, 0x7E, 0x09, 0x09, 0x09, 0x7E, 0x00, 0x00],
    [0x00, 0x7F, 0x49, 0x49, 0x49, 0x36, 0x00, 0x00],
    [0x00, 0x3E, 0x41, 0x41, 0x41, 0x22, 0x00, 0x00],
    [0x00, 0x7F, 0x41, 0x41, 0x22, 0x1C, 0x00, 0x00],
    [0x00, 0x7F, 0x49, 0x49, 0x49, 0x41, 0x00, 0x00],
    [0x00, 0x7F, 0x09, 0x09, 0x09, 0x01, 0x00, 0x00],
    [0x00, 0x3E, 0x41, 0x41, 0x51, 0x72, 0x00, 0x00],
    [0x00, 0x7F, 0x08, 0x08, 0x08, 0x7F, 0x00, 0x00],
    [0x00, 0x41, 0x7F, 0x41, 0x00, 0x00, 0x00, 0x00],
    [0x00, 0x20, 0x40, 0x41, 0x3F, 0x01, 0x00, 0x00],
    [0x00, 0x7F, 0x08, 0x14, 0x22, 0x41, 0x00, 0x00],
    [0x00, 0x7F, 0x40, 0x40, 0x40, 0x40, 0x00, 0x00],
    [0x00, 0x7F, 0x02, 0x0C, 0x02, 0x7F, 0x00, 0x00],
    [0x00, 0x7F, 0x04, 0x08, 0x10, 0x7F, 0x00, 0x00],
    [0x00, 0x3E, 0x41, 0x41, 0x41, 0x3E, 0x00, 0x00],
    [0x00, 0x7F, 0x09, 0x09, 0x09, 0x06, 0x00, 0x00],
    [0x00, 0x3E, 0x41, 0x51, 0x21, 0x5E, 0x00, 0x00],
    [0x00, 0x7F, 0x09, 0x19, 0x29, 0x46, 0x00, 0x00],
    [0x00, 0x26, 0x49, 0x49, 0x49, 0x32, 0x00, 0x00],
    [0x00, 0x01, 0x01, 0x7F, 0x01, 0x01, 0x00, 0x00],
    [0x00, 0x3F, 0x40, 0x40, 0x40, 0x3F, 0x00, 0x00],
    [0x00, 0x1F, 0x20, 0x40, 0x20, 0x1F, 0x00, 0x00],
    [0x00, 0x3F, 0x40, 0x38, 0x40, 0x3F, 0x00, 0x00],
    [0x00, 0x63, 0x14, 0x08, 0x14, 0x63, 0x00, 0x00],
    [0x00, 0x03, 0x04, 0x78, 0x04, 0x03, 0x00, 0x00],
    [0x00, 0x61, 0x51, 0x49, 0x45, 0x43, 0x00, 0x00],
    [0x00, 0x7F, 0x41, 0x41, 0x00, 0x00, 0x00, 0x00],
    [0x00, 0x02, 0x04, 0x08, 0x10, 0x20, 0x00, 0x00],
    [0x00, 0x41, 0x41, 0x7F, 0x00, 0x00, 0x00, 0x00],
    [0x00, 0x04, 0x02, 0x01, 0x02, 0x04, 0x00, 0x00],
    [0x00, 0x80, 0x80, 0x80, 0x80, 0x80, 0x00, 0x00],
    [0x00, 0x01, 0x02, 0x04, 0x00, 0x00, 0x00, 0x00],
    [0x00, 0x20, 0x54, 0x54, 0x54, 0x78, 0x00, 0x00],
    [0x00, 0x7F, 0x48, 0x44, 0x44, 0x38, 0x00, 0x00],
    [0x00, 0x38, 0x44, 0x44, 0x28, 0x00, 0x00, 0x00],
    [0x00, 0x38, 0x44, 0x44, 0x48, 0x7F, 0x00, 0x00],
    [0x00, 0x38, 0x54, 0x54, 0x54, 0x18, 0x00, 0x00],
    [0x00, 0x08, 0x7E, 0x09, 0x02, 0x00, 0x00, 0x00],
    [0x00, 0x18, 0xA4, 0xA4, 0xA4, 0x7C, 0x00, 0x00],
    [0x00, 0x7F, 0x08, 0x04, 0x04, 0x78, 0x00, 0x00],
    [0x00, 0x00, 0x7D, 0x00, 0x00, 0x00, 0x00, 0x00],
    [0x00, 0x80, 0x84, 0x7D, 0x00, 0x00, 0x00, 0x00],
    [0x00, 0x7F, 0x10, 0x28, 0x44, 0x00, 0x00, 0x00],
    [0x00, 0x41, 0x7F, 0x40, 0x00, 0x00, 0x00, 0x00],
    [0x00, 0x7C, 0x04, 0x18, 0x04, 0x78, 0x00, 0x00],
    [0x00, 0x7C, 0x08, 0x04, 0x7C, 0x00, 0x00, 0x00],
    [0x00, 0x38, 0x44, 0x44, 0x38, 0x00, 0x00, 0x00],
    [0x00, 0xFC, 0x24, 0x24, 0x18, 0x00, 0x00, 0x00],
    [0x00, 0x18, 0x24, 0x24, 0xFC, 0x00, 0x00, 0x00],
    [0x00, 0x00, 0x7C, 0x08, 0x04, 0x00, 0x00, 0x00],
    [0x00, 0x48, 0x54, 0x54, 0x24, 0x00, 0x00, 0x00],
    [0x00, 0x04, 0x7F, 0x44, 0x00, 0x00, 0x00, 0x00],
    [0x00, 0x3C, 0x40, 0x40, 0x7C, 0x00, 0x00, 0x00],
    [0x00, 0x1C, 0x20, 0x40, 0x20, 0x1C, 0x00, 0x00],
    [0x00, 0x3C, 0x40, 0x30, 0x40, 0x3C, 0x00, 0x00],
    [0x00, 0x44, 0x28, 0x10, 0x28, 0x44, 0x00, 0x00],
    [0x00, 0x1C, 0xA0, 0xA0, 0x7C, 0x00, 0x00, 0x00],
    [0x00, 0x44, 0x64, 0x54, 0x4C, 0x44, 0x00, 0x00],
    [0x00, 0x08, 0x36, 0x41, 0x00, 0x00, 0x00, 0x00],
    [0x00, 0x00, 0x7F, 0x00, 0x00, 0x00, 0x00, 0x00],
    [0x00, 0x41, 0x36, 0x08, 0x00, 0x00, 0x00, 0x00],
    [0x00, 0x02, 0x01, 0x01, 0x02, 0x01, 0x00, 0x00],
    [0x00, 0x02, 0x05, 0x05, 0x02, 0x00, 0x00, 0x00]]"

definition init_commands :: "u8 list" where
  "init_commands = [0xAE, 0x00, 0x10, 0x40, 0xB0, 0x81, 0xCF, 0xA1, 0xA6, 0xA8, 0x3F, 0xC8, 0xD3, 0x00, 0xD5, 0x80, 0xD9, 0xF1, 0xDA, 0x12, 0xDB, 0x40, 0x8D, 0x14, 0xAF]"

subsection \<open>\<open>ssd1306.c\<close>\<close>

definition send_command :: "(ucall \<Rightarrow> ('w, int) state) \<Rightarrow> u8 \<Rightarrow> (('w, 'f) oled, unit) state" where
  "send_command U cmd = do {
     f \<leftarrow> gets oled_fd;
     uvoid (in_oled (U (Write_bytes f [OLED_COMMAND_MODE, cmd])))
   }"

definition send_data :: "(ucall \<Rightarrow> ('w, int) state) \<Rightarrow> u8 \<Rightarrow> (('w, 'f) oled, unit) state" where
  "send_data U byte = do {
     f \<leftarrow> gets oled_fd;
     uvoid (in_oled (U (Write_bytes f [OLED_DATA_MODE, byte])))
   }"

definition ssd1306_set_position :: "(ucall \<Rightarrow> ('w, int) state) \<Rightarrow> u32 \<Rightarrow> u32 \<Rightarrow> (('w, 'f) oled, unit) state"
where
  "ssd1306_set_position U column row = do {
     send_command U (ucast (0xb0 + row));
     send_command U (ucast (0x00 + (8 * column AND 0x0f)));
     send_command U (ucast (0x10 + (drop_bit 4 (8 * column) AND 0x0f)))
   }"

text \<open>\<open>for (\<dots>) f (x);\<close>\<close>

fun for_each :: "('a \<Rightarrow> ('s, unit) state) \<Rightarrow> 'a list \<Rightarrow> ('s, unit) state" where
  "for_each f [] = ret ()"
| "for_each f (x # xs) = do { f x; for_each f xs }"

definition glyph_index :: "char \<Rightarrow> nat" where
  "glyph_index c = (let c' = (if (of_char c :: nat) < 32 \<or> 127 < (of_char c :: nat) then CHR '' '' else c)
     in of_char c' - 32)"

definition ssd1306_putc :: "(ucall \<Rightarrow> ('w, int) state) \<Rightarrow> char \<Rightarrow> (('w, 'f) oled, unit) state" where
  "ssd1306_putc U c = for_each (\<lambda>i. send_data U (font ! glyph_index c ! i)) [0..<8]"

definition ssd1306_puts :: "(ucall \<Rightarrow> ('w, int) state) \<Rightarrow> string \<Rightarrow> (('w, 'f) oled, unit) state" where
  "ssd1306_puts U str = for_each (ssd1306_putc U) str"

definition ssd1306_clear_display :: "(ucall \<Rightarrow> ('w, int) state) \<Rightarrow> (('w, 'f) oled, unit) state" where
  "ssd1306_clear_display U = do {
     send_command U OLED_DISPLAY_OFF_CMD;
     for_each (\<lambda>j. do {
       ssd1306_set_position U 0 (word_of_nat j);
       for_each (\<lambda>i. ssd1306_putc U CHR '' '') [0..<16]
     }) [0..<8];
     send_command U OLED_DISPLAY_ON_CMD;
     ssd1306_set_position U 0 0
   }"

definition ssd1306_init :: "(ucall \<Rightarrow> ('w, int) state) \<Rightarrow> (('w, 'f) oled, int) state" where
  "ssd1306_init U = do {
     f \<leftarrow> in_oled (U (Open I2C_BUS));
     modify (\<lambda>d. d\<lparr>oled_fd := f\<rparr>);
     if f < 0 then ret (- 1)
     else do {
       r \<leftarrow> in_oled (U (Ioctl f OLED_ADDR));
       if r < 0 then ret (- 1)
       else do {
         for_each (send_command U) init_commands;
         ssd1306_clear_display U;
         ret 0
       }
     }
   }"

subsection \<open>\<open>oled.c\<close>\<close>

text \<open>\<open>char buffer[20]\<close> and \<open>snprintf\<close> into it: what \<open>ssd1306_puts\<close> then sees.\<close>

definition buffer_text :: "string \<Rightarrow> string" where
  "buffer_text s = fst (snprintf 20 s)"

definition screen_lines :: "'f floats \<Rightarrow> i32 \<Rightarrow> 'f \<Rightarrow> u32 \<Rightarrow> string list" where
  "screen_lines fl mode temp period_ms =
     (let freq = f_div fl (f_round fl 1) (f_div fl (f_of_u32 fl period_ms) (f_round fl 1000)) in
      [''CSEL1a - SP.07'',
       ''  WATCHDOG CPU '',
       ''--------------'',
       buffer_text (''Mode: '' @ (if mode \<noteq> 0 then ''AUTO   '' else ''MANUAL'')),
       buffer_text (''Temp: '' @ fmt_1f fl temp @ [CHR 0x27] @ ''C''),
       buffer_text (''Freq: '' @ fmt_2f fl freq @ ''Hz  ''),
       buffer_text (''Period: '' @ fmt_d period_ms @ ''ms  '')])"

definition display :: "(ucall \<Rightarrow> ('w, int) state) \<Rightarrow> 'f floats \<Rightarrow> i32 \<Rightarrow> 'f \<Rightarrow> u32 \<Rightarrow> (('w, 'f) oled, unit) state"
where
  "display U fl mode temp period_ms =
     for_each (\<lambda>(row, txt). do {
       ssd1306_set_position U 0 (word_of_nat row);
       ssd1306_puts U txt
     }) (enumerate 0 (screen_lines fl mode temp period_ms))"

text \<open>One pass of \<open>update_oled_thread\<close>; the order in which C evaluates the three calls is open.\<close>

definition oled_refresh :: "(ucall \<Rightarrow> ('w, int) state) \<Rightarrow> 'f floats \<Rightarrow> (('w, 'f) oled, unit) state" where
  "oled_refresh U fl = do {
     cbs \<leftarrow> gets oled_cbs;
     (case cbs of
        None \<Rightarrow> ret ()
      | Some c \<Rightarrow> do {
          mode \<leftarrow> in_oled (ocb_get_mode c);
          temp \<leftarrow> in_oled (ocb_get_temperature c);
          period \<leftarrow> in_oled (ocb_get_period c);
          display U fl mode temp period
        });
     uvoid (in_oled (U (Usleep 250000)))
   }"

definition init_oled ::
  "(ucall \<Rightarrow> ('w, int) state) \<Rightarrow> ('w, 'f) oled_callbacks option \<Rightarrow> (('w, 'f) oled, unit) state" where
  "init_oled U cbs = do {
     (case cbs of None \<Rightarrow> ret () | Some _ \<Rightarrow> modify (\<lambda>d. d\<lparr>oled_cbs := cbs\<rparr>));
     ssd1306_init U;
     uvoid (in_oled (U (Pthread_create ''update_oled_thread'')));
     uvoid (in_oled (U (Pthread_detach ''oled_thread'')))
   }"

subsection \<open>The glyph table\<close>

lemma font_length: "length font = 96"
  by (simp add: font_def)

lemma font_rows: "list_all (\<lambda>g. length g = 8) font"
  by (simp add: font_def)

lemma font_distinct: "distinct font"
  by code_simp

lemma glyph_index_bound: "glyph_index c < length font"
  by (auto simp: glyph_index_def Let_def font_length)

lemma font_row: "i < 96 \<Longrightarrow> length (font ! i) = 8"
  using font_rows by (simp add: list_all_length font_length)

text \<open>Reading a row of pixels back: the character whose glyph it is.\<close>

fun index_of :: "'a \<Rightarrow> 'a list \<Rightarrow> nat" where
  "index_of x [] = 0"
| "index_of x (y # ys) = (if x = y then 0 else Suc (index_of x ys))"

lemma index_of_nth: "distinct xs \<Longrightarrow> i < length xs \<Longrightarrow> index_of (xs ! i) xs = i"
  by (induction xs arbitrary: i) (auto simp: nth_Cons split: nat.splits)

fun spell :: "u8 list \<Rightarrow> string" where
  "spell (b0 # b1 # b2 # b3 # b4 # b5 # b6 # b7 # bs) =
     char_of (32 + index_of [b0, b1, b2, b3, b4, b5, b6, b7] font) # spell bs"
| "spell _ = []"

definition shown :: "char \<Rightarrow> char" where
  "shown c = (if (of_char c :: nat) < 32 \<or> 127 < (of_char c :: nat) then CHR '' '' else c)"

lemma spell_glyph: "i < 96 \<Longrightarrow> spell (font ! i @ bs) = char_of (32 + i) # spell bs"
proof -
  assume i: "i < 96"
  obtain b0 b1 b2 b3 b4 b5 b6 b7 where g: "font ! i = [b0, b1, b2, b3, b4, b5, b6, b7]"
    using font_row [OF i] by (auto simp: length_Suc_conv numeral_eq_Suc)
  have "index_of (font ! i) font = i"
    using index_of_nth [OF font_distinct] i by (simp add: font_length)
  then show ?thesis by (simp add: g)
qed

lemma glyph_char: "char_of (32 + glyph_index c) = shown c"
proof -
  have "32 \<le> (of_char c :: nat) \<Longrightarrow> char_of (32 + (of_char c - 32) :: nat) = c" by simp
  then show ?thesis by (auto simp: glyph_index_def shown_def Let_def not_less)
qed

lemma spell_text: "spell (concat (map (\<lambda>c. font ! glyph_index c) str)) = map shown str"
  using glyph_index_bound font_length by (induction str) (simp_all add: spell_glyph glyph_char)

lemma shown_printable: "list_all (\<lambda>c. 32 \<le> (of_char c :: nat) \<and> (of_char c :: nat) < 127) str \<Longrightarrow> map shown str = str"
  by (induction str) (auto simp: shown_def)

subsection \<open>What reaches the bus\<close>

definition bus_log :: "int \<Rightarrow> uevent list \<Rightarrow> (u8 \<times> u8) list" where
  "bus_log f es = List.map_filter (\<lambda>e. case fst e of
     Write_bytes g [m, b] \<Rightarrow> if g = f then Some (m, b) else None | _ \<Rightarrow> None) es"

lemma bus_log_simps [simp]:
  "bus_log f [] = []" "bus_log f (xs @ ys) = bus_log f xs @ bus_log f ys"
  "bus_log f [(Write_bytes f [m, b], r)] = [(m, b)]"
  by (simp_all add: bus_log_def List.map_filter_def)

definition bus :: "(('z ulog_scheme), 'f) oled \<Rightarrow> (u8 \<times> u8) list" where
  "bus d = bus_log (oled_fd d) (ulog (oworld d))"

text \<open>A computation that writes \<open>out\<close> to the bus and leaves the statics alone.\<close>

definition emits :: "((('z ulog_scheme), 'f) oled, 'a) state \<Rightarrow> (u8 \<times> u8) list \<Rightarrow> bool" where
  "emits m out \<longleftrightarrow> (\<forall>d. oled_fd (exec m d) = oled_fd d \<and> oled_cbs (exec m d) = oled_cbs d \<and>
     bus (exec m d) = bus d @ out)"

lemma emits_ret: "emits (ret x) []"
  by (simp add: emits_def)

lemma emits_bind: "emits m xs \<Longrightarrow> (\<And>x. emits (f x) ys) \<Longrightarrow> emits (m \<bind> f) (xs @ ys)"
  by (simp add: emits_def exec_bind)

lemma emits_command: "emits (send_command (uapi E) cmd) [(OLED_COMMAND_MODE, cmd)]"
  by (simp add: emits_def send_command_def run_simps bus_def)

lemma emits_data: "emits (send_data (uapi E) b) [(OLED_DATA_MODE, b)]"
  by (simp add: emits_def send_data_def run_simps bus_def)

lemma emits_for_each: "(\<And>x. emits (f x) (g x)) \<Longrightarrow> emits (for_each f xs) (concat (map g xs))"
  by (induction xs) (simp_all add: emits_ret emits_bind)

definition position_bytes :: "u32 \<Rightarrow> u32 \<Rightarrow> u8 list" where
  "position_bytes column row = [ucast (0xb0 + row), ucast (8 * column AND 0x0f),
     ucast (0x10 + (drop_bit 4 (8 * column) AND 0x0f))]"

lemma emits_position:
  "emits (ssd1306_set_position (uapi E) column row)
     (map (Pair OLED_COMMAND_MODE) (position_bytes column row))"
proof -
  have "emits (ssd1306_set_position (uapi E) column row :: (('a ulog_scheme, 'b) oled, unit) state)
     ([(OLED_COMMAND_MODE, ucast (0xb0 + row))] @ [(OLED_COMMAND_MODE, ucast (0x00 + (8 * column AND 0x0f)))] @
      [(OLED_COMMAND_MODE, ucast (0x10 + (drop_bit 4 (8 * column) AND 0x0f)))])"
    unfolding ssd1306_set_position_def by (intro emits_bind emits_command)
  then show ?thesis by (simp add: position_bytes_def)
qed

lemma emits_putc: "emits (ssd1306_putc (uapi E) c) (map (Pair OLED_DATA_MODE) (font ! glyph_index c))"
proof -
  let ?g = "font ! glyph_index c"
  have "length ?g = 8"
    using font_row glyph_index_bound [of c] by (simp add: font_length)
  then have eq: "concat (map (\<lambda>i. [(OLED_DATA_MODE, ?g ! i)]) [0..<8]) = map (Pair OLED_DATA_MODE) ?g"
    by (auto simp: concat_map_singleton intro: nth_equalityI)
  have "emits (ssd1306_putc (uapi E) c :: (('a ulog_scheme, 'b) oled, unit) state)
      (concat (map (\<lambda>i. [(OLED_DATA_MODE, ?g ! i)]) [0..<8]))"
    unfolding ssd1306_putc_def by (intro emits_for_each emits_data)
  then show ?thesis unfolding eq .
qed

lemma emits_puts:
  "emits (ssd1306_puts (uapi E) str) (map (Pair OLED_DATA_MODE) (concat (map (\<lambda>c. font ! glyph_index c) str)))"
proof -
  have "emits (ssd1306_puts (uapi E) str :: (('a ulog_scheme, 'b) oled, unit) state)
      (concat (map (\<lambda>c. map (Pair OLED_DATA_MODE) (font ! glyph_index c)) str))"
    unfolding ssd1306_puts_def by (rule emits_for_each) (rule emits_putc)
  then show ?thesis by (simp add: map_concat o_def)
qed

text \<open>The cell that a position addresses: page, and column in pixels.\<close>

lemma u32_below:
  assumes "w < (word_of_nat n :: u32)" and "n < 2 ^ 32"
  obtains k where "k \<in> set [0..<n]" and "w = word_of_nat k"
proof
  have "unat (word_of_nat n :: u32) = n" using assms(2) by (simp add: unsigned_of_nat take_bit_nat_eq_self)
  then show "unat w \<in> set [0..<n]" using assms(1) by (simp add: word_less_nat_alt)
  show "w = word_of_nat (unat w)" by simp
qed

lemma position_decode:
  assumes "column < 16" and "row < 8"
  shows "map uint (position_bytes column row) =
    [0xb0 + uint row, 8 * uint column mod 16, 0x10 + 8 * uint column div 16]"
proof -
  have cols: "list_all (\<lambda>k. uint (ucast (8 * word_of_nat k AND (0x0f :: u32)) :: u8) = 8 * uint (word_of_nat k :: u32) mod 16 \<and>
      uint (ucast (0x10 + (drop_bit 4 (8 * word_of_nat k) AND (0x0f :: u32))) :: u8) =
        0x10 + 8 * uint (word_of_nat k :: u32) div 16) [0..<16]"
    by (simp add: upt_rec)
  have rows: "list_all (\<lambda>k. uint (ucast (0xb0 + word_of_nat k :: u32) :: u8) = 0xb0 + uint (word_of_nat k :: u32)) [0..<8]"
    by (simp add: upt_rec)
  obtain c where c: "c \<in> set [0..<16]" "column = word_of_nat c"
    using assms(1) u32_below [of column 16] by auto
  obtain r where r: "r \<in> set [0..<8]" "row = word_of_nat r"
    using assms(2) u32_below [of row 8] by auto
  show ?thesis
    using cols rows c r unfolding list_all_iff position_bytes_def by (simp only: list.simps)
qed

subsection \<open>What a refresh shows\<close>

definition line_out :: "nat \<Rightarrow> string \<Rightarrow> (u8 \<times> u8) list" where
  "line_out row txt = map (Pair OLED_COMMAND_MODE) (position_bytes 0 (word_of_nat row)) @
     map (Pair OLED_DATA_MODE) (concat (map (\<lambda>c. font ! glyph_index c) txt))"

lemma emits_display:
  "emits (display (uapi E) fl mode temp period)
     (concat (map (\<lambda>(row, txt). line_out row txt) (enumerate 0 (screen_lines fl mode temp period))))"
  unfolding display_def line_out_def
  by (intro emits_for_each) (auto intro!: emits_bind emits_position emits_puts)

lemma buffer_text_length: "length (buffer_text s) \<le> 19"
  by (simp add: buffer_text_def snprintf_def)

lemma buffer_text_fits: "length s \<le> 19 \<Longrightarrow> buffer_text s = s"
  by (simp add: buffer_text_def snprintf_def)

lemma screen_lines_nth:
  "screen_lines fl mode temp p ! 3 = buffer_text (''Mode: '' @ (if mode \<noteq> 0 then ''AUTO   '' else ''MANUAL''))"
  "screen_lines fl mode temp p ! 6 = buffer_text (''Period: '' @ fmt_d p @ ''ms  '')"
  by (simp_all add: screen_lines_def Let_def)

lemma screen_lines_text:
  "screen_lines fl mode temp p = [''CSEL1a - SP.07'', ''  WATCHDOG CPU '', ''--------------'',
     ''Mode: '' @ (if mode \<noteq> 0 then ''AUTO   '' else ''MANUAL''),
     take 19 (''Temp: '' @ fmt_1f fl temp @ [CHR 0x27] @ ''C''),
     take 19 (''Freq: '' @ fmt_2f fl (f_div fl (f_round fl 1) (f_div fl (f_of_u32 fl p) (f_round fl 1000))) @ ''Hz  ''),
     take 19 (''Period: '' @ show_int (sint p) @ ''ms  '')]"
  by (simp add: screen_lines_def buffer_text_def snprintf_def fmt_d_def Let_def)

text \<open>The period's line is complete up to seven digits.\<close>

lemma period_line:
  assumes "unat p < 10 ^ 7"
  shows "screen_lines fl mode temp p ! 6 = ''Period: '' @ show_nat (unat p) @ ''ms  ''"
proof -
  have "length (show_nat (unat p)) \<le> 7" using assms by (rule length_show_nat_le) simp
  moreover have "int (unat p) < int (10 ^ 7)" using assms by (simp only: of_nat_less_iff)
  then have "uint p < 2 ^ 31" by simp
  then have "sint p = int (unat p)" by (simp add: sint_eq_uint_small)
  then have "fmt_d p = show_nat (unat p)" by (simp add: fmt_d_def show_int_def)
  ultimately have "buffer_text (''Period: '' @ fmt_d p @ ''ms  '') = ''Period: '' @ show_nat (unat p) @ ''ms  ''"
    by (subst buffer_text_fits) simp_all
  then show ?thesis by (simp only: screen_lines_nth)
qed

text \<open>What no call changes, the initialisation does not change.\<close>

lemma keeps_for_each [keeps_rules]: "(\<And>x. keeps P (f x)) \<Longrightarrow> keeps P (for_each f xs)"
  by (induction xs) (auto intro: keeps_rules)

lemma keeps_in_oled [keeps_rules]: "keeps P m \<Longrightarrow> keeps (\<lambda>d. P (oworld d)) (in_oled m)"
  by (simp add: keeps_def)

lemmas ssd1306_ops = send_command_def send_data_def ssd1306_set_position_def ssd1306_putc_def
  ssd1306_puts_def ssd1306_clear_display_def ssd1306_init_def

lemma keeps_init_oled [keeps_rules]:
  "(\<And>c. keeps P (U c)) \<Longrightarrow> keeps (\<lambda>d. P (oworld d)) (init_oled U cbs)"
  unfolding init_oled_def ssd1306_ops by (intro keeps_rules keeps_modify) simp_all

lemma keeps_oled_cbs: "keeps oled_cbs (in_oled m)"
  by (simp add: keeps_def)

lemma keeps_ssd1306_init: "keeps oled_cbs (ssd1306_init U)"
  unfolding ssd1306_ops by (intro keeps_rules keeps_oled_cbs keeps_modify) simp_all

lemma init_oled_cbs [simp]: "oled_cbs (exec (init_oled U (Some c)) d) = Some c"
  by (simp add: init_oled_def run_simps keepsD [OF keeps_ssd1306_init])

end
