(* ===== verification/Daemon.thy ===== *)
theory Daemon
  imports App Ipc Oled KRun
begin

section \<open>The daemon on the module: \<open>daemon/main.c\<close>\<close>

text \<open>
  The machine is the user-space log and the kernel module; opening a file of the
  regulator's directory runs the module's handler. The contracts of the daemon's parts are
  discharged here: \<open>regulator_files\<close> on the module's handlers, and
  \<open>command_service\<close> on the application's operations. Lemmas: what \<open>main\<close> sets up,
  and the way of a command from the client's arguments to the period of the LED.
\<close>

subsection \<open>The regulator's files\<close>

record machine = ulog +
  mkern :: kernel

definition in_kern :: "(kernel, 'a) state \<Rightarrow> (machine, 'a) state" where
  "in_kern m = zoom mkern (\<lambda>k s. s\<lparr>mkern := k\<rparr>) m"

lemma in_kern_simps [simp, run_simps]:
  "result (in_kern m) s = result m (mkern s)"
  "exec (in_kern m) s = s\<lparr>mkern := exec m (mkern s)\<rparr>"
  by (simp_all add: in_kern_def)

text \<open>The name that \<open>DEVICE_ATTR\<close> gives each attribute's file.\<close>

definition path_attr :: "string \<Rightarrow> attr option" where
  "path_attr p = map_of [(PATH_TEMPERATURE, Temperature), (PATH_MODE, Mode),
     (PATH_PERIOD_ST, Period_status), (PATH_PERIOD_SET, Period_set)] p"

definition path_show :: "kenv \<Rightarrow> string \<Rightarrow> (kernel, string \<times> nat) state option" where
  "path_show E p = Option.bind (path_attr p) (attr_show E (rcall (kapi E)))"

definition path_store :: "kenv \<Rightarrow> string \<Rightarrow> (string \<Rightarrow> nat \<Rightarrow> (kernel, nat) state) option" where
  "path_store E p = Option.bind (path_attr p) (attr_store E (rcall (kapi E)))"

definition machine_os :: "kenv \<Rightarrow> uenv \<Rightarrow> machine os" where
  "machine_os EK EU = \<lparr>ocall = uapi EU,
     oread = (\<lambda>p. case path_show EK p of
        None \<Rightarrow> ret None
      | Some h \<Rightarrow> do { r \<leftarrow> in_kern h; ret (Some (fst r)) }),
     owrite = (\<lambda>p t. case path_store EK p of
        None \<Rightarrow> ret False
      | Some h \<Rightarrow> do { in_kern (h t (length t)); ret True })\<rparr>"

text \<open>
  Documented behaviour of the kernel's number parsing, on the texts that the daemon writes:
  an optional final newline is allowed, and \<open>kstrtoint\<close> refuses what does not fit.
\<close>

definition kstr_ok :: "kenv \<Rightarrow> bool" where
  "kstr_ok E \<longleftrightarrow> (\<forall>v. kstrtouint E (fmt_u v @ nl) = Some v) \<and>
     (\<forall>v. kstrtoint E (fmt_u v @ nl) = (if uint v < 2 ^ 31 then Some v else None)) \<and> 32 \<le> PAGE_SIZE E"

lemma kstr_okD:
  assumes "kstr_ok E"
  shows "kstrtouint E (fmt_u v @ nl) = Some v"
    "kstrtoint E (fmt_u v @ nl) = (if uint v < 2 ^ 31 then Some v else None)" "32 \<le> PAGE_SIZE E"
  using assms by (simp_all add: kstr_ok_def)

definition mmode :: "machine \<Rightarrow> i32" where "mmode s = kmode (mkern s)"
definition mperiod :: "machine \<Rightarrow> u32" where "mperiod s = kperiod (mkern s)"
definition mtemp :: "kenv \<Rightarrow> machine \<Rightarrow> u32" where
  "mtemp E s = result (cb_get_temperature (kapi E))
     (sworld (exec (kcall_s E (Mutex_lock Sysfs_lock)) (mkern s)))"
definition machine_inv :: "kenv \<Rightarrow> machine \<Rightarrow> bool" where
  "machine_inv E s \<longleftrightarrow> kernel_inv E (mkern s) \<and> kstr_ok E"

lemma mviews_update [simp]:
  "mmode (s\<lparr>ulog := l\<rparr>) = mmode s" "mperiod (s\<lparr>ulog := l\<rparr>) = mperiod s"
  "mtemp E (s\<lparr>ulog := l\<rparr>) = mtemp E s" "machine_inv E (s\<lparr>ulog := l\<rparr>) = machine_inv E s"
  "mmode (s\<lparr>mkern := k\<rparr>) = kmode k" "mperiod (s\<lparr>mkern := k\<rparr>) = kperiod k"
  by (simp_all add: mmode_def mperiod_def mtemp_def machine_inv_def)

lemma path_attr_simps [simp]:
  "path_attr PATH_TEMPERATURE = Some Temperature" "path_attr PATH_MODE = Some Mode"
  "path_attr PATH_PERIOD_ST = Some Period_status" "path_attr PATH_PERIOD_SET = Some Period_set"
  by (simp_all add: path_attr_def)

lemma path_files [simp]:
  "path_show E PATH_MODE = Some (mode_show E (rcall (kapi E)))"
  "path_show E PATH_PERIOD_ST = Some (period_status_show E (rcall (kapi E)))"
  "path_show E PATH_TEMPERATURE = Some (temperature_show E (rcall (kapi E)))"
  "path_store E PATH_MODE = Some (mode_store E (rcall (kapi E)))"
  "path_store E PATH_PERIOD_SET = Some (period_set_store E (rcall (kapi E)))"
  by (simp_all add: path_show_def path_store_def)

lemma machine_os_simps [simp]:
  "ocall (machine_os EK EU) = uapi EU"
  "path_show EK p = Some h \<Longrightarrow>
    result (oread (machine_os EK EU) p) s = Some (fst (result h (mkern s)))"
  "path_show EK p = Some h \<Longrightarrow>
    exec (oread (machine_os EK EU) p) s = s\<lparr>mkern := exec h (mkern s)\<rparr>"
  "path_store EK p = Some g \<Longrightarrow>
    exec (owrite (machine_os EK EU) p t) s = s\<lparr>mkern := exec (g t (length t)) (mkern s)\<rparr>"
  by (simp_all add: machine_os_def run_simps)

lemma machine_os_none:
  "path_show EK p = None \<Longrightarrow>
    exec (oread (machine_os EK EU) p) s = s"
  "path_store EK p = None \<Longrightarrow>
    exec (owrite (machine_os EK EU) p t) s = s"
  by (simp_all add: machine_os_def run_simps)

lemma oread_frame:
  assumes "machine_inv EK s"
  shows "mmode (exec (oread (machine_os EK EU) p) s) = mmode s"
    and "mperiod (exec (oread (machine_os EK EU) p) s) = mperiod s"
    and "machine_inv EK (exec (oread (machine_os EK EU) p) s)"
  using assms show_effect [of EK "mkern s"]
  by (cases "path_show EK p";
      auto simp: machine_os_none path_show_def bind_eq_Some_conv machine_inv_def mmode_def mperiod_def)+

lemma owrite_frame:
  assumes "machine_inv EK s"
  shows "machine_inv EK (exec (owrite (machine_os EK EU) p t) s)"
  using assms store_effect(1) [of EK "mkern s"]
  by (cases "path_store EK p";
      auto simp: machine_os_none path_store_def bind_eq_Some_conv machine_inv_def)

lemma file_ulog:
  "ulog (exec (oread (machine_os EK EU) p) s) = ulog s"
  "ulog (exec (owrite (machine_os EK EU) p t) s) = ulog s"
  by (simp_all add: machine_os_def run_simps split: option.split)

lemma show_texts:
  assumes "machine_inv EK s"
  shows "result (oread (machine_os EK EU) PATH_MODE) s = Some (fmt_d (mmode s) @ nl)"
    and "result (oread (machine_os EK EU) PATH_PERIOD_ST) s = Some (fmt_u (mperiod s) @ nl)"
    and "result (oread (machine_os EK EU) PATH_TEMPERATURE) s =
      Some (fmt_u (mtemp EK s div 1000) @ ''.'' @ fmt_03u (mtemp EK s mod 1000) @ nl)"
proof -
  have reg: "registered (full_table (cb_get_temperature (kapi EK)) (cb_get_mode (kapi EK))
     (cb_set_mode (kapi EK)) (cb_get_period (kapi EK)) (cb_set_period (kapi EK)))
     (reg_inv (hw_table adjust_period (read_temp EK)) blink_period_ms) (mkern s)"
    using assms by (simp add: machine_inv_def kernel_inv_registered)
  have page: "32 \<le> PAGE_SIZE EK" using assms by (simp add: machine_inv_def kstr_okD)
  show "result (oread (machine_os EK EU) PATH_MODE) s = Some (fmt_d (mmode s) @ nl)"
    using khw.prov.mode_show_value [OF reg] page length_fmt_d [of "mmode s"]
    by (simp add: snprintf_fits mmode_def kmode_def)
  show "result (oread (machine_os EK EU) PATH_PERIOD_ST) s = Some (fmt_u (mperiod s) @ nl)"
    using khw.prov.period_status_show_value [OF reg] page length_fmt_u [of "mperiod s"]
    by (simp add: snprintf_fits mperiod_def kperiod_def)
  have l3: "length (fmt_03u (mtemp EK s mod 1000)) = 3"
    by (rule length_fmt_03u) (simp add: unat_mod)
  have tbl: "scb_get_temperature (device_cbs (mkern s)) = Some (cb_get_temperature (kapi EK))"
    using reg by (simp add: registered_def)
  have "fst (result (temperature_show EK (rcall (kapi EK))) (mkern s)) =
      fst (snprintf (PAGE_SIZE EK) (fmt_u (mtemp EK s div 1000) @ ''.'' @ fmt_03u (mtemp EK s mod 1000) @ nl))"
    using tbl by (simp add: temperature_show_def mtemp_def run_simps)
  then show "result (oread (machine_os EK EU) PATH_TEMPERATURE) s =
      Some (fmt_u (mtemp EK s div 1000) @ ''.'' @ fmt_03u (mtemp EK s mod 1000) @ nl)"
    using page l3 length_fmt_u [of "mtemp EK s div 1000"] by (simp add: snprintf_fits)
qed

lemma mode_written_effect:
  assumes "machine_inv EK s"
  shows "mmode (exec (owrite (machine_os EK EU) PATH_MODE (fmt_u v @ nl)) s) = (if v = 0 \<or> v = 1 then v else mmode s)"
    and "mperiod (exec (owrite (machine_os EK EU) PATH_MODE (fmt_u v @ nl)) s) = mperiod s"
proof -
  have inv: "kernel_inv EK (mkern s)" and str: "kstr_ok EK"
    using assms by (simp_all add: machine_inv_def)
  note eff = store_effect(2) [OF inv attr_store.simps(2), of "fmt_u v @ nl" "Suc (length (fmt_u v))"]
  show "mmode (exec (owrite (machine_os EK EU) PATH_MODE (fmt_u v @ nl)) s) = (if v = 0 \<or> v = 1 then v else mmode s)"
    "mperiod (exec (owrite (machine_os EK EU) PATH_MODE (fmt_u v @ nl)) s) = mperiod s"
    using eff by (auto simp: kstr_okD [OF str] mmode_def mperiod_def split: if_splits)
qed

lemma period_written_effect:
  assumes "machine_inv EK s"
  shows "mperiod (exec (owrite (machine_os EK EU) PATH_PERIOD_SET (fmt_u v @ nl)) s) =
      (if mmode s = 0 \<and> 0 < v then v else mperiod s)"
    and "mmode (exec (owrite (machine_os EK EU) PATH_PERIOD_SET (fmt_u v @ nl)) s) = mmode s"
proof -
  have inv: "kernel_inv EK (mkern s)" and str: "kstr_ok EK"
    using assms by (simp_all add: machine_inv_def)
  note eff = store_effect(2) [OF inv attr_store.simps(4), of "fmt_u v @ nl" "Suc (length (fmt_u v))"]
  show "mperiod (exec (owrite (machine_os EK EU) PATH_PERIOD_SET (fmt_u v @ nl)) s) =
      (if mmode s = 0 \<and> 0 < v then v else mperiod s)"
    "mmode (exec (owrite (machine_os EK EU) PATH_PERIOD_SET (fmt_u v @ nl)) s) = mmode s"
    using eff by (auto simp: kstr_okD [OF str] mmode_def mperiod_def split: if_splits)
qed

declare machine_os_simps(2-4) [simp del]

lemma machine_mode: "machine_inv EK s \<Longrightarrow> mmode s = 0 \<or> mmode s = 1"
  by (auto simp: machine_inv_def kernel_inv_iff mmode_def)

interpretation files: regulator_files "machine_os EK EU" mmode mperiod "mtemp EK"
  "\<lambda>s. ulock_state (ulog s)" "machine_inv EK" for EK EU
  by unfold_locales (simp_all add: ulogs_locks_def show_texts oread_frame owrite_frame
      mode_written_effect period_written_effect file_ulog machine_mode)

subsection \<open>The service behind the messages\<close>

definition app_view :: "machine app \<Rightarrow> i32 \<times> u32" where
  "app_view a = (mmode (aworld a), mperiod (aworld a))"

definition app_os :: "'w os \<Rightarrow> ucall \<Rightarrow> ('w app, int) state" where
  "app_os F c = in_app (ocall F c)"

lemma app_os_simps [simp, run_simps]:
  "result (app_os F c) a = result (ocall F c) (aworld a)"
  "exec (app_os F c) a = a\<lparr>aworld := exec (ocall F c) (aworld a)\<rparr>"
  by (simp_all add: app_os_def)

interpretation service: command_service "app_os (machine_os EK EU)" "set_mode (machine_os EK EU)"
  "set_period (machine_os EK EU)" "increase_period (machine_os EK EU)"
  "decrease_period (machine_os EK EU)" app_view "\<lambda>a. ulock_state (ulog (aworld a))"
  "\<lambda>a. machine_inv EK (aworld a)" for EK EU
proof (unfold_locales, goal_cases)
  case (4 w v)
  then show ?case
    by (simp add: app_view_def command_meaning_def files.set_mode_app)
next
  case (5 w v)
  then show ?case
    by (simp add: app_view_def command_meaning_def cmd_defs files.set_period_app)
next
  case (6 w v)
  then show ?case
    by (simp add: app_view_def command_meaning_def cmd_defs files.increase_period_effect)
next
  case (7 w v)
  then show ?case
    by (simp add: app_view_def command_meaning_def cmd_defs files.decrease_period_effect)
qed (simp_all add: app_view_def ulogs_locks_def files.set_mode_app files.set_period_app
    files.increase_period_effect files.decrease_period_effect files.app_locks)

text \<open>The same service seen from the server, with the display's statics in between.\<close>

definition oled_os :: "'w os \<Rightarrow> ucall \<Rightarrow> (('w app, 'f) oled, int) state" where
  "oled_os F c = in_oled (app_os F c)"

lemma oled_os_simps [simp, run_simps]:
  "result (oled_os F c) d = result (ocall F c) (aworld (oworld d))"
  "exec (oled_os F c) d = d\<lparr>oworld := exec (app_os F c) (oworld d)\<rparr>"
  by (simp_all add: oled_os_def)

interpretation server: command_service "oled_os (machine_os EK EU)"
  "\<lambda>m. in_oled (set_mode (machine_os EK EU) m)" "\<lambda>p. in_oled (set_period (machine_os EK EU) p)"
  "in_oled (increase_period (machine_os EK EU))" "in_oled (decrease_period (machine_os EK EU))"
  "\<lambda>d. app_view (oworld d)" "\<lambda>d. ulock_state (ulog (aworld (oworld d)))"
  "\<lambda>d. machine_inv EK (aworld (oworld d))" for EK EU
  by unfold_locales
    (simp_all add: service.U_frame service.meanings service.invars service.locked ulogs_locks_def
      del: app_os_simps, simp_all)

subsection \<open>\<open>main\<close>\<close>

definition ipc_cbs :: "'w os \<Rightarrow> ('w app, 'f) oled ipc_callbacks" where
  "ipc_cbs F = \<lparr>on_set_mode = Some (\<lambda>m. in_oled (set_mode F m)),
     on_set_period = Some (\<lambda>p. in_oled (set_period F p)),
     on_inc_period = Some (in_oled (increase_period F)),
     on_dec_period = Some (in_oled (decrease_period F))\<rparr>"

definition daemon_oled_cbs :: "'f floats \<Rightarrow> 'w os \<Rightarrow> ('w app, 'f) oled_callbacks" where
  "daemon_oled_cbs fl F = \<lparr>ocb_get_temperature = get_temperature (f_round fl) F,
     ocb_get_mode = get_mode F, ocb_get_period = get_period F\<rparr>"

text \<open>The addresses of the three local structures; their values do not matter.\<close>

definition btn_inc :: int where "btn_inc = 1"
definition btn_dec :: int where "btn_dec = 2"
definition btn_mode :: int where "btn_mode = 3"

definition in_btns :: "('w, 'a) state \<Rightarrow> ('w btns, 'a) state" where
  "in_btns m = zoom bworld (\<lambda>w b. b\<lparr>bworld := w\<rparr>) m"

lemma in_btns_simps [simp, run_simps]:
  "result (in_btns m) b = result m (bworld b)"
  "exec (in_btns m) b = b\<lparr>bworld := exec m (bworld b)\<rparr>"
  by (simp_all add: in_btns_def)

definition main_os :: "'w os \<Rightarrow> ucall \<Rightarrow> (('w app, 'f) oled ipc, int) state" where
  "main_os F c = in_ipc (oled_os F c)"

definition in_main :: "('w app, 'a) state \<Rightarrow> (('w app, 'f) oled ipc, 'a) state" where
  "in_main m = in_ipc (in_oled m)"

text \<open>\<open>True\<close>: the endless loop at the end is reached.\<close>

definition daemon_start :: "'f floats \<Rightarrow> 'w os \<Rightarrow> ((('w app, 'f) oled ipc) btns, bool) state" where
  "daemon_start fl F = do {
     BTN_set_callback (main_os F) btn_inc (Some (in_main (btn_increase_period F)));
     BTN_set_callback (main_os F) btn_dec (Some (in_main (btn_decrease_period F)));
     BTN_set_callback (main_os F) btn_mode (Some (in_main (mode_toggle F)));
     r \<leftarrow> in_btns (start_ipc_server (oled_os F) (Some (ipc_cbs F)));
     ret (0 \<le> r)
   }"

definition daemon_main :: "'f floats \<Rightarrow> 'w os \<Rightarrow> ((('w app, 'f) oled ipc) btns, bool) state" where
  "daemon_main fl F = do {
     r \<leftarrow> BTN_init (main_os F) btn_inc BTN_INCREASE;
     if r \<noteq> Some 0 then ret False
     else do {
       r \<leftarrow> BTN_init (main_os F) btn_dec BTN_DECREASE;
       if r \<noteq> Some 0 then ret False
       else do {
         r \<leftarrow> BTN_init (main_os F) btn_mode BTN_MODE;
         if r \<noteq> Some 0 then ret False
         else do {
           l \<leftarrow> in_btns (LED_init (main_os F) (Some \<lparr>gpio = 0, led_id = 1\<rparr>) LED_POWER);
           if fst l \<noteq> 0 then ret False
           else do {
             ok \<leftarrow> daemon_start fl F;
             if \<not> ok then ret False
             else do {
               in_btns (in_ipc (init_oled (app_os F) (Some (daemon_oled_cbs fl F))));
               in_btns (in_main (btn_set_led (snd l)));
               in_btns (in_main (init_animations F));
               ret True
             }
           }
         }
       }
     }
   }"

text \<open>What \<open>main\<close> has set up when it reaches its loop.\<close>

definition machine_view :: "kenv \<Rightarrow> (machine app, 'f) oled \<Rightarrow> (i32 \<times> u32) \<times> bool" where
  "machine_view EK d = (app_view (oworld d), machine_inv EK (aworld (oworld d)))"

lemma keeps_oled_os: "keeps (machine_view EK) (oled_os (machine_os EK EU) c)"
  by (rule keepsI) (simp add: machine_view_def app_view_def)

lemma keeps_main_os: "keeps (\<lambda>i. machine_view EK (iworld i)) (main_os (machine_os EK EU) c)"
  by (rule keepsI) (simp add: main_os_def keepsD [OF keeps_oled_os] del: oled_os_simps)

lemma keeps_in_btns: "keeps Q m \<Longrightarrow> keeps (\<lambda>b. Q (bworld b)) (in_btns m)"
  by (simp add: keeps_def)

lemma keeps_in_ipc: "keeps Q m \<Longrightarrow> keeps (\<lambda>i. Q (iworld i)) (in_ipc m)"
  by (simp add: keeps_def)

abbreviation main_view :: "kenv \<Rightarrow> ((machine app, 'f) oled ipc) btns \<Rightarrow> (i32 \<times> u32) \<times> bool" where
  "main_view EK b \<equiv> machine_view EK (iworld (bworld b))"

lemma keeps_app_setup:
  "keeps (main_view EK) (in_btns (in_ipc (init_oled (app_os (machine_os EK EU)) cbs)))"
  "keeps (main_view EK) (in_btns (in_main (btn_set_led l)))"
  "keeps (main_view EK) (in_btns (in_main (init_animations (machine_os EK EU))))"
proof -
  have os: "keeps (\<lambda>a. (app_view a, machine_inv EK (aworld a))) (app_os (machine_os EK EU) c)" for c
    by (rule keepsI) (simp add: app_view_def)
  show "keeps (main_view EK) (in_btns (in_ipc (init_oled (app_os (machine_os EK EU)) cbs)))"
    using keeps_init_oled [OF os]
    by (intro keeps_in_btns keeps_in_ipc) (simp add: machine_view_def)
  show "keeps (main_view EK) (in_btns (in_main (btn_set_led l)))"
    by (rule keepsI) (simp add: in_main_def btn_set_led_def machine_view_def app_view_def run_simps
        split: option.split)
  show "keeps (main_view EK) (in_btns (in_main (init_animations (machine_os EK EU))))"
    by (rule keepsI) (simp add: in_main_def init_animations_def machine_view_def app_view_def)
qed

lemma keeps_daemon_start: "keeps (main_view EK) (daemon_start fl (machine_os EK EU))"
  unfolding daemon_start_def
  by (intro keeps_bind keeps_ret keeps_BTN_set_callback keeps_main_os keeps_in_btns keeps_start
      keeps_oled_os)

lemma keeps_daemon_main: "keeps (main_view EK) (daemon_main fl (machine_os EK EU))"
  unfolding daemon_main_def
  by (intro keeps_bind keeps_if keeps_ret keeps_BTN_init keeps_main_os keeps_in_btns keeps_LED_init
      keeps_daemon_start keeps_app_setup)

lemma daemon_start_effect:
  assumes "result (daemon_start fl F) b"
  defines "b' \<equiv> exec (daemon_start fl F) b"
  shows "is_running (bworld b')" and "current_cbs (bworld b') = ipc_cbs F"
    and "btn_callback (btn_mem b' btn_inc) = Some (in_main (btn_increase_period F))"
    and "btn_callback (btn_mem b' btn_dec) = Some (in_main (btn_decrease_period F))"
    and "btn_callback (btn_mem b' btn_mode) = Some (in_main (mode_toggle F))"
  using assms(1) start_up
  by (simp_all add: b'_def daemon_start_def result_bind exec_bind btn_inc_def btn_dec_def btn_mode_def)

lemma in_btns_setup [simp]:
  "is_running (bworld (exec (in_btns (in_ipc m)) b)) = is_running (bworld b)"
  "current_cbs (bworld (exec (in_btns (in_ipc m)) b)) = current_cbs (bworld b)"
  "btn_mem (exec (in_btns m') b) = btn_mem b"
  by simp_all

lemma daemon_main_up:
  assumes "result (daemon_main fl F) b"
  defines "b' \<equiv> exec (daemon_main fl F) b"
  shows "is_running (bworld b')" and "current_cbs (bworld b') = ipc_cbs F"
    and "btn_callback (btn_mem b' btn_inc) = Some (in_main (btn_increase_period F))"
    and "btn_callback (btn_mem b' btn_dec) = Some (in_main (btn_decrease_period F))"
    and "btn_callback (btn_mem b' btn_mode) = Some (in_main (mode_toggle F))"
    and "oled_cbs (iworld (bworld b')) = Some (daemon_oled_cbs fl F)"
    and "app_led (oworld (iworld (bworld b'))) \<noteq> None"
proof -
  let ?b3 = "exec (BTN_init (main_os F) btn_mode BTN_MODE) (exec (BTN_init (main_os F) btn_dec BTN_DECREASE)
    (exec (BTN_init (main_os F) btn_inc BTN_INCREASE) b))"
  let ?led = "LED_init (main_os F) (Some \<lparr>gpio = 0, led_id = 1\<rparr>) LED_POWER"
  let ?b4 = "exec (in_btns ?led) ?b3"
  let ?l = "snd (result ?led (bworld ?b3))"
  let ?b5 = "exec (daemon_start fl F) ?b4"
  have ok: "result (daemon_start fl F) ?b4" "fst (result ?led (bworld ?b3)) = 0"
    and b': "b' = exec (in_btns (in_main (init_animations F))) (exec (in_btns (in_main (btn_set_led ?l)))
      (exec (in_btns (in_ipc (init_oled (app_os F) (Some (daemon_oled_cbs fl F))))) ?b5))"
    using assms(1) unfolding b'_def daemon_main_def
    by (auto simp: result_bind exec_bind simp del: in_btns_simps(2) split: if_splits)
  note start = daemon_start_effect [OF ok(1)]
  have led: "?l \<noteq> None" using LED_init_some [OF ok(2)] .
  show "is_running (bworld b')" "current_cbs (bworld b') = ipc_cbs F"
    "btn_callback (btn_mem b' btn_inc) = Some (in_main (btn_increase_period F))"
    "btn_callback (btn_mem b' btn_dec) = Some (in_main (btn_decrease_period F))"
    "btn_callback (btn_mem b' btn_mode) = Some (in_main (mode_toggle F))"
    using start by (simp_all add: b' in_main_def del: in_btns_simps(2))
  show "oled_cbs (iworld (bworld b')) = Some (daemon_oled_cbs fl F)"
    by (simp add: b' in_main_def)
  show "app_led (oworld (iworld (bworld b'))) \<noteq> None"
    using led by (auto simp: b' in_main_def btn_set_led_def init_animations_def run_simps
        split: option.split)
qed

subsection \<open>From the client and the buttons to the LED\<close>

text \<open>The server that \<open>main\<close> has started, on a module that is loaded.\<close>

definition daemon_serving :: "kenv \<Rightarrow> uenv \<Rightarrow> (machine app, 'f) oled ipc \<Rightarrow> bool" where
  "daemon_serving EK EU i \<longleftrightarrow> current_cbs i = ipc_cbs (machine_os EK EU) \<and> is_running i \<and>
     machine_inv EK (aworld (oworld (iworld i)))"

text \<open>What the kernel module then does: its mode, its period and the period of the LED.\<close>

definition kernel_view :: "(machine app, 'f) oled ipc \<Rightarrow> i32 \<times> u32 \<times> i32" where
  "kernel_view i = (let k = mkern (aworld (oworld (iworld i))) in (kmode k, kperiod k, kblink k))"

lemma ipc_cbs_full: "ipc_cbs F = full_callbacks (\<lambda>m. in_oled (set_mode F m))
    (\<lambda>p. in_oled (set_period F p)) (in_oled (increase_period F)) (in_oled (decrease_period F))"
  by (simp add: ipc_cbs_def full_callbacks_def)

lemma serving_iff: "daemon_serving EK EU i \<longleftrightarrow> server.serving EK EU i \<and> is_running i"
  by (auto simp: daemon_serving_def server.serving_def ipc_cbs_full)

lemma kernel_view_app:
  assumes "machine_inv EK (aworld (oworld (iworld i)))"
  shows "kernel_view i = (case app_view (oworld (iworld i)) of (m, p) \<Rightarrow> (m, p, p))"
  using assms
  by (simp add: kernel_view_def app_view_def Let_def mmode_def mperiod_def machine_inv_def kernel_inv_iff)

lemma receive_kernel_view:
  assumes "daemon_serving EK EU i"
  shows "kernel_view (exec (ipc_receive (oled_os (machine_os EK EU)) d) i) =
      (case datagram_meaning d (app_view (oworld (iworld i))) of (m, p) \<Rightarrow> (m, p, p))"
    and "daemon_serving EK EU (exec (ipc_receive (oled_os (machine_os EK EU)) d) i)"
proof -
  note eff = server.ipc_receive_effect [of EK EU i d]
  have s: "server.serving EK EU i" "is_running i" using assms by (simp_all add: serving_iff)
  show serving: "daemon_serving EK EU (exec (ipc_receive (oled_os (machine_os EK EU)) d) i)"
    using eff s by (simp add: serving_iff)
  then have "machine_inv EK (aworld (oworld (iworld (exec (ipc_receive (oled_os (machine_os EK EU)) d) i))))"
    by (simp add: daemon_serving_def)
  from kernel_view_app [OF this] show "kernel_view (exec (ipc_receive (oled_os (machine_os EK EU)) d) i) =
      (case datagram_meaning d (app_view (oworld (iworld i))) of (m, p) \<Rightarrow> (m, p, p))"
    using eff(1) s by simp
qed

lemma cli_datagram:
  assumes "result (cli_main (uapi E) argv) s = EXIT_SUCCESS"
  shows "\<exists>bs. sent (ulog (exec (cli_main (uapi E) argv) s)) = sent (ulog s) @ [bs] \<and>
    datagram_meaning (Some bs) = command_meaning (snd (process_arguments argv \<lparr>command = 0, msg_value = 0\<rparr>))"
  using cli_sends(1) [OF assms] by (intro exI conjI) (auto simp: fun_eq_iff)

lemma main_serving:
  assumes "result (daemon_main fl (machine_os EK EU)) b"
    and "machine_inv EK (aworld (oworld (iworld (bworld b))))"
  defines "b' \<equiv> exec (daemon_main fl (machine_os EK EU)) b"
  shows "daemon_serving EK EU (bworld b')"
    and "app_view (oworld (iworld (bworld b'))) = app_view (oworld (iworld (bworld b)))"
proof -
  have v: "main_view EK b' = main_view EK b" unfolding b'_def by (rule keepsD [OF keeps_daemon_main])
  show "app_view (oworld (iworld (bworld b'))) = app_view (oworld (iworld (bworld b)))"
    using v by (simp add: machine_view_def)
  show "daemon_serving EK EU (bworld b')"
    using v assms(2) daemon_main_up(1,2) [OF assms(1)] by (simp add: daemon_serving_def machine_view_def b'_def)
qed

text \<open>A press of a button: the level is 1 when the thread reads it.\<close>

definition btn_view :: "((machine app, 'f) oled ipc) btns \<Rightarrow> i32 \<times> u32" where
  "btn_view b = app_view (oworld (iworld (bworld b)))"

lemma keeps_main_view: "app_view (oworld (iworld (exec (main_os (machine_os EK EU) c) w))) = app_view (oworld (iworld w))"
  "machine_inv EK (aworld (oworld (iworld (exec (main_os (machine_os EK EU) c) w)))) =
    machine_inv EK (aworld (oworld (iworld w)))"
  using keepsD [OF keeps_main_os, of EK EU c w] by (simp_all add: machine_view_def)

lemma pressed:
  assumes "btn \<noteq> 0" and "btn_fd (btn_mem b btn) \<noteq> - 1"
    and "btn_callback (btn_mem b btn) = Some (in_main m)"
    and "machine_inv EK (aworld (oworld (iworld (bworld b))))"
    and eff: "\<And>a. machine_inv EK (aworld a) \<Longrightarrow> app_view (exec m a) = f (app_view a)"
  shows "btn_view (exec (btn_event (main_os (machine_os EK EU)) btn) b) =
    (if result (main_os (machine_os EK EU) (Pread (btn_fd (btn_mem b btn)) 2))
        (exec (main_os (machine_os EK EU) (Plock (Btn_lock btn))) (bworld b)) = 49
     then f (btn_view b) else btn_view b)"
  using assms(1-4)
  by (simp add: btn_view_def btn_event_world Let_def keeps_main_view in_main_def eff)

lemma toggle_view: "machine_inv EK (aworld a) \<Longrightarrow>
    app_view (exec (mode_toggle (machine_os EK EU)) a) = (\<lambda>(m, p). (if m = 0 then 1 else 0, p)) (app_view a)"
  by (simp add: app_view_def files.mode_toggle_effect)

lemma btn_increase_view: "machine_inv EK (aworld a) \<Longrightarrow>
    app_view (exec (btn_increase_period (machine_os EK EU)) a) =
    command_meaning \<lparr>command = CMD_INC_PERIOD, msg_value = 0\<rparr> (app_view a)"
  using service.meanings(3) [of EK "exec (trigger_pulse (machine_os EK EU)) a" EU 0]
    files.trigger_pulse_effect [of EK EU a]
  by (simp add: btn_increase_period_def exec_bind app_view_def)

lemma btn_decrease_view: "machine_inv EK (aworld a) \<Longrightarrow>
    app_view (exec (btn_decrease_period (machine_os EK EU)) a) =
    command_meaning \<lparr>command = CMD_DEC_PERIOD, msg_value = 0\<rparr> (app_view a)"
  using service.meanings(4) [of EK "exec (trigger_pulse (machine_os EK EU)) a" EU 0]
    files.trigger_pulse_effect [of EK EU a]
  by (simp add: btn_decrease_period_def exec_bind app_view_def)

text \<open>A refresh of the display asks for the three values and shows them.\<close>

lemma refresh_shows:
  fixes d :: "(machine app, 'f) oled"
  assumes "machine_inv EK (aworld (oworld d))"
    and "oled_cbs d = Some (daemon_oled_cbs fl (machine_os EK EU))"
  defines "F \<equiv> machine_os EK EU"
  defines "d1 \<equiv> exec (in_oled (get_mode F)) d"
  defines "d3 \<equiv> exec (in_oled (get_period F)) (exec (in_oled (get_temperature (f_round fl) F)) d1)"
  shows "exec (oled_refresh (app_os F) fl) d =
    exec (in_oled (app_os F (Usleep 250000)))
      (exec (display (app_os F) fl (fst (app_view (oworld d)))
        (f_round fl (of_nat (unat (mtemp EK (aworld (oworld d1)))) / 1000)) (snd (app_view (oworld d)))) d3)"
  using assms(1,2)
  by (simp add: oled_refresh_def run_simps daemon_oled_cbs_def d1_def d3_def F_def get_mode_def
      get_temperature_def get_period_def app_view_def files.getters_frame files.get_mode_value
      files.get_temperature_value files.get_period_value)

end
