(* ===== verification/DaemonThreads.thy ===== *)
theory DaemonThreads
  imports Daemon
begin

section \<open>The daemon's threads at run time\<close>

text \<open>
  The thread of the buttons and the thread of the server call the operations of
  \<open>application/app.c\<close> at any time. The relative ones (\<open>increase_period\<close>, \<open>decrease_period\<close>,
  \<open>mode_toggle\<close>) read a file and write another under \<open>app_lock\<close>; \<open>set_mode\<close> and \<open>set_period\<close> write
  without it. A step is what a thread does between two accesses to the files, so that steps of
  other threads and of the kernel fall in between. The locale \<open>regulator_files\<close> says all that the proofs
  need of the files. Lemmas: the sections compose to the operations; the relative commands take
  effect one after the other; an absolute setting can be lost between them.
\<close>

subsection \<open>Sections\<close>

datatype crew_op = C_inc | C_dec | C_toggle

datatype crew_set = S_mode i32 | S_period u32

datatype crew_pc =
    C_idle
  | C_locked crew_op
  | C_fetched crew_op u32
  | C_stored

definition crew_enter :: "'w os \<Rightarrow> ('w app, unit) state" where
  "crew_enter F = uvoid (in_app (ocall F (Plock App_lock)))"

definition crew_fetch :: "'w os \<Rightarrow> crew_op \<Rightarrow> ('w app, u32) state" where
  "crew_fetch F x = (case x of C_toggle \<Rightarrow> in_app (sysfs_get_mode F) | _ \<Rightarrow> in_app (sysfs_get_period F))"

definition crew_store :: "'w os \<Rightarrow> crew_op \<Rightarrow> u32 \<Rightarrow> ('w app, unit) state" where
  "crew_store F x v = (case x of
     C_inc \<Rightarrow> set_period F (v + GAP_PERIOD_MS)
   | C_dec \<Rightarrow> (if GAP_PERIOD_MS < v then set_period F (v - GAP_PERIOD_MS) else ret ())
   | C_toggle \<Rightarrow> set_mode F (v XOR 1))"

definition crew_leave :: "'w os \<Rightarrow> ('w app, unit) state" where
  "crew_leave F = uvoid (in_app (ocall F (Punlock App_lock)))"

definition crew_setting :: "'w os \<Rightarrow> crew_set \<Rightarrow> ('w app, unit) state" where
  "crew_setting F x = (case x of S_mode m \<Rightarrow> set_mode F m | S_period p \<Rightarrow> set_period F p)"

definition crew_whole :: "'w os \<Rightarrow> crew_op \<Rightarrow> ('w app, unit) state" where
  "crew_whole F x = do {
     crew_enter F;
     v \<leftarrow> crew_fetch F x;
     crew_store F x v;
     crew_leave F
   }"

lemma sections_compose:
  "crew_whole F C_inc = increase_period F"
  "crew_whole F C_dec = decrease_period F"
  "crew_whole F C_toggle = mode_toggle F"
  by (simp_all add: crew_whole_def crew_enter_def crew_fetch_def crew_store_def crew_leave_def
      increase_period_def decrease_period_def mode_toggle_def)

subsection \<open>Interleavings\<close>

record 'w crew =
  crew_app :: "'w app"
  crew_at :: "nat \<Rightarrow> crew_pc"
  crew_holder :: "nat option"   \<comment> \<open>of \<open>app_lock\<close>\<close>

datatype crew_act = Enter nat crew_op | Fetch nat | Put nat | Leave nat | Set_abs nat crew_set | Background

text \<open>\<open>bg\<close>: what else may change the world, the kernel's threads.\<close>

inductive crew_step :: "'w os \<Rightarrow> ('w \<Rightarrow> 'w \<Rightarrow> bool) \<Rightarrow> 'w crew \<Rightarrow> crew_act \<Rightarrow> 'w crew \<Rightarrow> bool" for F bg where
  crew_enters: "crew_at c t = C_idle \<Longrightarrow> crew_holder c = None \<Longrightarrow>
    crew_step F bg c (Enter t x) (c\<lparr>crew_app := exec (crew_enter F) (crew_app c),
      crew_at := (crew_at c)(t := C_locked x), crew_holder := Some t\<rparr>)"
| crew_fetches: "crew_at c t = C_locked x \<Longrightarrow>
    crew_step F bg c (Fetch t) (c\<lparr>crew_app := exec (crew_fetch F x) (crew_app c),
      crew_at := (crew_at c)(t := C_fetched x (result (crew_fetch F x) (crew_app c)))\<rparr>)"
| crew_puts: "crew_at c t = C_fetched x v \<Longrightarrow>
    crew_step F bg c (Put t) (c\<lparr>crew_app := exec (crew_store F x v) (crew_app c), crew_at := (crew_at c)(t := C_stored)\<rparr>)"
| crew_leaves: "crew_at c t = C_stored \<Longrightarrow>
    crew_step F bg c (Leave t) (c\<lparr>crew_app := exec (crew_leave F) (crew_app c),
      crew_at := (crew_at c)(t := C_idle), crew_holder := None\<rparr>)"
| crew_sets: "crew_at c t = C_idle \<Longrightarrow>
    crew_step F bg c (Set_abs t y) (c\<lparr>crew_app := exec (crew_setting F y) (crew_app c)\<rparr>)"
| crew_background: "bg (aworld (crew_app c)) w \<Longrightarrow>
    crew_step F bg c Background (c\<lparr>crew_app := (crew_app c)\<lparr>aworld := w\<rparr>\<rparr>)"

inductive crew_run :: "'w os \<Rightarrow> ('w \<Rightarrow> 'w \<Rightarrow> bool) \<Rightarrow> 'w crew \<Rightarrow> crew_act list \<Rightarrow> 'w crew \<Rightarrow> bool" for F bg c where
  crew_start: "crew_run F bg c [] c"
| crew_next: "crew_run F bg c tr d \<Longrightarrow> crew_step F bg d a e \<Longrightarrow> crew_run F bg c (tr @ [a]) e"

definition is_set_abs :: "crew_act \<Rightarrow> bool" where
  "is_set_abs a \<longleftrightarrow> (case a of Set_abs _ _ \<Rightarrow> True | _ \<Rightarrow> False)"

text \<open>The commands in the order in which they took the lock.\<close>

fun entered :: "crew_act list \<Rightarrow> crew_op list" where
  "entered [] = []"
| "entered (Enter t x # tr) = x # entered tr"
| "entered (_ # tr) = entered tr"

lemma entered_append [simp]: "entered (xs @ ys) = entered xs @ entered ys"
  by (induction xs rule: entered.induct) simp_all

text \<open>What a relative command reads, and what it means.\<close>

fun wanted :: "crew_op \<Rightarrow> i32 \<times> u32 \<Rightarrow> u32" where
  "wanted C_toggle (m, p) = m"
| "wanted C_inc (m, p) = p"
| "wanted C_dec (m, p) = p"

fun op_meaning :: "crew_op \<Rightarrow> i32 \<times> u32 \<Rightarrow> i32 \<times> u32" where
  "op_meaning C_inc (m, p) = (m, if m = 0 \<and> p + 50 \<noteq> 0 then p + 50 else p)"
| "op_meaning C_dec (m, p) = (m, if m = 0 \<and> 50 < p then p - 50 else p)"
| "op_meaning C_toggle (m, p) = (if m = 0 then 1 else 0, p)"

text \<open>Not interrupted, the four sections are the operation.\<close>

lemma whole_run:
  assumes "crew_at c t = C_idle" "crew_holder c = None"
  shows "crew_run F bg c [Enter t x, Fetch t, Put t, Leave t] (c\<lparr>crew_app := exec (crew_whole F x) (crew_app c)\<rparr>)"
proof -
  define v where "v = result (crew_fetch F x) (exec (crew_enter F) (crew_app c))"
  define d1 where "d1 = c\<lparr>crew_app := exec (crew_enter F) (crew_app c), crew_at := (crew_at c)(t := C_locked x), crew_holder := Some t\<rparr>"
  define d2 where "d2 = d1\<lparr>crew_app := exec (crew_fetch F x) (crew_app d1), crew_at := (crew_at d1)(t := C_fetched x v)\<rparr>"
  define d3 where "d3 = d2\<lparr>crew_app := exec (crew_store F x v) (crew_app d2), crew_at := (crew_at d2)(t := C_stored)\<rparr>"
  define d4 where "d4 = d3\<lparr>crew_app := exec (crew_leave F) (crew_app d3), crew_at := (crew_at d3)(t := C_idle), crew_holder := None\<rparr>"
  note step = crew_step.intros [where F = F and bg = bg]
  have s: "crew_step F bg c (Enter t x) d1" "crew_step F bg d1 (Fetch t) d2" "crew_step F bg d2 (Put t) d3"
    "crew_step F bg d3 (Leave t) d4"
    using step(1) [of c t x] step(2) [of d1 t x] step(3) [of d2 t x v] step(4) [of d3 t] assms
    by (simp_all add: d4_def d3_def d2_def d1_def v_def)
  have "crew_run F bg c [Enter t x, Fetch t, Put t, Leave t] d4"
    using crew_next [OF crew_next [OF crew_next [OF crew_next [OF crew_start s(1)] s(2)] s(3)] s(4)] by simp
  moreover have "d4 = c\<lparr>crew_app := exec (crew_whole F x) (crew_app c)\<rparr>"
    using assms by (simp add: d4_def d3_def d2_def d1_def v_def crew_whole_def exec_bind fun_upd_idem)
  ultimately show ?thesis by simp
qed

context regulator_files
begin

abbreviation view :: "'w app \<Rightarrow> i32 \<times> u32" where
  "view a \<equiv> (mode_of (aworld a), period_of (aworld a))"

lemma sections_effect:
  assumes "ainv a"
  shows "view (exec (crew_enter F) a) = view a" "ainv (exec (crew_enter F) a)"
    and "view (exec (crew_leave F) a) = view a" "ainv (exec (crew_leave F) a)"
    and "view (exec (crew_fetch F x) a) = view a" "ainv (exec (crew_fetch F x) a)"
    and "result (crew_fetch F x) a = wanted x (view a)"
    and "ainv (exec (crew_store F x v) a)" "ainv (exec (crew_setting F y) a)"
  using assms
  by (cases x; cases y; simp add: crew_enter_def crew_leave_def crew_fetch_def crew_store_def crew_setting_def
      app_ops run_simps laws client_effects)+

lemma store_meaning:
  assumes "ainv a" "v = wanted x (view a)"
  shows "view (exec (crew_store F x v) a) = op_meaning x (view a)"
  using assms mode_range [of "aworld a"]
  by (cases x) (auto simp: crew_store_def app_ops run_simps client_effects GAP_PERIOD_MS_def word_gt_0)

lemma sections_locks:
  assumes "L (aworld a) = Some hs"
  shows "hs = [] \<Longrightarrow> L (aworld (exec (crew_enter F) a)) = Some [App_lock]"
    and "hs = [App_lock] \<Longrightarrow> L (aworld (exec (crew_leave F) a)) = Some []"
    and "\<forall>h \<in> set hs. ulock_rank h < 2 \<Longrightarrow> L (aworld (exec (crew_fetch F x) a)) = Some hs"
    and "\<forall>h \<in> set hs. ulock_rank h < 2 \<Longrightarrow> L (aworld (exec (crew_store F x v) a)) = Some hs"
  using assms
  by (cases x; simp add: crew_enter_def crew_leave_def crew_fetch_def crew_store_def
      app_ops run_simps ulogs_locksD [OF call_locks] client_locks)+

text \<open>Background that leaves the files and the log of the locks alone.\<close>

definition quiet :: "('w \<Rightarrow> 'w \<Rightarrow> bool) \<Rightarrow> bool" where
  "quiet bg \<longleftrightarrow> (\<forall>w w'. bg w w' \<longrightarrow> invar w \<longrightarrow>
     invar w' \<and> mode_of w' = mode_of w \<and> period_of w' = period_of w \<and> L w' = L w)"

text \<open>Where the holder of the lock stands, and what has taken effect by then.\<close>

definition holding :: "'w crew \<Rightarrow> nat \<Rightarrow> crew_op list \<Rightarrow> i32 \<times> u32 \<Rightarrow> bool" where
  "holding c t h v \<longleftrightarrow> (\<exists>h' x. h = h' @ [x] \<and>
     (crew_at c t = C_locked x \<and> view (crew_app c) = fold op_meaning h' v \<or>
      crew_at c t = C_fetched x (wanted x (view (crew_app c))) \<and>
        view (crew_app c) = fold op_meaning h' v \<or>
      crew_at c t = C_stored \<and> view (crew_app c) = fold op_meaning h v))"

definition crew_inv :: "'w crew \<Rightarrow> crew_op list \<Rightarrow> i32 \<times> u32 \<Rightarrow> bool" where
  "crew_inv c h v \<longleftrightarrow> ainv (crew_app c) \<and> (case crew_holder c of
     None \<Rightarrow> (\<forall>u. crew_at c u = C_idle) \<and> L (aworld (crew_app c)) = Some [] \<and> view (crew_app c) = fold op_meaning h v
   | Some t \<Rightarrow> (\<forall>u. u \<noteq> t \<longrightarrow> crew_at c u = C_idle) \<and> L (aworld (crew_app c)) = Some [App_lock] \<and> holding c t h v)"

lemma crew_invE:
  assumes "crew_inv c h v" "crew_at c t \<noteq> C_idle"
  shows "crew_holder c = Some t" "\<forall>u. u \<noteq> t \<longrightarrow> crew_at c u = C_idle" "holding c t h v"
    "L (aworld (crew_app c)) = Some [App_lock]" "ainv (crew_app c)"
proof -
  obtain t' where t': "crew_holder c = Some t'" using assms by (cases "crew_holder c") (auto simp: crew_inv_def)
  then have "t' = t" using assms by (auto simp: crew_inv_def)
  with assms(1) t' show "crew_holder c = Some t" "\<forall>u. u \<noteq> t \<longrightarrow> crew_at c u = C_idle" "holding c t h v"
    "L (aworld (crew_app c)) = Some [App_lock]" "ainv (crew_app c)" by (simp_all add: crew_inv_def)
qed

lemma crew_step_inv:
  assumes "crew_step F bg c a d" "crew_inv c h v" "quiet bg" "\<not> is_set_abs a"
  shows "crew_inv d (h @ entered [a]) v"
  using assms(1)
proof cases
  case (crew_enters t x)
  with assms(2) sections_effect [of "crew_app c"] sections_locks(1) [of "crew_app c" "[]"]
  show ?thesis by (simp add: crew_inv_def holding_def)
next
  case (crew_fetches t x)
  note C = crew_invE [OF assms(2), of t]
  have h: "holding c t h v" "ainv (crew_app c)" using C crew_fetches by simp_all
  then obtain h' where "h = h' @ [x]" "view (crew_app c) = fold op_meaning h' v"
    using crew_fetches by (auto simp: holding_def)
  moreover have "mode_of (aworld (exec (crew_fetch F x) (crew_app c))) = mode_of (aworld (crew_app c))"
    "period_of (aworld (exec (crew_fetch F x) (crew_app c))) = period_of (aworld (crew_app c))"
    using sections_effect(5) [OF h(2), of x] by simp_all
  ultimately show ?thesis
    using C crew_fetches sections_effect(6,7) [OF h(2), of x] sections_locks(3) [of "crew_app c" "[App_lock]" x]
    by (cases x) (simp_all add: crew_inv_def holding_def)
next
  case (crew_puts t x w)
  note C = crew_invE [OF assms(2), of t]
  have h: "holding c t h v" "ainv (crew_app c)" using C crew_puts by simp_all
  then obtain h' where h': "h = h' @ [x]" "view (crew_app c) = fold op_meaning h' v"
    "w = wanted x (view (crew_app c))"
    using crew_puts by (auto simp: holding_def)
  have "view (exec (crew_store F x w) (crew_app c)) = fold op_meaning h v"
    using store_meaning [OF h(2) h'(3)] h'(1,2) by simp
  with C crew_puts h'(1) sections_effect(8) [OF h(2), of x w] sections_locks(4) [of "crew_app c" "[App_lock]" x w]
  show ?thesis by (simp add: crew_inv_def holding_def)
next
  case (crew_leaves t)
  note C = crew_invE [OF assms(2), of t]
  have h: "holding c t h v" "ainv (crew_app c)" using C crew_leaves by simp_all
  then have "view (crew_app c) = fold op_meaning h v" using crew_leaves by (auto simp: holding_def)
  with C crew_leaves sections_effect [OF h(2)] sections_locks(2) [of "crew_app c" "[App_lock]"]
  show ?thesis by (auto simp: crew_inv_def)
next
  case (crew_background w)
  with assms(2,3) show ?thesis by (simp add: crew_inv_def quiet_def holding_def split: option.splits)
qed (use assms(4) in \<open>simp add: is_set_abs_def\<close>)

text \<open>The relative commands take effect one after the other, and the holder of the lock can go on.\<close>

lemma crew_linear:
  assumes "crew_run F bg c tr d" "quiet bg" "\<forall>a \<in> set tr. \<not> is_set_abs a"
    and c: "ainv (crew_app c)" "crew_holder c = None" "\<forall>u. crew_at c u = C_idle" "L (aworld (crew_app c)) = Some []"
  shows "crew_inv d (entered tr) (view (crew_app c))"
  using assms(1,3)
proof induction
  case crew_start
  show ?case using c by (simp add: crew_inv_def)
next
  case (crew_next tr d a e)
  then have "crew_inv d (entered tr) (view (crew_app c))" "\<not> is_set_abs a" by simp_all
  from crew_step_inv [OF crew_next.hyps(2) this(1) assms(2) this(2)] show ?case by simp
qed

lemma crew_holder_moves:
  assumes "crew_inv c h v" "crew_holder c = Some t"
  shows "\<exists>a d. crew_step F bg c a d \<and> a \<in> {Fetch t, Put t, Leave t}"
proof -
  have "holding c t h v" using assms by (simp add: crew_inv_def)
  then obtain x w where "crew_at c t = C_locked x \<or> crew_at c t = C_fetched x w \<or> crew_at c t = C_stored"
    by (auto simp: holding_def)
  then show ?thesis using crew_fetches crew_puts crew_leaves by blast
qed

text \<open>
  A period that another thread sets between the two accesses of an increase is lost: at the end
  stands the increase of the old period, in whatever order the two are taken.
\<close>

lemma setting_lost:
  assumes c: "ainv (crew_app c)" "crew_holder c = None" "crew_at c t = C_idle" "crew_at c u = C_idle" "t \<noteq> u"
    and m: "mode_of (aworld (crew_app c)) = 0" "0 < q" "period_of (aworld (crew_app c)) + 50 \<noteq> 0"
  shows "\<exists>d. crew_run F bg c [Enter t C_inc, Fetch t, Set_abs u (S_period q), Put t, Leave t] d \<and>
    crew_holder d = None \<and> view (crew_app d) = (0, period_of (aworld (crew_app c)) + 50)"
proof -
  define p where "p = period_of (aworld (crew_app c))"
  define a1 where "a1 = exec (crew_enter F) (crew_app c)"
  define a2 where "a2 = exec (crew_fetch F C_inc) a1"
  define a3 where "a3 = exec (crew_setting F (S_period q)) a2"
  define a4 where "a4 = exec (crew_store F C_inc p) a3"
  define a5 where "a5 = exec (crew_leave F) a4"
  have 1: "view a1 = (0, p)" "ainv a1" using sections_effect [OF c(1)] m by (simp_all add: a1_def p_def)
  have 2: "view a2 = (0, p)" "ainv a2" "result (crew_fetch F C_inc) a1 = p"
    using sections_effect(5,6,7) [OF 1(2), of C_inc] 1(1) by (simp_all add: a2_def)
  have 3: "view a3 = (0, q)" "ainv a3"
    using set_period_app [OF 2(2), of q] 2(1) m by (simp_all add: a3_def crew_setting_def)
  have 4: "view a4 = (0, p + 50)" "ainv a4"
    using set_period_app [OF 3(2), of "p + 50"] 3(1) m
    by (simp_all add: a4_def crew_store_def GAP_PERIOD_MS_def p_def word_gt_0)
  have 5: "view a5 = (0, p + 50)" using sections_effect [OF 4(2)] 4(1) by (simp add: a5_def)
  define d1 where "d1 = c\<lparr>crew_app := a1, crew_at := (crew_at c)(t := C_locked C_inc), crew_holder := Some t\<rparr>"
  define d2 where "d2 = d1\<lparr>crew_app := a2, crew_at := (crew_at d1)(t := C_fetched C_inc p)\<rparr>"
  define d3 where "d3 = d2\<lparr>crew_app := a3\<rparr>"
  define d4 where "d4 = d3\<lparr>crew_app := a4, crew_at := (crew_at d3)(t := C_stored)\<rparr>"
  define d5 where "d5 = d4\<lparr>crew_app := a5, crew_at := (crew_at d4)(t := C_idle), crew_holder := None\<rparr>"
  note step = crew_step.intros [where F = F and bg = bg]
  have s1: "crew_step F bg c (Enter t C_inc) d1" using step(1) [of c t C_inc] c by (simp add: d1_def a1_def)
  have s2: "crew_step F bg d1 (Fetch t) d2" using step(2) [of d1 t C_inc] 2 by (simp add: d2_def d1_def a2_def)
  have s3: "crew_step F bg d2 (Set_abs u (S_period q)) d3"
    using step(5) [of d2 u "S_period q"] c by (simp add: d3_def d2_def d1_def a3_def)
  have s4: "crew_step F bg d3 (Put t) d4" using step(3) [of d3 t C_inc p] by (simp add: d4_def d3_def d2_def a4_def)
  have s5: "crew_step F bg d4 (Leave t) d5" using step(4) [of d4 t] by (simp add: d5_def d4_def a5_def)
  have "crew_run F bg c [Enter t C_inc, Fetch t, Set_abs u (S_period q), Put t, Leave t] d5"
    using crew_next [OF crew_next [OF crew_next [OF crew_next [OF crew_next [OF crew_start s1] s2] s3] s4] s5] by simp
  moreover have "crew_holder d5 = None" "view (crew_app d5) = (0, p + 50)" using 5 by (simp_all add: d5_def)
  ultimately show ?thesis unfolding p_def by blast
qed

end

subsection \<open>On the machine\<close>

text \<open>
  The kernel's threads and the readers of its files in the background: every step of \<open>kstep\<close>, but for
  writes to the files and the application of an automatic period.
\<close>

definition kernel_background :: "kenv \<Rightarrow> machine \<Rightarrow> machine \<Rightarrow> bool" where
  "kernel_background EK m m' \<longleftrightarrow> (\<exists>ph l a c'. kstep EK \<lparr>kern = mkern m, phase = ph, led = l\<rparr> a c' \<and>
     m' = m\<lparr>mkern := kern c'\<rparr> \<and> \<not> is_store a \<and> (\<forall>n. ph \<noteq> Apply n))"

lemma kernel_background_quiet: "files.quiet EK (kernel_background EK)"
  unfolding files.quiet_def
proof (intro allI impI)
  fix m m' assume "kernel_background EK m m'" "machine_inv EK m"
  then obtain ph l a c' where st: "kstep EK \<lparr>kern = mkern m, phase = ph, led = l\<rparr> a c'"
    and m': "m' = m\<lparr>mkern := kern c'\<rparr>" and a: "\<not> is_store a" "\<forall>n. ph \<noteq> Apply n" and inv: "kernel_inv EK (mkern m)" "kstr_ok EK"
    by (auto simp: kernel_background_def machine_inv_def)
  from st have "kernel_inv EK (kern c') \<and> kmode (kern c') = kmode (mkern m) \<and> kperiod (kern c') = kperiod (mkern m)"
  proof cases
    case step_thread
    with thread_section_effect [OF inv(1), of ph] a(2) show ?thesis by (cases ph) simp_all
  next
    case step_blink
    with inv show ?thesis by (simp add: blink_pass_effect del: in_hw_simps)
  next
    case (step_show t h)
    with inv show ?thesis by (auto simp: show_effect)
  next
    case (step_store t h)
    with a show ?thesis by (simp add: is_store_def)
  qed
  with inv m' show "machine_inv EK m' \<and> mmode m' = mmode m \<and> mperiod m' = mperiod m \<and> ulock_state (ulog m') = ulock_state (ulog m)"
    by (simp add: machine_inv_def mmode_def mperiod_def)
qed

text \<open>On the machine: no order of the two commands explains what is left of the setting.\<close>

lemma machine_setting_lost:
  assumes "machine_inv EK (aworld (crew_app c))" "crew_holder c = None" "crew_at c t = C_idle" "crew_at c u = C_idle" "t \<noteq> u"
    and "app_view (crew_app c) = (0, p)" "0 < q" "p + 50 \<noteq> 0"
  shows "\<exists>d. crew_run (machine_os EK EU) (kernel_background EK) c [Enter t C_inc, Fetch t, Set_abs u (S_period q), Put t, Leave t] d \<and>
    crew_holder d = None \<and> app_view (crew_app d) = (0, p + 50)"
  using files.setting_lost [OF assms(1-5), of q EU "kernel_background EK"] assms(6-8) by (simp add: app_view_def)

end
