(* ===== verification/DaemonProperties.thy ===== *)
theory DaemonProperties
  imports DaemonThreads KernelProperties
begin

section \<open>Properties of the client and the daemon\<close>

text \<open>
  The main theorems about \<open>src/06-mini-project/cli\<close> and \<open>src/06-mini-project/daemon\<close>, on the
  kernel module of \<open>KModule\<close>, each over the lemmas of its component, with the witnesses that
  apply them in a concrete environment.
\<close>

subsection \<open>A machine for the witnesses\<close>

text \<open>Every call succeeds, a button that is read is pressed; the module is loaded.\<close>

definition demo_uenv :: uenv where
  "demo_uenv = \<lparr>uret = (\<lambda>_ c. case c of
     Open _ \<Rightarrow> 5 | Socket \<Rightarrow> 6 | Epoll_create \<Rightarrow> 7 | Sendto _ bs _ \<Rightarrow> int (length bs)
   | Pread _ _ \<Rightarrow> 49 | ucall.Read _ n \<Rightarrow> int n | _ \<Rightarrow> 0)\<rparr>"

lemma demo_uret [simp]:
  "uret demo_uenv h (Open p) = 5" "uret demo_uenv h Socket = 6" "uret demo_uenv h Epoll_create = 7"
  "uret demo_uenv h (Sendto f bs p) = int (length bs)" "uret demo_uenv h (Pread f n) = 49"
  "uret demo_uenv h (Bind f p) = 0" "uret demo_uenv h (Pthread_create nm) = 0"
  "uret demo_uenv h (ucall.Read f n) = int n" "uret demo_uenv h (Write f t) = 0"
  "uret demo_uenv h (Pwrite f t) = 0" "uret demo_uenv h (Epoll_wait e) = 0"
  "uret demo_uenv h (Timerfd_settime f a b) = 0" "uret demo_uenv h (Ioctl f a) = 0"
  by (simp_all add: demo_uenv_def)

definition demo_kernel :: kernel where
  "demo_kernel = exec (temp_regulator_init (demo_kenv 1280)) kernel_statics"

definition demo_machine :: machine where
  "demo_machine = \<lparr>ulog = [], mkern = demo_kernel\<rparr>"

definition demo_oled :: "(machine app, rat) oled" where
  "demo_oled = \<lparr>oled_fd = - 1, oled_cbs = None, oworld = app_statics demo_machine\<rparr>"

definition demo_btns :: "((machine app, rat) oled ipc) btns" where
  "demo_btns = \<lparr>btn_mem = (\<lambda>_. \<lparr>btn_fd = 0, btn_pin = [], btn_callback = None\<rparr>),
     btn_list = replicate MAX_BTN 0, btn_tail = 0, epoll_fd = 0, bworld = ipc_statics demo_oled\<rparr>"

definition demo_serving :: "(machine app, rat) oled ipc" where
  "demo_serving = \<lparr>server_fd = 6, current_cbs = ipc_cbs (machine_os (demo_kenv 1280) demo_uenv),
     is_running = True, iworld = demo_oled\<rparr>"

lemma demo_machine_inv: "machine_inv (demo_kenv raw) demo_machine"
  if "raw = 1280"
  using demo_loaded(1) [of 1280]
  by (simp add: that machine_inv_def demo_machine_def demo_kernel_def kstr_ok_def demo_kstr)

lemma demo_is_serving: "daemon_serving (demo_kenv 1280) demo_uenv demo_serving"
  using demo_machine_inv
  by (simp add: daemon_serving_def demo_serving_def demo_oled_def app_statics_def)

subsection \<open>Commands\<close>

text \<open>
  C2: end to end from the client's arguments to the LED. A client that exits with success has
  sent exactly one datagram, and when the daemon's server receives it, mode, period and the
  LED's blink period in the kernel become what the command means for the values before.
\<close>

theorem command_reaches_led:
  assumes "result (cli_main (uapi E) argv) s = EXIT_SUCCESS" and "daemon_serving EK EU i"
  shows "\<exists>bs. sent (ulog (exec (cli_main (uapi E) argv) s)) = sent (ulog s) @ [bs] \<and>
    kernel_view (exec (ipc_receive (oled_os (machine_os EK EU)) (Some bs)) i) =
      (case command_meaning (snd (process_arguments argv \<lparr>command = 0, msg_value = 0\<rparr>))
          (app_view (oworld (iworld i))) of (m, p) \<Rightarrow> (m, p, p))"
proof -
  obtain bs where "sent (ulog (exec (cli_main (uapi E) argv) s)) = sent (ulog s) @ [bs]"
    "datagram_meaning (Some bs) = command_meaning (snd (process_arguments argv \<lparr>command = 0, msg_value = 0\<rparr>))"
    using cli_datagram [OF assms(1)] by blast
  with receive_kernel_view(1) [OF assms(2), of "Some bs"] show ?thesis by auto
qed

lemma demo_cli_mode:
  "result (cli_main (uapi demo_uenv) [''cli'', ''mode'', ''0'']) \<lparr>ulog = []\<rparr> = EXIT_SUCCESS"
  "snd (process_arguments [''cli'', ''mode'', ''0''] \<lparr>command = 0, msg_value = 0\<rparr>) =
     \<lparr>command = CMD_SET_MODE, msg_value = 0\<rparr>"
proof -
  have z: "show_nat 0 = ''0''" by code_simp
  note p = process_arguments_set [of 0 "''cli''" "\<lparr>command = 0, msg_value = 0\<rparr>", unfolded z]
  show "snd (process_arguments [''cli'', ''mode'', ''0''] \<lparr>command = 0, msg_value = 0\<rparr>) =
     \<lparr>command = CMD_SET_MODE, msg_value = 0\<rparr>" using p by simp
  show "result (cli_main (uapi demo_uenv) [''cli'', ''mode'', ''0'']) \<lparr>ulog = []\<rparr> = EXIT_SUCCESS"
    using p by (simp add: cli_main_def upath_simps EXIT_SUCCESS_def del: exec_uapi)
qed

theorem command_reaches_led_witness:
  "\<exists>bs. sent (ulog (exec (cli_main (uapi demo_uenv) [''cli'', ''mode'', ''0'']) \<lparr>ulog = []\<rparr>)) = [bs] \<and>
    fst (kernel_view (exec (ipc_receive (oled_os (machine_os (demo_kenv 1280) demo_uenv)) (Some bs)) demo_serving)) = 0"
  using command_reaches_led [OF demo_cli_mode(1) demo_is_serving] demo_cli_mode(2)
  by (auto simp: command_meaning_def cmd_defs split: prod.splits)



text \<open>
  C17: the server thread on any sequence of datagrams and errors of \<open>recvfrom\<close>: mode and
  period end as the fold of the meanings (short datagrams and errors mean nothing), the server
  keeps serving.
\<close>

theorem server_thread_refines_meaning:
  assumes "daemon_serving EK EU i"
  shows "app_view (oworld (iworld (exec (ipc_thread_func (oled_os (machine_os EK EU)) ds) i))) =
      fold datagram_meaning ds (app_view (oworld (iworld i))) \<and>
    daemon_serving EK EU (exec (ipc_thread_func (oled_os (machine_os EK EU)) ds) i)"
  using assms
proof (induction ds arbitrary: i)
  case (Cons d ds)
  have s: "server.serving EK EU i" "is_running i" using Cons.prems by (simp_all add: serving_iff)
  note eff = server.ipc_receive_effect [OF s(1), of d]
  have "daemon_serving EK EU (exec (ipc_receive (oled_os (machine_os EK EU)) d) i)"
    using eff s by (simp add: serving_iff)
  from Cons.IH [OF this] eff s show ?case by (simp add: run_simps)
qed simp

theorem server_thread_refines_meaning_witness:
  "daemon_serving (demo_kenv 1280) demo_uenv
    (exec (ipc_thread_func (oled_os (machine_os (demo_kenv 1280) demo_uenv)) [None, Some [1, 2, 3]]) demo_serving)"
  using server_thread_refines_meaning [OF demo_is_serving] by blast

text \<open>
  Handling a message respects the order of the daemon's mutexes: started with none held,
  none is taken out of order and none is held at the end.
\<close>

theorem message_keeps_lock_order:
  assumes "daemon_serving EK EU i" and "ulock_state (ulog (aworld (oworld (iworld i)))) = Some []"
  shows "ulock_state (ulog (aworld (oworld (iworld
    (exec (process_message (oled_os (machine_os EK EU)) msg) i))))) = Some []"
  using server.process_message_locks [of EK EU i msg] assms by (simp add: serving_iff)

theorem message_keeps_lock_order_witness:
  "ulock_state (ulog (aworld (oworld (iworld (exec (process_message
     (oled_os (machine_os (demo_kenv 1280) demo_uenv)) \<lparr>command = CMD_INC_PERIOD, msg_value = 0\<rparr>) demo_serving))))) = Some []"
  by (rule message_keeps_lock_order [OF demo_is_serving])
    (simp add: demo_serving_def demo_oled_def app_statics_def demo_machine_def ulock_state_def)

text \<open>
  C6: the relative commands of the buttons and of the clients in any interleaving of the daemon's threads with each
  other and with the threads of the kernel, as long as no automatic period is applied and nothing is set
  absolutely in between: whenever nobody holds \<open>app_lock\<close>, mode and period are what the commands mean one after
  the other, each exactly once, in the order in which they took the lock; the thread that holds the lock
  can always go on, and no mutex was ever taken out of order.
\<close>

theorem relative_commands_linear:
  assumes "crew_run (machine_os EK EU) (kernel_background EK) c tr d" and "\<forall>a \<in> set tr. \<not> is_set_abs a"
    and "machine_inv EK (aworld (crew_app c))" "crew_holder c = None" "\<forall>u. crew_at c u = C_idle"
      "ulock_state (ulog (aworld (crew_app c))) = Some []"
  shows "(crew_holder d = None \<longrightarrow> (\<forall>u. crew_at d u = C_idle) \<and>
      app_view (crew_app d) = fold op_meaning (entered tr) (app_view (crew_app c))) \<and>
    (\<forall>t. crew_holder d = Some t \<longrightarrow> (\<exists>a e. crew_step (machine_os EK EU) (kernel_background EK) d a e \<and>
      a \<in> {Fetch t, Put t, Leave t})) \<and>
    machine_inv EK (aworld (crew_app d)) \<and> ulock_state (ulog (aworld (crew_app d))) \<noteq> None"
proof -
  have inv: "files.crew_inv EK d (entered tr) (app_view (crew_app c))"
    using files.crew_linear [OF assms(1) kernel_background_quiet assms(2-6)] by (simp add: app_view_def)
  then have "\<exists>a e. crew_step (machine_os EK EU) (kernel_background EK) d a e \<and> a \<in> {Fetch t, Put t, Leave t}"
    if "crew_holder d = Some t" for t using that files.crew_holder_moves by blast
  with inv show ?thesis by (cases "crew_holder d") (auto simp: files.crew_inv_def app_view_def)
qed

text \<open>The thread of the buttons toggles the mode, nobody comes in between.\<close>

definition demo_crew :: "machine crew" where
  "demo_crew = \<lparr>crew_app = app_statics demo_machine, crew_at = (\<lambda>_. C_idle), crew_holder = None\<rparr>"

theorem relative_commands_linear_witness:
  "\<exists>d. crew_run (machine_os (demo_kenv 1280) demo_uenv) (kernel_background (demo_kenv 1280)) demo_crew
      [Enter 1 C_toggle, Fetch 1, Put 1, Leave 1] d \<and>
    app_view (crew_app d) = op_meaning C_toggle (app_view (crew_app demo_crew))"
proof -
  let ?F = "machine_os (demo_kenv 1280) demo_uenv"
  let ?d = "demo_crew\<lparr>crew_app := exec (crew_whole ?F C_toggle) (crew_app demo_crew)\<rparr>"
  have r: "crew_run ?F (kernel_background (demo_kenv 1280)) demo_crew [Enter 1 C_toggle, Fetch 1, Put 1, Leave 1] ?d"
    by (rule whole_run) (simp_all add: demo_crew_def)
  have "app_view (crew_app ?d) = fold op_meaning (entered [Enter 1 C_toggle, Fetch 1, Put 1, Leave 1]) (app_view (crew_app demo_crew))"
    using relative_commands_linear [OF r] demo_machine_inv
    by (simp add: is_set_abs_def demo_crew_def app_statics_def demo_machine_def ulock_state_def)
  with r show ?thesis by (intro exI [of _ ?d]) simp
qed

subsection \<open>The server and \<open>main\<close>\<close>

text \<open>
  Starting the server is all or nothing, whatever the calls return: when it reports
  success it owns its socket, its path and its thread, otherwise nothing more than before; and
  stopping a server that started gives all of it back and clears the callbacks.
\<close>

theorem server_start_stop:
  fixes i :: "('z ulog_scheme) ipc" and E :: uenv and cbs :: "'z ulog_scheme ipc_callbacks option"
  assumes "ures_state (ilog i) = Some R" and "U_path SOCKET_PATH \<notin># R" and "\<not> is_running i"
  defines "i' \<equiv> exec (start_ipc_server (uapi E) cbs) i"
  shows "(is_running i' \<longleftrightarrow> result (start_ipc_server (uapi E) cbs) i = 0) \<and>
    ures_state (ilog i') = Some (R + server_owned i') \<and>
    (is_running i' \<longrightarrow> ures_state (ilog (exec (stop_ipc_server (uapi E)) i')) = Some R \<and>
      current_cbs (exec (stop_ipc_server (uapi E)) i') = no_callbacks)"
proof -
  note start = start_resources [OF assms(1-3), of E cbs]
  have "ures_state (ilog (exec (stop_ipc_server (uapi E)) i')) = Some R \<and>
      current_cbs (exec (stop_ipc_server (uapi E)) i') = no_callbacks" if run: "is_running i'"
  proof -
    have "0 \<le> server_fd i'" using start(2) run start_fd unfolding i'_def by blast
    then show ?thesis
      using stop_resources [OF _ assms(2) run] start(1) by (simp add: i'_def)
  qed
  with start show ?thesis by (simp add: i'_def)
qed

definition demo_ipc :: "ulog ipc" where
  "demo_ipc = ipc_statics \<lparr>ulog = []\<rparr>"

theorem server_start_stop_witness:
  "current_cbs (exec (stop_ipc_server (uapi demo_uenv))
     (exec (start_ipc_server (uapi demo_uenv) None) demo_ipc)) = no_callbacks"
proof -
  have 1: "ures_state (ilog demo_ipc) = Some {#}" "\<not> is_running demo_ipc"
    by (simp_all add: demo_ipc_def ipc_statics_def ilog_def ures_state_def)
  have "result (start_ipc_server (uapi demo_uenv) None) demo_ipc = 0"
    using 1(2) by (simp add: start_ipc_server_def ipath_simps del: icall_simps)
  with server_start_stop [OF 1(1) _ 1(2), of demo_uenv None] show ?thesis by simp
qed

text \<open>
  C18: when \<open>main\<close> reaches its loop on a loaded module, the server is running with the
  application's four callbacks, each button has its own callback, the display has its three
  getters, the animation has an LED, and nothing of this has changed mode or period.
\<close>

theorem main_wires_everything:
  assumes "result (daemon_main fl (machine_os EK EU)) b"
    and "machine_inv EK (aworld (oworld (iworld (bworld b))))"
  defines "F \<equiv> machine_os EK EU"
  defines "b' \<equiv> exec (daemon_main fl F) b"
  shows "daemon_serving EK EU (bworld b') \<and>
    btn_callback (btn_mem b' btn_inc) = Some (in_main (btn_increase_period F)) \<and>
    btn_callback (btn_mem b' btn_dec) = Some (in_main (btn_decrease_period F)) \<and>
    btn_callback (btn_mem b' btn_mode) = Some (in_main (mode_toggle F)) \<and>
    oled_cbs (iworld (bworld b')) = Some (daemon_oled_cbs fl F) \<and>
    app_led (oworld (iworld (bworld b'))) \<noteq> None \<and>
    app_view (oworld (iworld (bworld b'))) = app_view (oworld (iworld (bworld b)))"
  using main_serving [OF assms(1,2)] daemon_main_up [OF assms(1)] by (simp add: b'_def F_def)

definition demo_floats :: "rat floats" where
  "demo_floats = \<lparr>f_round = (\<lambda>x. x), f_of_u32 = (\<lambda>w. of_nat (unat w)), f_div = (/),
     fmt_1f = (\<lambda>_. ''20.0''), fmt_2f = (\<lambda>_. ''2.00'')\<rparr>"

lemma keeps_running_main_os: "keeps is_running (main_os F c)"
  by (rule keepsI) (simp add: main_os_def)

lemma demo_call:
  "result (main_os (machine_os EK demo_uenv) c) w = uret demo_uenv (ulog (aworld (oworld (iworld w)))) c"
  by (simp add: main_os_def)

text \<open>A registration succeeds on every interface that answers like the environment.\<close>

lemma demo_button_any:
  assumes r: "\<And>c w. \<exists>h. result (U c) w = uret demo_uenv h c"
    and "btn \<noteq> 0" and "btn_pin_of type = Some pin" and "0 \<le> sint (btn_tail b)" and "sint (btn_tail b) < 10"
  shows "result (BTN_init U btn type) b = Some 0"
    and "btn_tail (exec (BTN_init U btn type) b) = btn_tail b + 1"
proof -
  have u: "result (U (Open p)) w = 5" "result (U Epoll_create) w = 7" "result (U (Pthread_create nm)) w = 0" for p nm w
    using r [of "Open p" w] r [of Epoll_create w] r [of "Pthread_create nm" w] by auto
  have t: "result (try_write U p ts) b'" for p ts b'
    by (simp add: try_write_def run_simps u)
  have e: "result (epoll_init U) b'" for b'
    by (simp add: epoll_init_def run_simps u)
  have reg: "result (BTN_register U btn) b' = Some 0 \<and> btn_tail (exec (BTN_register U btn) b') = btn_tail b' + 1"
    if "btn_tail b' = btn_tail b" for b'
    using assms(5) that e by (simp add: BTN_register_def run_simps BTN_add_epoll_event_def MAX_BTN_def)
  let ?b = "exec (set_btn btn (\<lambda>x. x\<lparr>btn_pin := pin\<rparr>)) (exec (set_btn btn (\<lambda>x. x\<lparr>btn_callback := None\<rparr>))
    (exec (bcall U (Pmutex_init (Btn_lock btn))) b))"
  let ?tries = "do { try_write U GPIO_UNEXPORT pin; try_write U GPIO_EXPORT pin;
    try_write U (GPIO_BASE @ pin @ ''/direction'') ''in''; try_write U (GPIO_BASE @ pin @ ''/edge'') ''both'' }"
  let ?v = "Open (GPIO_BASE @ pin @ ''/value'')"
  let ?c = "exec (bcall U (Pread 5 2)) (exec (set_btn btn (\<lambda>x. x\<lparr>btn_fd := 5\<rparr>)) (exec (bcall U ?v) (exec ?tries ?b)))"
  have "result (BTN_init U btn type) b = result (BTN_register U btn) ?c"
    "exec (BTN_init U btn type) b = exec (BTN_register U btn) ?c"
    using assms(2,3) by (simp_all add: BTN_init_def result_bind exec_bind result_if exec_if t u
        del: bcall_simps(2) set_btn_simps)
  moreover have "btn_tail ?c = btn_tail b" by (simp add: exec_bind)
  ultimately show "result (BTN_init U btn type) b = Some 0"
    "btn_tail (exec (BTN_init U btn type) b) = btn_tail b + 1"
    using reg [of ?c] by simp_all
qed

lemma demo_button:
  fixes b :: "((machine app, 'f) oled ipc) btns"
  assumes "btn \<noteq> 0" and "btn_pin_of type = Some pin" and "0 \<le> sint (btn_tail b)" and "sint (btn_tail b) < 10"
  shows "result (BTN_init (main_os (machine_os EK demo_uenv)) btn type) b = Some 0"
    and "btn_tail (exec (BTN_init (main_os (machine_os EK demo_uenv)) btn type) b) = btn_tail b + 1"
    and "is_running (bworld (exec (BTN_init (main_os (machine_os EK demo_uenv)) btn type) b)) = is_running (bworld b)"
proof -
  have r: "\<exists>h. result (main_os (machine_os EK demo_uenv) c) w = uret demo_uenv h c"
    for c and w :: "(machine app, 'f) oled ipc"
    by (rule exI) (rule demo_call)
  show "result (BTN_init (main_os (machine_os EK demo_uenv)) btn type) b = Some 0"
    "btn_tail (exec (BTN_init (main_os (machine_os EK demo_uenv)) btn type) b) = btn_tail b + 1"
    by (rule demo_button_any [OF r assms])+
  show "is_running (bworld (exec (BTN_init (main_os (machine_os EK demo_uenv)) btn type) b)) = is_running (bworld b)"
    by (rule keepsD [OF keeps_BTN_init [OF keeps_running_main_os]])
qed

lemma demo_led:
  fixes w :: "(machine app, 'f) oled ipc"
  shows "fst (result (LED_init (main_os (machine_os EK demo_uenv)) (Some l) LED_POWER) w) = 0"
proof -
  define U :: "ucall \<Rightarrow> ((machine app, 'f) oled ipc, int) state" where "U = main_os (machine_os EK demo_uenv)"
  have u: "result (U (Open p)) w' = 5" for p w' unfolding U_def demo_call by simp
  have m: "result (U (Pmutex_init k)) w' = 0" for k w' unfolding U_def demo_call by (simp add: demo_uenv_def)
  show ?thesis unfolding U_def [symmetric]
    by (simp add: LED_init_def write_file_def result_bind exec_bind result_if exec_if u m Let_def)
qed

lemma demo_start:
  fixes b :: "((machine app, 'f) oled ipc) btns"
  assumes "\<not> is_running (bworld b)"
  shows "result (daemon_start fl (machine_os EK demo_uenv)) b"
proof -
  define U :: "ucall \<Rightarrow> ((machine app, 'f) oled, int) state" where "U = oled_os (machine_os EK demo_uenv)"
  have u: "result (U Socket) w = 6" "result (U (Bind f p)) w = 0" "result (U (Pthread_create nm)) w = 0" for f p nm w
    unfolding U_def by simp_all
  have s: "0 \<le> result (start_ipc_server U cbs) i" if "\<not> is_running i" for i cbs
    using that by (cases cbs) (simp_all add: start_ipc_server_def run_simps u)
  show ?thesis
    unfolding daemon_start_def U_def [symmetric] using assms
    by (simp add: result_bind s keepsD [OF keeps_BTN_set_callback [OF keeps_running_main_os]])
qed

lemma daemon_main_result:
  fixes F :: "'w os" and b :: "(('w app, 'f) oled ipc) btns"
  defines "b1 \<equiv> exec (BTN_init (main_os F) btn_inc BTN_INCREASE) b"
  defines "b2 \<equiv> exec (BTN_init (main_os F) btn_dec BTN_DECREASE) b1"
  defines "b3 \<equiv> exec (BTN_init (main_os F) btn_mode BTN_MODE) b2"
  defines "l \<equiv> LED_init (main_os F) (Some \<lparr>gpio = 0, led_id = 1\<rparr>) LED_POWER"
  assumes "result (BTN_init (main_os F) btn_inc BTN_INCREASE) b = Some 0"
    and "result (BTN_init (main_os F) btn_dec BTN_DECREASE) b1 = Some 0"
    and "result (BTN_init (main_os F) btn_mode BTN_MODE) b2 = Some 0"
    and "fst (result l (bworld b3)) = 0" and "result (daemon_start fl F) (exec (in_btns l) b3)"
  shows "result (daemon_main fl F) b"
  using assms(5-9) unfolding daemon_main_def
  by (simp add: result_bind exec_bind result_if exec_if del: in_btns_simps(2)
      flip: b1_def b2_def b3_def l_def)

lemma demo_main_result:
  fixes b :: "((machine app, 'f) oled ipc) btns"
  assumes "btn_tail b = 0" and "\<not> is_running (bworld b)"
  shows "result (daemon_main fl (machine_os EK demo_uenv)) b"
proof -
  define U :: "ucall \<Rightarrow> ((machine app, 'f) oled ipc, int) state" where "U = main_os (machine_os EK demo_uenv)"
  define b1 where "b1 = exec (BTN_init U btn_inc BTN_INCREASE) b"
  define b2 where "b2 = exec (BTN_init U btn_dec BTN_DECREASE) b1"
  define b3 where "b3 = exec (BTN_init U btn_mode BTN_MODE) b2"
  have addr: "btn_inc \<noteq> 0" "btn_dec \<noteq> 0" "btn_mode \<noteq> 0"
    by (simp_all add: btn_inc_def btn_dec_def btn_mode_def)
  note button = demo_button [where EK = EK and 'f = 'f, folded U_def]
  have 1: "result (BTN_init U btn_inc BTN_INCREASE) b = Some 0" "btn_tail b1 = 1" "\<not> is_running (bworld b1)"
    using button [OF addr(1) btn_pin_of.simps(1), of b] assms by (simp_all add: b1_def [symmetric])
  have 2: "result (BTN_init U btn_dec BTN_DECREASE) b1 = Some 0" "btn_tail b2 = 2" "\<not> is_running (bworld b2)"
    using button [OF addr(2) btn_pin_of.simps(2), of b1] 1 by (simp_all add: b2_def [symmetric])
  have 3: "result (BTN_init U btn_mode BTN_MODE) b2 = Some 0" "\<not> is_running (bworld b3)"
    using button [OF addr(3) btn_pin_of.simps(3), of b2] 2 by (simp_all add: b3_def [symmetric])
  have "keeps is_running (U c)" for c
    unfolding U_def by (rule keeps_running_main_os)
  from keepsD [OF keeps_in_btns [OF keeps_LED_init [OF this]]]
  have "is_running (bworld (exec (in_btns (LED_init U l LED_POWER)) b3)) = is_running (bworld b3)" for l .
  then have stopped: "\<not> is_running (bworld (exec (in_btns (LED_init U l LED_POWER)) b3))" for l
    using 3(2) by simp
  show ?thesis
    by (rule daemon_main_result, fold U_def, fold b1_def, fold b2_def, fold b3_def)
      (rule 1(1) 2(1) 3(1) demo_start stopped demo_led [where 'f = 'f and EK = EK, folded U_def])+
qed

theorem main_wires_everything_witness:
  "daemon_serving (demo_kenv 1280) demo_uenv
     (bworld (exec (daemon_main demo_floats (machine_os (demo_kenv 1280) demo_uenv)) demo_btns))"
proof -
  have up: "result (daemon_main demo_floats (machine_os (demo_kenv 1280) demo_uenv)) demo_btns"
    by (rule demo_main_result) (simp_all add: demo_btns_def ipc_statics_def)
  have "machine_inv (demo_kenv 1280) (aworld (oworld (iworld (bworld demo_btns))))"
    using demo_machine_inv by (simp add: demo_btns_def ipc_statics_def demo_oled_def app_statics_def)
  from main_wires_everything [OF up this] show ?thesis by blast
qed

subsection \<open>The buttons\<close>

text \<open>
  C20: when the initialisation of a button returns, whatever the calls answered (\<open>open\<close> fails with -1 only), it
  either reports an error and owns nothing more than before, or reports success and owns the button's
  descriptor in addition, for the first button also the epoll descriptor and the running epoll thread, on
  which the later buttons rely.
\<close>

theorem button_init_all_or_nothing:
  assumes "ures_state (blog b) = Some R" and "btn_tail b \<noteq> 0 \<longrightarrow> U_fd (epoll_fd b) \<in># R"
    and "\<forall>h p. uret E h (Open p) < 0 \<longrightarrow> uret E h (Open p) = - 1"
    and "result (BTN_init (uapi E) btn type) b = Some r"
  defines "b' \<equiv> exec (BTN_init (uapi E) btn type) b"
  shows "ures_state (blog b') = Some (if r \<noteq> 0 then R else R +
    (if btn_tail b = 0 then {#U_thread ''epoll_thread'', U_fd (epoll_fd b')#} else {#}) +
    {#U_fd (btn_fd (btn_mem b' btn))#})"
proof -
  have "epoll_there (btn_tail b) b R" using assms(2) by (simp add: epoll_there_def)
  from BTN_init_resources [OF assms(1) this assms(3,4)] show ?thesis
    unfolding b'_def [symmetric] registered_owned_def by (simp add: add.assoc)
qed

definition demo_plain_btns :: "ulog btns" where
  "demo_plain_btns = \<lparr>btn_mem = (\<lambda>_. \<lparr>btn_fd = 0, btn_pin = [], btn_callback = None\<rparr>),
     btn_list = replicate MAX_BTN 0, btn_tail = 0, epoll_fd = 0, bworld = \<lparr>ulog = []\<rparr>\<rparr>"

theorem button_init_all_or_nothing_witness:
  "let b' = exec (BTN_init (uapi demo_uenv) 1 BTN_MODE) demo_plain_btns in
   ures_state (blog b') = Some {#U_thread ''epoll_thread'', U_fd (epoll_fd b'), U_fd (btn_fd (btn_mem b' 1))#}"
proof -
  have 0: "ures_state (blog demo_plain_btns) = Some {#}" "btn_tail demo_plain_btns = 0"
    by (simp_all add: demo_plain_btns_def blog_def ures_state_def)
  have 1: "result (BTN_init (uapi demo_uenv) 1 BTN_MODE) demo_plain_btns = Some 0"
    by (rule demo_button_any(1) [OF _ _ btn_pin_of.simps(3)]) (auto simp: 0)
  have 2: "\<forall>h p. uret demo_uenv h (Open p) < 0 \<longrightarrow> uret demo_uenv h (Open p) = - 1" by simp
  have 3: "btn_tail demo_plain_btns \<noteq> 0 \<longrightarrow> U_fd (epoll_fd demo_plain_btns) \<in># {#}" by (simp add: 0)
  from button_init_all_or_nothing [OF 0(1) 3 2 1] 0(2) show ?thesis unfolding Let_def by simp
qed

text \<open>
  C19: a press of each of the three buttons (its level reads \<open>1\<close>) does what the button is for:
  the period grows or shrinks by 50 ms as the command of the client would do, the mode toggles;
  a release changes nothing.
\<close>

theorem button_press_effect:
  assumes wired: "btn_callback (btn_mem b btn_inc) = Some (in_main (btn_increase_period (machine_os EK EU)))"
      "btn_callback (btn_mem b btn_dec) = Some (in_main (btn_decrease_period (machine_os EK EU)))"
      "btn_callback (btn_mem b btn_mode) = Some (in_main (mode_toggle (machine_os EK EU)))"
    and fds: "\<forall>btn \<in> {btn_inc, btn_dec, btn_mode}. btn_fd (btn_mem b btn) \<noteq> - 1"
    and inv: "machine_inv EK (aworld (oworld (iworld (bworld b))))"
    and level: "\<forall>h f. uret EU h (Pread f 2) = v"
  shows "btn_view (exec (btn_event (main_os (machine_os EK EU)) btn_inc) b) =
      (if v = 49 then command_meaning \<lparr>command = CMD_INC_PERIOD, msg_value = 0\<rparr> (btn_view b) else btn_view b) \<and>
    btn_view (exec (btn_event (main_os (machine_os EK EU)) btn_dec) b) =
      (if v = 49 then command_meaning \<lparr>command = CMD_DEC_PERIOD, msg_value = 0\<rparr> (btn_view b) else btn_view b) \<and>
    btn_view (exec (btn_event (main_os (machine_os EK EU)) btn_mode) b) =
      (if v = 49 then (if fst (btn_view b) = 0 then 1 else 0, snd (btn_view b)) else btn_view b)"
proof -
  have r: "result (main_os (machine_os EK EU) (Pread f 2)) w = v" for f and w :: "(machine app, 'a) oled ipc"
    using level by (simp add: main_os_def)
  have addr: "btn_inc \<noteq> 0" "btn_dec \<noteq> 0" "btn_mode \<noteq> 0"
    by (simp_all add: btn_inc_def btn_dec_def btn_mode_def)
  show ?thesis
    using pressed [OF addr(1) _ wired(1) inv btn_increase_view] pressed [OF addr(2) _ wired(2) inv btn_decrease_view]
      pressed [OF addr(3) _ wired(3) inv toggle_view] fds
    by (simp add: r case_prod_unfold)
qed

definition demo_wired :: "((machine app, rat) oled ipc) btns" where
  "demo_wired = (let F = machine_os (demo_kenv 1280) demo_uenv in demo_btns\<lparr>btn_mem := (\<lambda>_.
       \<lparr>btn_fd = 5, btn_pin = [], btn_callback = None\<rparr>)
     (btn_inc := \<lparr>btn_fd = 5, btn_pin = ''3'', btn_callback = Some (in_main (btn_increase_period F))\<rparr>,
      btn_dec := \<lparr>btn_fd = 5, btn_pin = ''0'', btn_callback = Some (in_main (btn_decrease_period F))\<rparr>,
      btn_mode := \<lparr>btn_fd = 5, btn_pin = ''2'', btn_callback = Some (in_main (mode_toggle F))\<rparr>)\<rparr>)"

theorem button_press_effect_witness:
  "fst (btn_view (exec (btn_event (main_os (machine_os (demo_kenv 1280) demo_uenv)) btn_mode) demo_wired)) = 0"
proof -
  have view: "btn_view demo_wired = (1, kperiod demo_kernel)"
    using demo_loaded(2) [of 1280]
    by (simp add: btn_view_def demo_wired_def Let_def demo_btns_def ipc_statics_def demo_oled_def
        app_statics_def app_view_def demo_machine_def mmode_def mperiod_def demo_kernel_def)
  have inv: "machine_inv (demo_kenv 1280) (aworld (oworld (iworld (bworld demo_wired))))"
    using demo_machine_inv by (simp add: demo_wired_def Let_def demo_btns_def ipc_statics_def demo_oled_def app_statics_def)
  have "btn_callback (btn_mem demo_wired btn_inc) = Some (in_main (btn_increase_period (machine_os (demo_kenv 1280) demo_uenv)))"
    "btn_callback (btn_mem demo_wired btn_dec) = Some (in_main (btn_decrease_period (machine_os (demo_kenv 1280) demo_uenv)))"
    "btn_callback (btn_mem demo_wired btn_mode) = Some (in_main (mode_toggle (machine_os (demo_kenv 1280) demo_uenv)))"
    "\<forall>btn \<in> {btn_inc, btn_dec, btn_mode}. btn_fd (btn_mem demo_wired btn) \<noteq> - 1"
    by (simp_all add: demo_wired_def Let_def btn_inc_def btn_dec_def btn_mode_def)
  from button_press_effect [OF this inv, of 49] view show ?thesis by simp
qed

subsection \<open>Animation and display\<close>

text \<open>
  C21: in every interleaving of the animation worker with the buttons, as long as there were
  fewer than \<open>2 ^ 31\<close> presses, each press is exactly one of: shown, being shown, pending; and no
  wake-up is lost: a worker that sleeps with an animation pending has been signalled on the condition
  while it slept, and unless it is showing one the worker takes a pending animation with its next section.
\<close>

theorem animations_accounted:
  assumes "anim_reach F a c" and "keep_running a" and "pending_animations a = 0" and "triggers c < 2 ^ 31"
  shows "triggers c = pulses c + unat (pending_animations (aapp c)) + (if wphase c = W_pulse then 1 else 0) \<and>
    (wphase c = W_wait \<and> pending_animations (aapp c) \<noteq> 0 \<longrightarrow> signalled c) \<and> wphase c \<noteq> W_done \<and>
    (pending_animations (aapp c) \<noteq> 0 \<and> wphase c \<noteq> W_pulse \<longrightarrow> (\<exists>c'. anim_step F c Worker c' \<and>
      wphase c' = W_pulse \<and> pending_animations (aapp c') = pending_animations (aapp c) - 1))"
proof -
  have "anim_inv c" using anim_reach_inv [OF assms(1-3)] .
  with anim_worker_takes [OF this, of F] assms(4) show ?thesis by (auto simp: anim_inv_def)
qed

text \<open>The worker falls asleep, a button is pressed.\<close>

theorem animations_accounted_witness:
  "let a = app_statics \<lparr>cv_world = demo_machine, cv_signals = 0\<rparr>; F = machine_os (demo_kenv 1280) demo_uenv in
   \<exists>c. anim_reach F a c \<and> wphase c = W_wait \<and> pending_animations (aapp c) = 1 \<and> signalled c"
proof -
  let ?a = "app_statics \<lparr>cv_world = demo_machine, cv_signals = 0\<rparr>" and ?F = "machine_os (demo_kenv 1280) demo_uenv"
  let ?c1 = "worked ?F (anim_start ?a)"
  let ?c2 = "triggered ?F ?c1"
  have run: "keep_running ?a" "pending_animations ?a = 0" by (simp_all add: app_statics_def)
  have r1: "anim_reach ?F ?a ?c1" by (rule anim_next [OF anim_init anim_worker]) (simp add: anim_start_def)
  have r2: "anim_reach ?F ?a ?c2" by (rule anim_next [OF r1 anim_trigger])
  have p: "wphase ?c2 = W_wait" "pending_animations (aapp ?c2) = 1" "triggers ?c2 = 1"
    using run by (simp_all add: triggered_def Let_def worked_def anim_start_def worker_phase)
  then have "triggers ?c2 < 2 ^ 31" by simp
  from animations_accounted [OF r2 run this] p have "signalled ?c2" by simp
  with r2 p show ?thesis unfolding Let_def by blast
qed

text \<open>
  C23: one refresh of the display sends for each of its seven lines the position and then exactly the bytes
  that spell the line in the glyph table (a character outside it is shown as a blank). The lines are three
  headings, and mode, temperature, frequency and period, each cut at the 19 characters of the buffer; the period is shown as
  a signed number. The mode's line is never cut, and the period's is not for a period of at most seven
  digits.
\<close>

theorem display_spells_lines:
  shows "bus (exec (display (uapi E) fl mode temp p) d) =
      bus d @ concat (map (\<lambda>(row, l). line_out row l) (enumerate 0 (screen_lines fl mode temp p))) \<and>
    spell (map snd (filter (\<lambda>x. fst x = OLED_DATA_MODE) (line_out row l))) = map shown l \<and>
    screen_lines fl mode temp p = [''CSEL1a - SP.07'', ''  WATCHDOG CPU '', ''--------------'',
      ''Mode: '' @ (if mode \<noteq> 0 then ''AUTO   '' else ''MANUAL''),
      take 19 (''Temp: '' @ fmt_1f fl temp @ [CHR 0x27] @ ''C''),
      take 19 (''Freq: '' @ fmt_2f fl (f_div fl (f_round fl 1) (f_div fl (f_of_u32 fl p) (f_round fl 1000))) @ ''Hz  ''),
      take 19 (''Period: '' @ show_int (sint p) @ ''ms  '')] \<and>
    (unat p < 10 ^ 7 \<longrightarrow> screen_lines fl mode temp p ! 6 = ''Period: '' @ show_nat (unat p) @ ''ms  '')"
proof -
  have "filter (\<lambda>x. fst x = OLED_DATA_MODE) (line_out row l) =
      map (Pair OLED_DATA_MODE) (concat (map (\<lambda>c. font ! glyph_index c) l))"
    by (simp add: line_out_def filter_map o_def OLED_DATA_MODE_def OLED_COMMAND_MODE_def)
  then have "spell (map snd (filter (\<lambda>x. fst x = OLED_DATA_MODE) (line_out row l))) = map shown l"
    by (simp add: o_def spell_text)
  moreover have "bus (exec (display (uapi E) fl mode temp p) d) =
      bus d @ concat (map (\<lambda>(row, l). line_out row l) (enumerate 0 (screen_lines fl mode temp p)))"
    using emits_display [of E fl mode temp p] unfolding emits_def by blast
  ultimately show ?thesis
    using screen_lines_text period_line by (intro conjI impI)
qed

theorem display_spells_lines_witness:
  "screen_lines demo_floats 0 20 (500 :: u32) ! 6 = ''Period: '' @ show_nat 500 @ ''ms  '' \<and>
   spell (map snd (filter (\<lambda>x. fst x = OLED_DATA_MODE) (line_out 2 ''Hz''))) = ''Hz''"
proof -
  note d = display_spells_lines [of demo_uenv demo_floats 0 20 "500 :: u32"
      "\<lparr>oled_fd = 5, oled_cbs = None, oworld = \<lparr>ulog = []\<rparr>\<rparr>" 2 "''Hz''"]
  have "unat (500 :: u32) < 10 ^ 7" by simp
  then have "screen_lines demo_floats 0 20 (500 :: u32) ! 6 = ''Period: '' @ show_nat (unat (500 :: u32)) @ ''ms  ''"
    by (rule d [THEN conjunct2, THEN conjunct2, THEN conjunct2, THEN mp])
  with d [THEN conjunct2, THEN conjunct1] show ?thesis by (simp add: shown_def)
qed

end
