(* ===== verification/LedControl.thy ===== *)
theory LedControl
  imports CFormat UserApi
begin

section \<open>The silly LED controller: \<open>src/03-led-controller\<close>\<close>

text \<open>
  A program with two threads: the button thread changes \<open>flash_period_ms\<close>, the timer
  thread flashes the LED with a duty of 2 percent by arming a one-shot timer in turn for the
  two parts of the period. The period is a \<open>long\<close> of 64 bits, a delay an \<open>int\<close> of 32. Lemmas: the
  invariant of the period, the split of a period, where a delay is truncated, the alternation of the timer
  thread, the bounds of the text buffers.
\<close>

definition DEFAULT_TIME_MS :: s64 where "DEFAULT_TIME_MS = 1000"
definition DUTY_CYCLE_PERCENT :: s64 where "DUTY_CYCLE_PERCENT = 2"

text \<open>\<open>struct ThreadData\<close>, the LED's descriptor and flag of the timer thread and the
  reading buffer of the button thread.\<close>

record 'w ledctl =
  flash_period_ms :: s64
  lc_timer_fd :: int
  lc_epoll_fd :: int
  isLedOn :: bool
  led_fd :: int
  buf0 :: int
  cworld :: 'w

definition ccall :: "(ucall \<Rightarrow> ('w, int) state) \<Rightarrow> ucall \<Rightarrow> ('w ledctl, int) state" where
  "ccall U c = zoom cworld (\<lambda>w d. d\<lparr>cworld := w\<rparr>) (U c)"

lemma ccall_simps [simp, run_simps]:
  "result (ccall U c) d = result (U c) (cworld d)"
  "exec (ccall U c) d = d\<lparr>cworld := exec (U c) (cworld d)\<rparr>"
  by (simp_all add: ccall_def)

subsection \<open>\<open>timer.c\<close>, \<open>led.c\<close>, \<open>button.c\<close>\<close>

text \<open>\<open>None\<close>: the process has exited.\<close>

definition timer_create_empty :: "(ucall \<Rightarrow> ('w, int) state) \<Rightarrow> ('w, int option) state" where
  "timer_create_empty U = do {
     f \<leftarrow> U Timerfd_create;
     if f = - 1 then do { uvoid (U (Exit 10)); ret None } else ret (Some f)
   }"

text \<open>
  Seconds and nanoseconds of a delay, with the truncating operators of C; the nanoseconds are below
  \<open>10 ^ 9\<close> in size, so that the product is the one of the 64 bits.
\<close>

definition its_value :: "s64 \<Rightarrow> int \<times> int" where
  "its_value period_ms = (sint period_ms sdiv 1000, (sint period_ms smod 1000) * 1000000)"

definition timer_set_time :: "(ucall \<Rightarrow> ('w, int) state) \<Rightarrow> int \<Rightarrow> s64 \<Rightarrow> ('w, bool) state" where
  "timer_set_time U timer_fd period_ms = do {
     let v = its_value period_ms;
     r \<leftarrow> U (Timerfd_settime timer_fd (fst v) (snd v));
     if r = - 1 then do { uvoid (U (Exit 11)); ret False } else ret True
   }"

definition timer_link_to_epoll :: "(ucall \<Rightarrow> ('w, int) state) \<Rightarrow> int \<Rightarrow> int \<Rightarrow> ('w, bool) state" where
  "timer_link_to_epoll U timer_fd epoll_fd = do {
     r \<leftarrow> U (Epoll_ctl epoll_fd timer_fd);
     if r = - 1 then do { uvoid (U (Exit 21)); ret False } else ret True
   }"

definition write_text :: "(ucall \<Rightarrow> ('w, int) state) \<Rightarrow> string \<Rightarrow> string \<Rightarrow> ('w, unit) state" where
  "write_text U path txt = do {
     f \<leftarrow> U (Open path);
     uvoid (U (Write f txt));
     uvoid (U (Close f))
   }"

definition led_open :: "(ucall \<Rightarrow> ('w, int) state) \<Rightarrow> string \<Rightarrow> string \<Rightarrow> ('w, int) state" where
  "led_open U gpio_path pin = do {
     write_text U ''/sys/class/gpio/unexport'' pin;
     write_text U ''/sys/class/gpio/export'' pin;
     write_text U (gpio_path @ ''/direction'') ''out'';
     U (Open (gpio_path @ ''/value''))
   }"

definition led_on :: "(ucall \<Rightarrow> ('w, int) state) \<Rightarrow> int \<Rightarrow> ('w, unit) state" where
  "led_on U led = uvoid (U (Pwrite led [CHR ''1'', CHR 0x00]))"

definition led_off :: "(ucall \<Rightarrow> ('w, int) state) \<Rightarrow> int \<Rightarrow> ('w, unit) state" where
  "led_off U led = uvoid (U (Pwrite led [CHR ''0'', CHR 0x00]))"

definition btn_open :: "(ucall \<Rightarrow> ('w, int) state) \<Rightarrow> string \<Rightarrow> string \<Rightarrow> ('w, int) state" where
  "btn_open U gpio_path pin = do {
     write_text U ''/sys/class/gpio/unexport'' pin;
     write_text U ''/sys/class/gpio/export'' pin;
     write_text U (gpio_path @ ''/direction'') ''in'';
     write_text U (gpio_path @ ''/edge'') ''both'';
     U (Open (gpio_path @ ''/value''))
   }"

subsection \<open>The button thread\<close>

text \<open>What a press of each button makes of the period.\<close>

definition increase_flash :: "s64 \<Rightarrow> s64" where "increase_flash p = p + 200"
definition reset_flash :: "s64 \<Rightarrow> s64" where "reset_flash p = DEFAULT_TIME_MS"
definition decrease_flash :: "s64 \<Rightarrow> s64" where
  "decrease_flash p = (let p' = p - 200 in if sint p' \<le> 0 then 200 else p')"

text \<open>\<open>malloc (100)\<close>, \<open>snprintf\<close>, \<open>syslog\<close>: the text that is logged.\<close>

definition log_text :: "string \<Rightarrow> s64 \<Rightarrow> string" where
  "log_text what p = fst (snprintf 100 (what @ '' flash period to '' @ show_int (sint p) @ '' ms''))"

definition set_flash :: "(ucall \<Rightarrow> ('w, int) state) \<Rightarrow> string \<Rightarrow> (s64 \<Rightarrow> s64) \<Rightarrow> ('w ledctl, unit) state" where
  "set_flash U what f = do {
     modify (\<lambda>d. d\<lparr>flash_period_ms := f (flash_period_ms d)\<rparr>);
     p \<leftarrow> gets flash_period_ms;
     uvoid (ccall U (Syslog (log_text what p)))
   }"

text \<open>One event on descriptor \<open>f\<close>; \<open>btn\<close> are the three buttons' descriptors.\<close>

definition flash_event :: "(ucall \<Rightarrow> ('w, int) state) \<Rightarrow> int list \<Rightarrow> int \<Rightarrow> ('w ledctl, unit) state" where
  "flash_event U btn f = do {
     v \<leftarrow> ccall U (Pread f 2);
     only_if (0 \<le> v) (modify (\<lambda>d. d\<lparr>buf0 := v\<rparr>));
     b \<leftarrow> gets buf0;
     (if f = btn ! 0 then only_if (b = 49) (set_flash U ''Increase'' increase_flash)
      else if f = btn ! 1 then only_if (b = 49) (set_flash U ''Reset'' reset_flash)
      else if f = btn ! 2 then only_if (b = 49) (set_flash U ''Decrease'' decrease_flash)
      else ret ())
   }"

definition GPIO_BTN :: "string list" where
  "GPIO_BTN = [''/sys/class/gpio/gpio0'', ''/sys/class/gpio/gpio2'', ''/sys/class/gpio/gpio3'']"
definition BTN_PINS :: "string list" where "BTN_PINS = [''0'', ''2'', ''3'']"

fun open_buttons :: "(ucall \<Rightarrow> ('w, int) state) \<Rightarrow> (string \<times> string) list \<Rightarrow> ('w, int list) state" where
  "open_buttons U [] = ret []"
| "open_buttons U ((g, p) # bs) = do {
     f \<leftarrow> btn_open U g p;
     fs \<leftarrow> open_buttons U bs;
     ret (f # fs)
   }"

fun each_button :: "(int \<Rightarrow> ('s, unit) state) \<Rightarrow> int list \<Rightarrow> ('s, unit) state" where
  "each_button m [] = ret ()"
| "each_button m (f # fs) = do { m f; each_button m fs }"

text \<open>
  The event loop, over what \<open>epoll_wait\<close> delivers: at most one event at a time, or an
  error that ends it.
\<close>

fun flash_events :: "(ucall \<Rightarrow> ('w, int) state) \<Rightarrow> int list \<Rightarrow> int option list \<Rightarrow> ('w ledctl, unit) state" where
  "flash_events U btn [] = ret ()"
| "flash_events U btn (None # es) = ret ()"
| "flash_events U btn (Some f # es) = do { flash_event U btn f; flash_events U btn es }"

definition btn_thread :: "(ucall \<Rightarrow> ('w, int) state) \<Rightarrow> int option list \<Rightarrow> ('w ledctl, unit) state" where
  "btn_thread U es = do {
     btn \<leftarrow> zoom cworld (\<lambda>w d. d\<lparr>cworld := w\<rparr>) (open_buttons U (zip GPIO_BTN BTN_PINS));
     epfd \<leftarrow> ccall U Epoll_create;
     each_button (\<lambda>f. uvoid (ccall U (Epoll_ctl epfd f))) btn;
     each_button (\<lambda>f. do {
       v \<leftarrow> ccall U (Pread f 2);
       only_if (0 \<le> v) (modify (\<lambda>d. d\<lparr>buf0 := v\<rparr>))
     }) btn;
     flash_events U btn es;
     each_button (\<lambda>f. uvoid (ccall U (Close f))) btn;
     uvoid (ccall U (Close epfd))
   }"

subsection \<open>The timer thread\<close>

definition time_on :: "s64 \<Rightarrow> s64" where
  "time_on period = word_of_int (sint period sdiv 100) * DUTY_CYCLE_PERCENT"

definition time_off :: "s64 \<Rightarrow> s64" where
  "time_off period = period - time_on period"

text \<open>\<open>int delay\<close>: a \<open>long\<close> is stored in an \<open>int\<close>, and passed on as a \<open>long\<close> again.\<close>

definition delay_of :: "s64 \<Rightarrow> i32" where
  "delay_of t = ucast t"

definition armed_value :: "s64 \<Rightarrow> int \<times> int" where
  "armed_value t = its_value (scast (delay_of t))"

text \<open>One pass of the loop; \<open>False\<close> ends the thread.\<close>

definition timer_pass :: "(ucall \<Rightarrow> ('w, int) state) \<Rightarrow> ('w ledctl, bool) state" where
  "timer_pass U = do {
     ep \<leftarrow> gets lc_epoll_fd;
     n \<leftarrow> ccall U (Epoll_wait ep);
     if n = - 1 then ret False
     else do {
       f \<leftarrow> gets lc_timer_fd;
       r \<leftarrow> ccall U (Read f 8);
       if r \<noteq> 8 then ret False
       else do {
         p \<leftarrow> gets flash_period_ms;
         lit \<leftarrow> gets isLedOn;
         led \<leftarrow> gets led_fd;
         (if \<not> lit then do {
            zoom cworld (\<lambda>w d. d\<lparr>cworld := w\<rparr>) (led_on U led);
            modify (\<lambda>d. d\<lparr>isLedOn := True\<rparr>)
          } else do {
            zoom cworld (\<lambda>w d. d\<lparr>cworld := w\<rparr>) (led_off U led);
            modify (\<lambda>d. d\<lparr>isLedOn := False\<rparr>)
          });
         zoom cworld (\<lambda>w d. d\<lparr>cworld := w\<rparr>)
           (timer_set_time U f (scast (delay_of (if \<not> lit then time_on p else time_off p))))
       }
     }
   }"

text \<open>The loop with fuel; \<open>False\<close>: it has ended.\<close>

fun timer_loop :: "(ucall \<Rightarrow> ('w, int) state) \<Rightarrow> nat \<Rightarrow> ('w ledctl, bool) state" where
  "timer_loop U 0 = ret True"
| "timer_loop U (Suc fuel) = do {
     go \<leftarrow> timer_pass U;
     if go then timer_loop U fuel else ret False
   }"

definition timer_thread :: "(ucall \<Rightarrow> ('w, int) state) \<Rightarrow> nat \<Rightarrow> ('w ledctl, bool) state" where
  "timer_thread U fuel = do {
     led \<leftarrow> zoom cworld (\<lambda>w d. d\<lparr>cworld := w\<rparr>) (led_open U ''/sys/class/gpio/gpio10'' ''10'');
     modify (\<lambda>d. d\<lparr>led_fd := led, isLedOn := False\<rparr>);
     zoom cworld (\<lambda>w d. d\<lparr>cworld := w\<rparr>) (led_off U led);
     timer_loop U fuel
   }"

text \<open>\<open>main\<close>, up to its endless loop; \<open>False\<close> when it exits before.\<close>

definition ledctl_main :: "(ucall \<Rightarrow> ('w, int) state) \<Rightarrow> ('w ledctl, bool) state" where
  "ledctl_main U = do {
     uvoid (ccall U (Syslog ''Start logging silly led-controller''));
     modify (\<lambda>d. d\<lparr>flash_period_ms := DEFAULT_TIME_MS\<rparr>);
     t \<leftarrow> zoom cworld (\<lambda>w d. d\<lparr>cworld := w\<rparr>) (timer_create_empty U);
     (case t of
        None \<Rightarrow> ret False
      | Some f \<Rightarrow> do {
          modify (\<lambda>d. d\<lparr>lc_timer_fd := f\<rparr>);
          p \<leftarrow> gets flash_period_ms;
          ok \<leftarrow> zoom cworld (\<lambda>w d. d\<lparr>cworld := w\<rparr>) (timer_set_time U f p);
          if \<not> ok then ret False
          else do {
            e \<leftarrow> ccall U Epoll_create;
            modify (\<lambda>d. d\<lparr>lc_epoll_fd := e\<rparr>);
            if e = - 1 then do { uvoid (ccall U (Exit 20)); ret False }
            else do {
              ok \<leftarrow> zoom cworld (\<lambda>w d. d\<lparr>cworld := w\<rparr>) (timer_link_to_epoll U f e);
              if \<not> ok then ret False
              else do {
                r \<leftarrow> ccall U (Pthread_create ''timer_thread'');
                if r \<noteq> 0 then do { uvoid (ccall U (Exit 30)); ret False }
                else do {
                  uvoid (ccall U (Pthread_create ''btn_thread''));
                  ret True
                }
              }
            }
          }
        })
   }"

subsection \<open>The period\<close>

text \<open>The invariant: a positive multiple of 200 ms.\<close>

definition flash_inv :: "s64 \<Rightarrow> bool" where
  "flash_inv p \<longleftrightarrow> 200 \<le> sint p \<and> 200 dvd sint p"

lemma sint_plus_s64:
  "- (2 ^ 63) \<le> sint (a :: s64) + k \<Longrightarrow> sint a + k < 2 ^ 63 \<Longrightarrow> sint (a + word_of_int k) = sint a + k"
  using sint_small64 [of "sint a + k"] by simp

lemma flash_inv_presses:
  "flash_inv p \<Longrightarrow> sint p + 200 < 2 ^ 63 \<Longrightarrow> flash_inv (increase_flash p) \<and> sint (increase_flash p) = sint p + 200"
  "flash_inv (reset_flash p) \<and> sint (reset_flash p) = 1000"
  "flash_inv p \<Longrightarrow> flash_inv (decrease_flash p) \<and> sint (decrease_flash p) \<le> sint p"
proof -
  show "flash_inv (reset_flash p) \<and> sint (reset_flash p) = 1000"
    by (simp add: flash_inv_def reset_flash_def DEFAULT_TIME_MS_def)
  assume inv: "flash_inv p"
  then have p: "200 \<le> sint p" "200 dvd sint p" by (simp_all add: flash_inv_def)
  show "flash_inv (increase_flash p) \<and> sint (increase_flash p) = sint p + 200" if "sint p + 200 < 2 ^ 63"
    using sint_plus_s64 [of p 200] that p by (simp add: flash_inv_def increase_flash_def)
  have d: "sint (p - 200) = sint p - 200"
    using sint_plus_s64 [of p "- 200"] p sint_lt [of p] by simp
  have "200 dvd sint p - 200" using p(2) by (metis dvd_diff dvd_refl)
  moreover have "200 \<le> sint p - 200" if "0 < sint p - 200"
    using that \<open>200 dvd sint p - 200\<close> by (rule zdvd_imp_le [rotated])
  ultimately show "flash_inv (decrease_flash p) \<and> sint (decrease_flash p) \<le> sint p"
    using p by (simp add: flash_inv_def decrease_flash_def d Let_def)
qed

text \<open>One event raises the period, and the bound \<open>B\<close> above 1000 with it, by at most 200 ms.\<close>

definition flash_below :: "int \<Rightarrow> 'w ledctl \<Rightarrow> bool" where
  "flash_below B d \<longleftrightarrow> flash_inv (flash_period_ms d) \<and> sint (flash_period_ms d) \<le> B \<and> 1000 \<le> B"

lemma flash_event_below:
  assumes "flash_below B d" and "B + 200 < 2 ^ 63"
  shows "flash_below (B + 200) (exec (flash_event U btn f) d)"
  using assms flash_inv_presses [of "flash_period_ms d"]
  by (auto simp: flash_below_def flash_event_def set_flash_def run_simps)

lemma flash_events_below:
  "flash_below B d \<Longrightarrow> B + 200 * int (length es) < 2 ^ 63 \<Longrightarrow>
    flash_below (B + 200 * int (length es)) (exec (flash_events U btn es) d)"
proof (induction es arbitrary: d B)
  case (Cons e es)
  show ?case
  proof (cases e)
    case None
    then show ?thesis using Cons.prems by (simp add: run_simps flash_below_def)
  next
    case (Some f)
    have "flash_below (B + 200) (exec (flash_event U btn f) d)"
      using Cons.prems by (intro flash_event_below) simp_all
    from Cons.IH [OF this] Cons.prems Some show ?thesis by (simp add: run_simps algebra_simps)
  qed
qed simp

lemma each_button_keeps: "(\<And>f. keeps Q (m f)) \<Longrightarrow> keeps Q (each_button m fs)"
  by (induction fs) (auto intro: keeps_rules)

lemma btn_thread_below:
  assumes "flash_below B d" and "B + 200 * int (length es) < 2 ^ 63"
  shows "flash_below (B + 200 * int (length es)) (exec (btn_thread U es) d)"
proof -
  have k: "keeps (flash_below B) (each_button (\<lambda>f. uvoid (ccall U (g f))) fs)" for g fs B
    by (rule each_button_keeps) (simp add: keeps_def flash_below_def)
  have r: "keeps (flash_below B) (each_button (\<lambda>f. do {
       v \<leftarrow> ccall U (Pread f 2);
       only_if (0 \<le> v) (modify (\<lambda>d. d\<lparr>buf0 := v\<rparr>)) }) fs)" for fs B
    by (rule each_button_keeps) (simp add: keeps_def run_simps flash_below_def)
  have w: "flash_below B (d\<lparr>cworld := x\<rparr>) = flash_below B d" for B x and d :: "'a ledctl"
    by (simp add: flash_below_def)
  show ?thesis
    by (simp add: btn_thread_def exec_bind result_bind keepsD [OF k] w)
      (rule flash_events_below, use assms in \<open>simp_all add: keepsD [OF r] keepsD [OF k] w\<close>)
qed

subsection \<open>The two parts of a period\<close>

lemma sdiv_nonneg: "0 \<le> a \<Longrightarrow> 0 < b \<Longrightarrow> a sdiv b = a div b" for a b :: int
  by (cases "a = 0") (simp_all add: signed_divide_int_def)

lemma smod_nonneg: "0 \<le> a \<Longrightarrow> 0 < b \<Longrightarrow> a smod b = a mod b" for a b :: int
  by (cases "a = 0") (simp_all add: signed_modulo_int_def)

lemma time_parts:
  assumes "flash_inv p"
  shows "sint (time_on p) = sint p div 50" "sint (time_off p) = sint p - sint p div 50"
    "100 * (sint p div 50) = 2 * sint p"
proof -
  obtain k where k: "sint p = 200 * k" using assms by (auto simp: flash_inv_def dvd_def)
  have pos: "0 < k" using assms k by (simp add: flash_inv_def)
  have lt: "200 * k < 2 ^ 63" using sint_lt [of p] k by simp
  have "sint p sdiv 100 = 2 * k" using k pos by (simp add: sdiv_nonneg)
  then have on: "time_on p = word_of_int (4 * k)" by (simp add: time_on_def DUTY_CYCLE_PERCENT_def)
  have "time_off p = word_of_int (sint p - 4 * k)" by (simp add: time_off_def on)
  then show "sint (time_on p) = sint p div 50" "sint (time_off p) = sint p - sint p div 50"
    unfolding on using k pos lt sint_small64 [of "4 * k"] sint_small64 [of "200 * k - 4 * k"] by simp_all
  show "100 * (sint p div 50) = 2 * sint p" using k by simp
qed

text \<open>Below \<open>2 ^ 31\<close> ms a delay keeps its value; at \<open>200 * 2 ^ 30\<close> ms the first part is truncated to 0.\<close>

lemma delay_of_exact:
  assumes "0 \<le> sint t" "sint t < 2 ^ 31"
  shows "sint (delay_of t) = sint t"
proof -
  have "delay_of t = word_of_int (sint t)"
    unfolding delay_of_def by (rule bit_word_eqI) (auto simp: bit_simps)
  then show ?thesis using assms by (simp only: sint_of_small)
qed

lemma armed_value_exact:
  assumes "0 \<le> sint t" "sint t < 2 ^ 31"
  shows "armed_value t = (sint t div 1000, sint t mod 1000 * 1000000)"
proof -
  have "sint (delay_of t) = sint t" using assms by (rule delay_of_exact)
  moreover have "(scast (delay_of t) :: s64) = word_of_int (sint (delay_of t))" by (rule scast_eq)
  ultimately have "sint (scast (delay_of t) :: s64) = sint t"
    using assms by (simp only:) (rule sint_small64, simp_all)
  then show ?thesis using assms by (simp add: armed_value_def its_value_def sdiv_nonneg smod_nonneg)
qed

lemma delay_truncated: "flash_inv (200 * 2 ^ 30) \<and> armed_value (time_on (200 * 2 ^ 30)) = (0, 0)"
  by (simp add: flash_inv_def armed_value_def its_value_def delay_of_def time_on_def DUTY_CYCLE_PERCENT_def sdiv_nonneg)

lemma log_text_complete:
  assumes "length what \<le> 20"
  shows "log_text what p = what @ '' flash period to '' @ show_int (sint p) @ '' ms''"
proof -
  have "sint p < 10 ^ 20" "- (10 ^ 20) < sint p" using sint_lt [of p] sint_ge [of p] by simp_all
  then have "length (show_nat (nat (sint p))) \<le> 20" "length (show_nat (nat (- sint p))) \<le> 20"
    by (intro length_show_nat_le; simp add: nat_less_iff)+
  then have "length (show_int (sint p)) \<le> 21" by (simp add: show_int_def)
  then show ?thesis using assms by (simp add: log_text_def snprintf_def)
qed

subsection \<open>The timer thread's trace\<close>

text \<open>The levels written to the LED and the delays armed, in the log.\<close>

definition lc_log :: "('z ulog_scheme) ledctl \<Rightarrow> uevent list" where
  "lc_log d = ulog (cworld d)"

datatype flash = Level bool | Arm int int

definition flashes :: "uevent list \<Rightarrow> flash list" where
  "flashes es = List.map_filter (\<lambda>e. case fst e of
     Pwrite _ (c # _) \<Rightarrow> Some (Level (c = CHR ''1''))
   | Timerfd_settime _ s n \<Rightarrow> Some (Arm s n) | _ \<Rightarrow> None) es"

lemma flashes_simps [simp]:
  "flashes [] = []" "flashes (xs @ ys) = flashes xs @ flashes ys"
  "flashes ((Pwrite f (c # cs), r) # es) = Level (c = CHR ''1'') # flashes es"
  "flashes ((Timerfd_settime f s n, r) # es) = Arm s n # flashes es"
  "flashes ((Epoll_wait e, r) # es) = flashes es" "flashes ((Read f k, r) # es) = flashes es"
  "flashes ((Exit k, r) # es) = flashes es"
  by (simp_all add: flashes_def List.map_filter_def)

text \<open>An environment in which waiting, reading and arming succeed.\<close>

definition timer_env :: "uenv \<Rightarrow> bool" where
  "timer_env E \<longleftrightarrow> (\<forall>h e. uret E h (Epoll_wait e) \<noteq> - 1) \<and> (\<forall>h f. uret E h (Read f 8) = 8) \<and>
     (\<forall>h f s n. uret E h (Timerfd_settime f s n) \<noteq> - 1)"

text \<open>One pass at the period \<open>p\<close>: the new level, and the 2 or the 98 hundredths of the period that it lasts.\<close>

definition pass_flashes :: "int \<Rightarrow> bool \<Rightarrow> flash list" where
  "pass_flashes p lit = (let ms = (if \<not> lit then p div 50 else p - p div 50)
     in [Level (\<not> lit), Arm (ms div 1000) (ms mod 1000 * 1000000)])"

lemma timer_pass_effect:
  assumes "timer_env E" and "flash_inv (flash_period_ms d)" and "sint (flash_period_ms d) < 2 ^ 31"
  shows "result (timer_pass (uapi E)) d"
    and "flashes (lc_log (exec (timer_pass (uapi E)) d)) =
      flashes (lc_log d) @ pass_flashes (sint (flash_period_ms d)) (isLedOn d)"
    and "isLedOn (exec (timer_pass (uapi E)) d) = (\<not> isLedOn d)"
    and "flash_period_ms (exec (timer_pass (uapi E)) d) = flash_period_ms d"
proof -
  let ?p = "flash_period_ms d"
  note parts = time_parts [OF assms(2)]
  have "0 \<le> sint ?p div 50" "sint ?p div 50 \<le> sint ?p" "0 \<le> sint ?p"
    using parts(3) assms(2) by (auto simp: flash_inv_def)
  then have v: "its_value (scast (delay_of (time_on ?p))) = (sint ?p div 50 div 1000, sint ?p div 50 mod 1000 * 1000000)"
    "its_value (scast (delay_of (time_off ?p))) =
      ((sint ?p - sint ?p div 50) div 1000, (sint ?p - sint ?p div 50) mod 1000 * 1000000)"
    using armed_value_exact [of "time_on ?p"] armed_value_exact [of "time_off ?p"] assms(3)
    by (simp_all add: parts armed_value_def)
  show "result (timer_pass (uapi E)) d"
    "flashes (lc_log (exec (timer_pass (uapi E)) d)) =
      flashes (lc_log d) @ pass_flashes (sint (flash_period_ms d)) (isLedOn d)"
    "isLedOn (exec (timer_pass (uapi E)) d) = (\<not> isLedOn d)"
    "flash_period_ms (exec (timer_pass (uapi E)) d) = flash_period_ms d"
    using assms(1)
    by (simp_all add: timer_pass_def timer_env_def run_simps timer_set_time_def led_on_def led_off_def
        lc_log_def pass_flashes_def Let_def v)
qed

fun loop_flashes :: "int \<Rightarrow> bool \<Rightarrow> nat \<Rightarrow> flash list" where
  "loop_flashes p lit 0 = []"
| "loop_flashes p lit (Suc n) = pass_flashes p lit @ loop_flashes p (\<not> lit) n"

lemma timer_loop_effect:
  assumes "timer_env E" and "flash_inv (flash_period_ms d)" and "sint (flash_period_ms d) < 2 ^ 31"
  shows "flashes (lc_log (exec (timer_loop (uapi E) n) d)) =
      flashes (lc_log d) @ loop_flashes (sint (flash_period_ms d)) (isLedOn d) n \<and>
    result (timer_loop (uapi E) n) d"
  using assms(2,3)
proof (induction n arbitrary: d)
  case (Suc n)
  note eff = timer_pass_effect [OF assms(1) Suc.prems]
  show ?case using eff Suc.prems Suc.IH [of "exec (timer_pass (uapi E)) d"] by (simp add: run_simps)
qed simp

text \<open>The thread ends at the first wait or read that fails, with the LED and the timer as they are.\<close>

lemma timer_loop_ends:
  assumes "uret E (lc_log d) (Epoll_wait (lc_epoll_fd d)) = - 1 \<or>
    uret E (lc_log d @ [(Epoll_wait (lc_epoll_fd d), uret E (lc_log d) (Epoll_wait (lc_epoll_fd d)))]) (Read (lc_timer_fd d) 8) \<noteq> 8"
  shows "\<not> result (timer_loop (uapi E) (Suc n)) d"
    and "flashes (lc_log (exec (timer_loop (uapi E) (Suc n)) d)) = flashes (lc_log d)"
  using assms by (auto simp: timer_pass_def run_simps lc_log_def)

end
