(* ===== verification/ModuleLabs.thy ===== *)
theory ModuleLabs
  imports Temp
begin

section \<open>The kernel module exercises: \<open>src/01-skeleton\<close>\<close>

text \<open>
  The parts of the exercise module: the list of elements in one allocated block, the read-out
  of memory-mapped registers, the two threads that wake each other, the interrupt handlers of
  the three switches. Lemmas: which elements the list holds and what freeing them one by one
  does, which resources each part releases, the strict alternation of the two threads.
\<close>

subsection \<open>\<open>s02e04-dynamic_allocation.c\<close>\<close>

definition TEXT_LENGTH_MAX :: nat where "TEXT_LENGTH_MAX = 255"

record element =
  e_addr :: int
  e_text :: string
  unique_number :: i32

record elems = klog +
  unique_elements :: "element list"  \<comment> \<open>\<open>list_unique_elements\<close>\<close>

text \<open>
  The loop with its counter \<open>i\<close> of 8 bits, on the block at \<open>base\<close>; \<open>size_el\<close> is
  \<open>sizeof (struct element)\<close>. \<open>False\<close>: the fuel is used up.
\<close>

fun alloc_loop :: "int \<Rightarrow> string \<Rightarrow> int \<Rightarrow> int \<Rightarrow> nat \<Rightarrow> u8 \<Rightarrow> ('z elems_scheme, bool) state" where
  "alloc_loop size_el text elements base 0 i = ret False"
| "alloc_loop size_el text elements base (Suc fuel) i =
     (if uint i < elements then do {
        modify (\<lambda>s. s\<lparr>unique_elements := unique_elements s @
          [\<lparr>e_addr = base + uint i * size_el, e_text = take (TEXT_LENGTH_MAX - 1) text,
            unique_number = ucast i\<rparr>]\<rparr>);
        alloc_loop size_el text elements base fuel (i + 1)
      } else ret True)"

definition dynAlloc_init ::
  "kenv \<Rightarrow> int \<Rightarrow> string \<Rightarrow> int \<Rightarrow> nat \<Rightarrow> ('z elems_scheme, bool) state" where
  "dynAlloc_init E size_el text elements fuel = do {
     p \<leftarrow> kapi E (Kcalloc (nat elements) (nat size_el));
     if p = 0 then ret True else alloc_loop size_el text elements p fuel 0
   }"

text \<open>\<open>while (!list_empty (\<dots>))\<close>: the list is consumed from its head.\<close>

fun free_elements :: "kenv \<Rightarrow> element list \<Rightarrow> ('z elems_scheme, unit) state" where
  "free_elements E [] = ret ()"
| "free_elements E (e # es) = do {
     modify (\<lambda>s. s\<lparr>unique_elements := es\<rparr>);
     only_if (e_addr e \<noteq> 0) (void (kapi E (Kfree (e_addr e))));
     free_elements E es
   }"

definition dynAlloc_exit :: "kenv \<Rightarrow> ('z elems_scheme, unit) state" where
  "dynAlloc_exit E = do {
     es \<leftarrow> gets unique_elements;
     free_elements E es
   }"

definition element_at :: "int \<Rightarrow> string \<Rightarrow> int \<Rightarrow> nat \<Rightarrow> element" where
  "element_at size_el text base k = \<lparr>e_addr = base + int k * size_el,
     e_text = take (TEXT_LENGTH_MAX - 1) text, unique_number = word_of_nat k\<rparr>"

lemma uint8_of_nat: "k < 256 \<Longrightarrow> uint (word_of_nat k :: u8) = int k"
  by (simp add: uint_nat unat_word_ariths take_bit_nat_eq_self unat_of_nat)

lemma ucast8_of_nat: "k < 256 \<Longrightarrow> (ucast (word_of_nat k :: u8) :: i32) = word_of_nat k"
  using uint8_of_nat [of k] by (metis ucast_eq of_int_of_nat_eq)

lemma alloc_loop_elements:
  assumes "elements \<le> 255" and "int k \<le> elements" and "nat elements - k < fuel"
  shows "result (alloc_loop size_el text elements base fuel (word_of_nat k)) s \<and>
    unique_elements (exec (alloc_loop size_el text elements base fuel (word_of_nat k)) s) =
      unique_elements s @ map (element_at size_el text base) [k..<nat elements] \<and>
    klog (exec (alloc_loop size_el text elements base fuel (word_of_nat k)) s) = klog s"
  using assms(2,3)
proof (induction fuel arbitrary: k s)
  case (Suc fuel)
  have k: "k < 256" using Suc.prems(1) assms(1) by simp
  show ?case
  proof (cases "int k < elements")
    case True
    have "(word_of_nat k :: u8) + 1 = word_of_nat (Suc k)" by (simp add: add.commute)
    moreover have "[k..<nat elements] = k # [Suc k..<nat elements]"
      using True by (intro upt_conv_Cons) simp
    ultimately show ?thesis
      using True Suc.IH [of "Suc k" "s\<lparr>unique_elements := unique_elements s @ [element_at size_el text base k]\<rparr>"]
        Suc.prems
      by (simp add: run_simps uint8_of_nat [OF k] ucast8_of_nat [OF k] element_at_def
          del: of_nat_Suc word_of_nat_eq_iff)
  next
    case False
    then show ?thesis by (simp add: run_simps uint8_of_nat [OF k])
  qed
qed simp

text \<open>With 256 elements or more the 8-bit counter never reaches the bound.\<close>

lemma alloc_loop_endless:
  "256 \<le> elements \<Longrightarrow> \<not> result (alloc_loop size_el text elements base fuel i) s"
proof (induction fuel arbitrary: i s)
  case (Suc fuel)
  have "uint i < 256" using uint_lt2p [of i] by simp
  with Suc show ?case by (simp add: run_simps)
qed simp

lemma free_elements_resources:
  assumes "res_state (klog s) = Some (add_mset (R_mem base) R)" and "base \<noteq> 0"
    and "\<forall>p. R_mem p \<in># R \<longrightarrow> p < base" and "0 < size_el" and "0 < base"
  shows "res_state (klog (exec (free_elements E (map (element_at size_el text base) [0..<n])) s)) =
    (if n = 0 then Some (add_mset (R_mem base) R) else if n = 1 then Some R else None)"
proof -
  have stuck: "res_state (klog (exec (free_elements E es) s')) = None" if "res_state (klog s') = None" for es s'
    using that by (induction es arbitrary: s') (simp_all add: run_simps)
  consider "n = 0" | "n = 1" | m where "n = Suc (Suc m)" by (metis One_nat_def not0_implies_Suc)
  then show ?thesis
  proof cases
    case 3
    have "R_mem (base + size_el) \<notin># R" using assms(3,4) by force
    then have no: "drop_res (R_mem (base + size_el)) R = None" by (simp add: drop_res_def)
    have "[0..<n] = 0 # 1 # [2..<n]" using 3 by (simp add: upt_conv_Cons numeral_2_eq_2 del: upt_Suc)
    then have list: "map (element_at size_el text base) [0..<n] =
        element_at size_el text base 0 # element_at size_el text base 1 #
        map (element_at size_el text base) [2..<n]" by simp
    show ?thesis unfolding list
      using assms 3 no by (simp add: run_simps element_at_def stuck)
  qed (use assms in \<open>simp_all add: run_simps element_at_def\<close>)
qed

subsection \<open>\<open>s02e05-io_memory_mapped.c\<close>\<close>

definition CHIP_ID_BASE_ADDR :: nat where "CHIP_ID_BASE_ADDR = 0x01c14000"
definition ETHERNET_CONTROLLER_BASE_ADDR :: nat where "ETHERNET_CONTROLLER_BASE_ADDR = 0x01C30000"

record iomem = klog +
  io_resource0 :: int  \<comment> \<open>\<open>resources[0]\<close> to \<open>resources[2]\<close>\<close>
  io_resource1 :: int
  io_resource2 :: int

text \<open>What the module reads from the registers and prints.\<close>

record io_values =
  io_chipid :: "u32 list"
  io_temperature :: u32
  io_mac :: "u32 list"

definition mac_bytes :: "u32 \<Rightarrow> u32 \<Rightarrow> u32 list" where
  "mac_bytes mac0 mac1 =
     [drop_bit 0 mac1 AND 0xff, drop_bit 8 mac1 AND 0xff, drop_bit 16 mac1 AND 0xff,
      drop_bit 24 mac1 AND 0xff, drop_bit 0 mac0 AND 0xff, drop_bit 8 mac0 AND 0xff]"

definition ioread :: "kenv \<Rightarrow> int \<Rightarrow> ('z klog_scheme, u32) state" where
  "ioread E p = do { v \<leftarrow> kapi E (Ioread32 p); ret (word_of_int v) }"

text \<open>The read-outs between the three mappings and their release.\<close>

definition io_readout :: "kenv \<Rightarrow> int \<Rightarrow> int \<Rightarrow> int \<Rightarrow> ('z klog_scheme, io_values) state" where
  "io_readout E reg0 reg1 reg2 = do {
     chipid0 \<leftarrow> ioread E (reg0 + 0x200);
     chipid1 \<leftarrow> ioread E (reg0 + 0x204);
     chipid2 \<leftarrow> ioread E (reg0 + 0x208);
     chipid3 \<leftarrow> ioread E (reg0 + 0x20c);
     raw \<leftarrow> ioread E (reg1 + 0x80);
     void (ioread E (reg1 + 0x80));
     mac0 \<leftarrow> ioread E (reg2 + 0x50);
     mac1 \<leftarrow> ioread E (reg2 + 0x54);
     ret \<lparr>io_chipid = [chipid0, chipid1, chipid2, chipid3],
          io_temperature = sdiv32 (- 1191 * raw) 10 + 223000,
          io_mac = mac_bytes mac0 mac1\<rparr>
   }"

definition io_request :: "kenv \<Rightarrow> ('z iomem_scheme, unit) state" where
  "io_request E = do {
     res0 \<leftarrow> kapi E (Request_mem_region CHIP_ID_BASE_ADDR 0x1000 ''nanopi - chip ID'');
     modify (\<lambda>s. s\<lparr>io_resource0 := res0\<rparr>);
     res1 \<leftarrow> kapi E (Request_mem_region TEMPERATURE_SENSOR_BASE_ADDR 0x1000
                      ''nanopi - temperature sensor'');
     modify (\<lambda>s. s\<lparr>io_resource1 := res1\<rparr>);
     res2 \<leftarrow> kapi E (Request_mem_region ETHERNET_CONTROLLER_BASE_ADDR 0x1000
                      ''nanopi - Ethernet controller'');
     modify (\<lambda>s. s\<lparr>io_resource2 := res2\<rparr>)
   }"

text \<open>\<open>None\<close>: an early return after a mapping that failed.\<close>

definition ioMemoryMapped_init :: "kenv \<Rightarrow> ('z iomem_scheme, io_values option) state" where
  "ioMemoryMapped_init E = do {
     io_request E;
     reg0 \<leftarrow> kapi E (Ioremap CHIP_ID_BASE_ADDR 0x1000);
     if reg0 = 0 then ret None
     else do {
       reg1 \<leftarrow> kapi E (Ioremap TEMPERATURE_SENSOR_BASE_ADDR 0x1000);
       if reg1 = 0 then ret None
       else do {
         reg2 \<leftarrow> kapi E (Ioremap ETHERNET_CONTROLLER_BASE_ADDR 0x1000);
         if reg2 = 0 then ret None
         else do {
           v \<leftarrow> io_readout E reg0 reg1 reg2;
           void (kapi E (Iounmap reg0));
           void (kapi E (Iounmap reg1));
           void (kapi E (Iounmap reg2));
           ret (Some v)
         }
       }
     }
   }"

definition ioMemoryMapped_exit :: "kenv \<Rightarrow> ('z iomem_scheme, unit) state" where
  "ioMemoryMapped_exit E = do {
     res0 \<leftarrow> gets io_resource0;
     only_if (res0 \<noteq> 0) (void (kapi E (Release_mem_region CHIP_ID_BASE_ADDR 0x1000)));
     res1 \<leftarrow> gets io_resource1;
     only_if (res1 \<noteq> 0) (void (kapi E (Release_mem_region TEMPERATURE_SENSOR_BASE_ADDR 0x1000)));
     res2 \<leftarrow> gets io_resource2;
     only_if (res2 \<noteq> 0) (void (kapi E (Release_mem_region ETHERNET_CONTROLLER_BASE_ADDR 0x1000)))
   }"

text \<open>The six printed bytes are the bytes of the two registers.\<close>

lemma mac_bytes_range: "b \<in> set (mac_bytes mac0 mac1) \<Longrightarrow> b \<le> 0xff"
  by (auto simp: mac_bytes_def word_and_le1)

text \<open>Long sequences of calls are followed by what they own, not by their log.\<close>

lemma kapi_res:
  "res_state (klog (exec (kapi E c) s)) =
     Option.bind (res_state (klog s)) (\<lambda>R. res_step R (c, result (kapi E c) s))"
  by simp

lemmas lab_simps = result_bind exec_bind result_if exec_if result_exec_basic exec_void
  result_case_option exec_case_option kapi_res

lemma kapi_io_simps [simp]:
  "io_resource0 (exec (kapi E c) s) = io_resource0 s"
  "io_resource1 (exec (kapi E c) s) = io_resource1 s"
  "io_resource2 (exec (kapi E c) s) = io_resource2 s"
  by simp_all

lemma ioread_simps [simp]:
  "res_state (klog (exec (ioread E p) t)) = res_state (klog t)"
  "io_resource0 (exec (ioread E p) s) = io_resource0 s"
  "io_resource1 (exec (ioread E p) s) = io_resource1 s"
  "io_resource2 (exec (ioread E p) s) = io_resource2 s"
  by (simp_all add: ioread_def lab_simps del: exec_kapi result_kapi)

lemma io_readout_effect [simp]:
  "res_state (klog (exec (io_readout E p q r) t)) = res_state (klog t)"
  "io_resource0 (exec (io_readout E p q r) s) = io_resource0 s"
  "io_resource1 (exec (io_readout E p q r) s) = io_resource1 s"
  "io_resource2 (exec (io_readout E p q r) s) = io_resource2 s"
  by (simp_all add: io_readout_def lab_simps del: exec_kapi result_kapi)

text \<open>What the module owns for its three requests, and what an exit gives back.\<close>

definition io_regions :: "'z iomem_scheme \<Rightarrow> kres multiset" where
  "io_regions s =
     (if io_resource0 s = 0 then {#} else {#R_region CHIP_ID_BASE_ADDR#}) +
     (if io_resource1 s = 0 then {#} else {#R_region TEMPERATURE_SENSOR_BASE_ADDR#}) +
     (if io_resource2 s = 0 then {#} else {#R_region ETHERNET_CONTROLLER_BASE_ADDR#})"

lemma region_addresses [simp]:
  "CHIP_ID_BASE_ADDR \<noteq> TEMPERATURE_SENSOR_BASE_ADDR" "TEMPERATURE_SENSOR_BASE_ADDR \<noteq> CHIP_ID_BASE_ADDR"
  "CHIP_ID_BASE_ADDR \<noteq> ETHERNET_CONTROLLER_BASE_ADDR" "ETHERNET_CONTROLLER_BASE_ADDR \<noteq> CHIP_ID_BASE_ADDR"
  "ETHERNET_CONTROLLER_BASE_ADDR \<noteq> TEMPERATURE_SENSOR_BASE_ADDR"
  "TEMPERATURE_SENSOR_BASE_ADDR \<noteq> ETHERNET_CONTROLLER_BASE_ADDR"
  by (simp_all add: CHIP_ID_BASE_ADDR_def TEMPERATURE_SENSOR_BASE_ADDR_def ETHERNET_CONTROLLER_BASE_ADDR_def)

lemma ioMemoryMapped_exit_releases:
  "res_state (klog s) = Some (R + io_regions s) \<Longrightarrow>
   res_state (klog (exec (ioMemoryMapped_exit E) s)) = Some R"
  by (simp add: ioMemoryMapped_exit_def io_regions_def run_simps)

lemma io_request_resources:
  "res_state (klog s) = Some R \<Longrightarrow>
   res_state (klog (exec (io_request E) s)) = Some (R + io_regions (exec (io_request E) s))"
  by (simp add: io_request_def io_regions_def run_simps)

lemma iomem_regions_simps [simp]:
  "io_regions (exec (kapi E c) s) = io_regions s"
  "io_regions (exec (io_readout E p q r) s) = io_regions s"
  by (simp_all add: io_regions_def)

lemma ioMemoryMapped_init_resources:
  fixes s :: "'z iomem_scheme" and E :: kenv
  assumes "res_state (klog s) = Some R"
  defines "m \<equiv> (ioMemoryMapped_init E :: ('z iomem_scheme, io_values option) state)"
  shows "\<exists>L. res_state (klog (exec m s)) = Some (R + L + io_regions (exec m s)) \<and>
    (result m s \<noteq> None \<longrightarrow> L = {#}) \<and> size L \<le> 2 \<and> (\<forall>x \<in># L. \<exists>p. x = R_mapping p)"
proof -
  define s1 where "s1 = exec (io_request E) s"
  define p0 where "p0 = result (kapi E (Ioremap CHIP_ID_BASE_ADDR 0x1000)) s1"
  define s2 where "s2 = exec (kapi E (Ioremap CHIP_ID_BASE_ADDR 0x1000)) s1"
  define p1 where "p1 = result (kapi E (Ioremap TEMPERATURE_SENSOR_BASE_ADDR 0x1000)) s2"
  define s3 where "s3 = exec (kapi E (Ioremap TEMPERATURE_SENSOR_BASE_ADDR 0x1000)) s2"
  define p2 where "p2 = result (kapi E (Ioremap ETHERNET_CONTROLLER_BASE_ADDR 0x1000)) s3"
  define s4 where "s4 = exec (kapi E (Ioremap ETHERNET_CONTROLLER_BASE_ADDR 0x1000)) s3"
  note fold = s1_def [symmetric] p0_def [symmetric] s2_def [symmetric] p1_def [symmetric]
    s3_def [symmetric] p2_def [symmetric] s4_def [symmetric]
  have 1: "res_state (klog s1) = Some (R + io_regions s1)"
    unfolding s1_def by (rule io_request_resources [OF assms(1)])
  have 2: "res_state (klog s2) = Some ((if p0 = 0 then {#} else {#R_mapping p0#}) + R + io_regions s1)"
    using 1 by (simp add: s2_def kapi_res p0_def del: exec_kapi result_kapi)
  have 3: "res_state (klog s3) = Some ((if p1 = 0 then {#} else {#R_mapping p1#}) +
      (if p0 = 0 then {#} else {#R_mapping p0#}) + R + io_regions s1)"
    using 2 by (simp add: s3_def kapi_res p1_def del: exec_kapi result_kapi)
  have 4: "res_state (klog s4) = Some ((if p2 = 0 then {#} else {#R_mapping p2#}) +
      (if p1 = 0 then {#} else {#R_mapping p1#}) +
      (if p0 = 0 then {#} else {#R_mapping p0#}) + R + io_regions s1)"
    using 3 by (simp add: s4_def kapi_res p2_def del: exec_kapi result_kapi)
  have regions: "io_regions s2 = io_regions s1" "io_regions s3 = io_regions s1" "io_regions s4 = io_regions s1"
    by (simp_all add: s2_def s3_def s4_def del: exec_kapi)
  consider "p0 = 0" | "p0 \<noteq> 0" "p1 = 0" | "p0 \<noteq> 0" "p1 \<noteq> 0" "p2 = 0" | "p0 \<noteq> 0" "p1 \<noteq> 0" "p2 \<noteq> 0"
    by blast
  then show ?thesis
  proof cases
    case 1
    then show ?thesis using 2 regions
      by (intro exI [of _ "{#}"]) (simp add: m_def ioMemoryMapped_init_def lab_simps fold del: exec_kapi result_kapi)
  next
    case 2
    then show ?thesis using 3 regions
      by (intro exI [of _ "{#R_mapping p0#}"])
        (simp add: m_def ioMemoryMapped_init_def lab_simps fold del: exec_kapi result_kapi)
  next
    case 3
    then show ?thesis using 4 regions
      by (intro exI [of _ "{#R_mapping p0, R_mapping p1#}"])
        (simp add: m_def ioMemoryMapped_init_def lab_simps fold del: exec_kapi result_kapi)
  next
    case 4
    then show ?thesis using \<open>res_state (klog s4) = _\<close> regions
      by (intro exI [of _ "{#}"])
        (simp add: m_def ioMemoryMapped_init_def lab_simps fold del: exec_kapi result_kapi)
  qed
qed

subsection \<open>\<open>s02e06-thread.c\<close>\<close>

definition DELAY_S :: nat where "DELAY_S = 5"

record ping = klog +
  sample_thread :: int
  pings_printed :: nat

text \<open>\<open>None\<close>: the loop did not end within the fuel.\<close>

fun thread_skeletonThread :: "kenv \<Rightarrow> nat \<Rightarrow> ('z ping_scheme, int option) state" where
  "thread_skeletonThread E 0 = ret None"
| "thread_skeletonThread E (Suc fuel) = do {
     stop \<leftarrow> kapi E Kthread_should_stop;
     if stop \<noteq> 0 then ret (Some 0)
     else do {
       modify (\<lambda>s. s\<lparr>pings_printed := pings_printed s + 1\<rparr>);
       void (kapi E (Ssleep DELAY_S));
       thread_skeletonThread E fuel
     }
   }"

definition thread_init :: "kenv \<Rightarrow> ('z ping_scheme, unit) state" where
  "thread_init E = do {
     t \<leftarrow> kapi E (Kthread_run ''The Machine that goes'');
     modify (\<lambda>s. s\<lparr>sample_thread := t\<rparr>)
   }"

definition thread_exit :: "kenv \<Rightarrow> ('z ping_scheme, unit) state" where
  "thread_exit E = do {
     t \<leftarrow> gets sample_thread;
     void (kapi E (Kthread_stop t))
   }"

text \<open>Started and stopped, the thread is gone; an exit after a failed start is a misuse.\<close>

lemma thread_init_exit:
  "res_state (klog s) = Some {#} \<Longrightarrow>
   res_state (klog (exec (do { thread_init E; thread_exit E }) s)) =
     (if IS_ERR (kret E (klog s) (Kthread_run ''The Machine that goes'')) then None else Some {#})"
  by (simp add: thread_init_def thread_exit_def run_simps)

text \<open>The thread that is told to stop after \<open>n\<close> rounds has printed \<open>n\<close> times.\<close>

lemma thread_pings:
  assumes "\<forall>h. kret E h Kthread_should_stop = (if k + n \<le> stops h then 1 else 0)"
    and "\<forall>h c r. stops (h @ [(c, r)]) = stops h + (if c = Ssleep DELAY_S then 1 else 0)"
    and "stops (klog s) = k" and "n < fuel"
  shows "result (thread_skeletonThread E fuel) s = Some 0 \<and>
    pings_printed (exec (thread_skeletonThread E fuel) s) = pings_printed s + n"
  using assms
proof (induction fuel arbitrary: s k n)
  case (Suc fuel)
  have next_stop: "stops (h @ [(c, r)]) = stops h" if "c \<noteq> Ssleep DELAY_S" for h c r
    using Suc.prems(2) that by simp
  have two: "stops (h @ [(Kthread_should_stop, r), (Ssleep DELAY_S, r')]) = Suc (stops h)" for h r r'
    using Suc.prems(2) [rule_format, of "h @ [(Kthread_should_stop, r)]" "Ssleep DELAY_S" r']
      next_stop [of Kthread_should_stop h r] by simp
  show ?case
  proof (cases n)
    case 0
    then show ?thesis using Suc.prems by (simp add: run_simps)
  next
    case (Suc m)
    let ?t = "exec (do { stop \<leftarrow> kapi E Kthread_should_stop;
       modify (\<lambda>s. s\<lparr>pings_printed := pings_printed s + 1\<rparr>); void (kapi E (Ssleep DELAY_S)) }) s"
    have t: "stops (klog ?t) = Suc k" "pings_printed ?t = Suc (pings_printed s)"
      using Suc.prems(2,3) two [of "klog s"] by (simp_all add: run_simps)
    have "result (thread_skeletonThread E fuel) ?t = Some 0 \<and>
        pings_printed (exec (thread_skeletonThread E fuel) ?t) = pings_printed ?t + m"
      using Suc.IH [of "Suc k" m ?t] Suc.prems Suc t by simp
    then show ?thesis using Suc Suc.prems t by (simp add: run_simps)
  qed
qed simp

subsection \<open>\<open>s02e07-sleeping.c\<close>\<close>

text \<open>
  The two threads, one step per statement. \<open>wait_event_interruptible\<close> tests its condition
  and either goes on or falls asleep in the queue in one step, as its loop around
  \<open>prepare_to_wait\<close> promises; \<open>wake_up_interruptible\<close> makes a sleeper test again.
\<close>

datatype pc1 = Test1 | Sleep1 | Set1 | Wake1 | Wait1 | Asleep1 | Done1
datatype pc2 = Test2 | Wait2 | Asleep2 | Reset2 | Wake2 | Done2

record sleeping =
  at1 :: pc1
  at2 :: pc2
  trigger :: int
  stop1 :: bool
  stop2 :: bool
  set_times :: nat
  ping_times :: nat

definition sleeping_threads :: sleeping where
  "sleeping_threads = \<lparr>at1 = Test1, at2 = Test2, trigger = 0, stop1 = False, stop2 = False,
     set_times = 0, ping_times = 0\<rparr>"

definition thread_skeleton_1 :: "sleeping \<Rightarrow> sleeping option" where
  "thread_skeleton_1 s = (case at1 s of
       Test1 \<Rightarrow> Some (s\<lparr>at1 := if stop1 s then Done1 else Sleep1\<rparr>)
     | Sleep1 \<Rightarrow> Some (s\<lparr>at1 := Set1\<rparr>)
     | Set1 \<Rightarrow> Some (s\<lparr>trigger := 1, set_times := set_times s + 1, at1 := Wake1\<rparr>)
     | Wake1 \<Rightarrow> Some (s\<lparr>at1 := Wait1, at2 := if at2 s = Asleep2 then Wait2 else at2 s\<rparr>)
     | Wait1 \<Rightarrow> Some (s\<lparr>at1 := if trigger s = 0 \<or> stop1 s then Test1 else Asleep1\<rparr>)
     | Asleep1 \<Rightarrow> None
     | Done1 \<Rightarrow> None)"

definition thread_skeleton_2 :: "sleeping \<Rightarrow> sleeping option" where
  "thread_skeleton_2 s = (case at2 s of
       Test2 \<Rightarrow> Some (s\<lparr>at2 := if stop2 s then Done2 else Wait2\<rparr>)
     | Wait2 \<Rightarrow> Some (if trigger s = 1 \<or> stop2 s
         then s\<lparr>ping_times := ping_times s + 1, at2 := Reset2\<rparr> else s\<lparr>at2 := Asleep2\<rparr>)
     | Asleep2 \<Rightarrow> None
     | Reset2 \<Rightarrow> Some (s\<lparr>trigger := 0, at2 := Wake2\<rparr>)
     | Wake2 \<Rightarrow> Some (s\<lparr>at2 := Test2, at1 := if at1 s = Asleep1 then Wait1 else at1 s\<rparr>)
     | Done2 \<Rightarrow> None)"

text \<open>
  \<open>sleeping_exit\<close>: \<open>kthread_stop (thread_1)\<close> sets the flag, wakes the thread and returns
  when it is done; then the same for the second thread.
\<close>

definition sleeping_exit :: "sleeping \<Rightarrow> sleeping option" where
  "sleeping_exit s =
     (if \<not> stop1 s then Some (s\<lparr>stop1 := True, at1 := if at1 s = Asleep1 then Wait1 else at1 s\<rparr>)
      else if at1 s = Done1 \<and> \<not> stop2 s
      then Some (s\<lparr>stop2 := True, at2 := if at2 s = Asleep2 then Wait2 else at2 s\<rparr>)
      else None)"

inductive sleeping_step :: "sleeping \<Rightarrow> sleeping \<Rightarrow> bool" where
  step_1: "thread_skeleton_1 s = Some t \<Longrightarrow> sleeping_step s t"
| step_2: "thread_skeleton_2 s = Some t \<Longrightarrow> sleeping_step s t"
| step_exit: "sleeping_exit s = Some t \<Longrightarrow> sleeping_step s t"

inductive sleeping_reach :: "sleeping \<Rightarrow> bool" where
  reach_start: "sleeping_reach sleeping_threads"
| reach_step: "sleeping_reach s \<Longrightarrow> sleeping_step s t \<Longrightarrow> sleeping_reach t"

inductive_simps sleeping_step_iff: "sleeping_step s t"

text \<open>
  Until the exit begins: the trigger is set and taken in turn, a sleeper whose condition
  holds is about to be woken, and its waker is the other thread.
\<close>

definition sleeping_inv :: "sleeping \<Rightarrow> bool" where
  "sleeping_inv s \<longleftrightarrow> (trigger s = 0 \<or> trigger s = 1) \<and>
     (stop2 s \<longrightarrow> stop1 s \<and> at1 s = Done1) \<and> (at1 s = Done1 \<longrightarrow> stop1 s) \<and>
     (at2 s = Done2 \<longrightarrow> stop2 s) \<and> (at1 s = Asleep1 \<longrightarrow> \<not> stop1 s) \<and> (at2 s = Asleep2 \<longrightarrow> \<not> stop2 s) \<and>
     (at1 s = Asleep1 \<longrightarrow> trigger s = 1 \<or> at2 s = Wake2) \<and>
     (at2 s = Asleep2 \<longrightarrow> trigger s = 0 \<or> at1 s = Wake1) \<and>
     (at2 s = Reset2 \<longrightarrow> trigger s = 1 \<or> stop2 s) \<and>
     (\<not> stop1 s \<longrightarrow> set_times s = ping_times s + (if trigger s = 1 \<and> at2 s \<noteq> Reset2 then 1 else 0) \<and>
        (at1 s \<in> {Test1, Sleep1, Set1} \<longrightarrow> trigger s = 0))"

lemma sleeping_inv_start: "sleeping_inv sleeping_threads"
  by (simp add: sleeping_inv_def sleeping_threads_def)

lemma sleeping_inv_1: "thread_skeleton_1 s = Some t \<Longrightarrow> sleeping_inv s \<Longrightarrow> sleeping_inv t"
  unfolding thread_skeleton_1_def sleeping_inv_def
  by (cases "at1 s"; cases "at2 s"; cases "stop1 s"; clarsimp split: if_splits)

lemma sleeping_inv_2: "thread_skeleton_2 s = Some t \<Longrightarrow> sleeping_inv s \<Longrightarrow> sleeping_inv t"
  unfolding thread_skeleton_2_def sleeping_inv_def
  by (cases "at2 s"; cases "at1 s"; cases "stop1 s"; clarsimp split: if_splits)

lemma sleeping_inv_exit: "sleeping_exit s = Some t \<Longrightarrow> sleeping_inv s \<Longrightarrow> sleeping_inv t"
  unfolding sleeping_exit_def sleeping_inv_def
  by (cases "at2 s"; cases "at1 s"; cases "stop1 s"; clarsimp split: if_splits)

lemma sleeping_reach_inv: "sleeping_reach s \<Longrightarrow> sleeping_inv s"
  by (induction rule: sleeping_reach.induct)
    (auto simp: sleeping_inv_start sleeping_step_iff
      intro: sleeping_inv_1 sleeping_inv_2 sleeping_inv_exit)

text \<open>One of the threads can always go on, until both are done.\<close>

lemma sleeping_not_stuck:
  "sleeping_inv s \<Longrightarrow> thread_skeleton_1 s = None \<Longrightarrow> thread_skeleton_2 s = None \<Longrightarrow>
   stop1 s \<and> at1 s = Done1 \<and> (stop2 s \<longrightarrow> at2 s = Done2)"
  by (cases "at1 s"; cases "at2 s")
    (auto simp: thread_skeleton_1_def thread_skeleton_2_def sleeping_inv_def split: if_splits)

record sleepers = klog +
  thread_1 :: int
  thread_2 :: int
  sleep_trigger :: int

definition sleeping_init :: "kenv \<Rightarrow> ('z sleepers_scheme, unit) state" where
  "sleeping_init E = do {
     modify (\<lambda>s. s\<lparr>sleep_trigger := 0\<rparr>);
     t1 \<leftarrow> kapi E (Kthread_run ''Thread 1 - sleeping'');
     modify (\<lambda>s. s\<lparr>thread_1 := t1\<rparr>);
     if IS_ERR t1 then ret ()
     else do {
       t2 \<leftarrow> kapi E (Kthread_run ''Thread 2 - sleeping'');
       modify (\<lambda>s. s\<lparr>thread_2 := t2\<rparr>)
     }
   }"

lemma sleeping_init_resources:
  fixes s :: "'z sleepers_scheme" and E :: kenv
  assumes "res_state (klog s) = Some R"
  defines "t \<equiv> exec (sleeping_init E) s"
  shows "res_state (klog t) = Some (
      if IS_ERR (thread_1 t) then R
      else if IS_ERR (thread_2 t) then add_mset (R_thread (thread_1 t)) R
      else {#R_thread (thread_1 t), R_thread (thread_2 t)#} + R)"
  using assms(1) by (simp add: t_def sleeping_init_def run_simps)

subsection \<open>\<open>s02e08-interrupt.c\<close>\<close>

record gpio_nanopi =
  gn_id :: nat
  gn_name :: string

definition switchK1 :: gpio_nanopi where "switchK1 = \<lparr>gn_id = 0, gn_name = ''K1: GPIOA.0''\<rparr>"
definition switchK2 :: gpio_nanopi where "switchK2 = \<lparr>gn_id = 2, gn_name = ''K2: GPIOA.2''\<rparr>"
definition switchK3 :: gpio_nanopi where "switchK3 = \<lparr>gn_id = 3, gn_name = ''K3: GPIOA.3''\<rparr>"

text \<open>The printed line.\<close>

definition isrGPIO :: "gpio_nanopi \<Rightarrow> string" where
  "isrGPIO gpio = ''GPIO pressed: '' @ gn_name gpio @ [CHR 0x0A]"

text \<open>One of the three blocks of the code, which differ in their switch only.\<close>

definition switch_init :: "kenv \<Rightarrow> gpio_nanopi \<Rightarrow> ('z klog_scheme, unit) state" where
  "switch_init E sw = do {
     r \<leftarrow> kapi E (Gpio_request (gn_id sw) (gn_name sw));
     if r = 0 then do {
       irq \<leftarrow> kapi E (Gpio_to_irq (gn_id sw));
       void (kapi E (Request_irq irq (gn_name sw)))
     } else ret ()
   }"

definition switch_exit :: "kenv \<Rightarrow> gpio_nanopi \<Rightarrow> ('z klog_scheme, unit) state" where
  "switch_exit E sw = do {
     void (kapi E (Gpio_free (gn_id sw)));
     irq \<leftarrow> kapi E (Gpio_to_irq (gn_id sw));
     void (kapi E (Free_irq irq))
   }"

definition interrupt_init :: "kenv \<Rightarrow> ('z klog_scheme, unit) state" where
  "interrupt_init E = do {
     switch_init E switchK1;
     switch_init E switchK2;
     switch_init E switchK3
   }"

definition interrupt_exit :: "kenv \<Rightarrow> ('z klog_scheme, unit) state" where
  "interrupt_exit E = do {
     switch_exit E switchK1;
     switch_exit E switchK2;
     switch_exit E switchK3
   }"

text \<open>The module as it is configured: only \<open>INTERRUPT\<close> is defined.\<close>

definition skeleton_init_lab :: "kenv \<Rightarrow> ('z klog_scheme, int) state" where
  "skeleton_init_lab E = do { interrupt_init E; ret 0 }"

definition skeleton_exit_lab :: "kenv \<Rightarrow> ('z klog_scheme, unit) state" where
  "skeleton_exit_lab E = interrupt_exit E"

definition switch_owned :: "(nat \<Rightarrow> int) \<Rightarrow> gpio_nanopi \<Rightarrow> kres multiset" where
  "switch_owned irq sw = {#R_gpio (gn_id sw), R_irq (irq (gn_id sw))#}"

lemma switch_init_resources:
  assumes "res_state (klog s) = Some R"
    and "\<forall>h. kret E h (Gpio_to_irq (gn_id sw)) = irq (gn_id sw)"
    and "\<forall>h. kret E h (Gpio_request (gn_id sw) (gn_name sw)) = 0"
    and "\<forall>h. kret E h (Request_irq (irq (gn_id sw)) (gn_name sw)) = 0"
  shows "res_state (klog (exec (switch_init E sw) s)) = Some (switch_owned irq sw + R)"
  using assms by (simp add: switch_init_def switch_owned_def run_simps)

lemma switch_init_refused:
  assumes "res_state (klog s) = Some R"
    and "\<forall>h. kret E h (Gpio_request (gn_id sw) (gn_name sw)) \<noteq> 0"
  shows "res_state (klog (exec (switch_init E sw) s)) = Some R"
  using assms by (simp add: switch_init_def run_simps)

lemma switch_exit_resources:
  assumes "res_state (klog s) = Some (switch_owned irq sw + R)"
    and "\<forall>h. kret E h (Gpio_to_irq (gn_id sw)) = irq (gn_id sw)"
  shows "res_state (klog (exec (switch_exit E sw) s)) = Some R"
  using assms by (simp add: switch_exit_def switch_owned_def run_simps)

lemma switch_exit_misuse:
  "res_state (klog s) = Some R \<Longrightarrow> R_gpio (gn_id sw) \<notin># R \<Longrightarrow>
   res_state (klog (exec (switch_exit E sw) s)) = None"
  by (simp add: switch_exit_def run_simps drop_res_def)

lemma switch_exit_stuck:
  "res_state (klog s) = None \<Longrightarrow> res_state (klog (exec (switch_exit E sw) s)) = None"
  by (simp add: switch_exit_def run_simps)

text \<open>Loaded and unloaded, the module has given everything back, when nothing is refused.\<close>

lemma lab_init_exit:
  assumes "res_state (klog s) = Some {#}"
    and "\<forall>h g. kret E h (Gpio_to_irq g) = irq g"
    and "\<forall>h g n. kret E h (Gpio_request g n) = 0"
    and "\<forall>h i n. kret E h (Request_irq i n) = 0"
  shows "res_state (klog (exec (skeleton_init_lab E) s)) =
      Some (switch_owned irq switchK3 + (switch_owned irq switchK2 + switch_owned irq switchK1)) \<and>
    res_state (klog (exec (do { skeleton_init_lab E; skeleton_exit_lab E }) s)) = Some {#}"
proof -
  define s1 where "s1 = exec (switch_init E switchK1) s"
  define s2 where "s2 = exec (switch_init E switchK2) s1"
  define s3 where "s3 = exec (switch_init E switchK3) s2"
  have 1: "res_state (klog s1) = Some (switch_owned irq switchK1 + {#})"
    unfolding s1_def by (rule switch_init_resources) (use assms in simp_all)
  have 2: "res_state (klog s2) = Some (switch_owned irq switchK2 + (switch_owned irq switchK1 + {#}))"
    unfolding s2_def by (rule switch_init_resources [OF 1]) (use assms in simp_all)
  have 3: "res_state (klog s3) = Some (switch_owned irq switchK3 + (switch_owned irq switchK2 +
      (switch_owned irq switchK1 + {#})))"
    unfolding s3_def by (rule switch_init_resources [OF 2]) (use assms in simp_all)
  have 4: "res_state (klog s3) = Some (switch_owned irq switchK1 + (switch_owned irq switchK2 +
      (switch_owned irq switchK3 + {#})))"
    using 3 by (simp add: ac_simps)
  note irq = assms(2) [THEN spec2]
  define t1 where "t1 = exec (switch_exit E switchK1) s3"
  define t2 where "t2 = exec (switch_exit E switchK2) t1"
  have 5: "res_state (klog t1) = Some (switch_owned irq switchK2 + (switch_owned irq switchK3 + {#}))"
    unfolding t1_def by (rule switch_exit_resources [OF 4]) (use assms in simp)
  have 6: "res_state (klog t2) = Some (switch_owned irq switchK3 + {#})"
    unfolding t2_def by (rule switch_exit_resources [OF 5]) (use assms in simp)
  have 7: "res_state (klog (exec (switch_exit E switchK3) t2)) = Some {#}"
    by (rule switch_exit_resources [OF 6]) (use assms in simp)
  have i: "exec (skeleton_init_lab E) s = s3"
    by (simp add: skeleton_init_lab_def interrupt_init_def exec_bind s1_def s2_def s3_def)
  have e: "exec (do { skeleton_init_lab E; skeleton_exit_lab E }) s = exec (switch_exit E switchK3) t2"
    by (simp add: skeleton_exit_lab_def interrupt_exit_def exec_bind i t1_def t2_def)
  show ?thesis unfolding i e using 3 7 by simp
qed

text \<open>A switch whose pin is refused is given back all the same.\<close>

lemma lab_exit_misuse:
  assumes "res_state (klog s) = Some R" and "R_gpio (gn_id switchK1) \<notin># R"
  shows "res_state (klog (exec (skeleton_exit_lab E) s)) = None"
  using switch_exit_misuse [OF assms]
  by (simp add: skeleton_exit_lab_def interrupt_exit_def exec_bind switch_exit_stuck)

end
