(* ===== verification/CharDriver.thy ===== *)
theory CharDriver
  imports KernelApi CFormat
begin

section \<open>The character device: \<open>src/02-driver/character-oriented\<close> and its user\<close>

text \<open>
  The driver of the course module (one buffer of 300 bytes for each minor number), the
  program of exercise 4 that writes to the device and reads it back, and the \<open>val\<close>
  attribute of \<open>src/02-driver/sysfs\<close>. A locale states what the program relies on; both the
  driver of the module and the one of the solutions (\<open>CharSolution\<close>) interpret it.
  \<open>size_t\<close>, \<open>ssize_t\<close> and \<open>loff_t\<close> are words of 64 bits. Lemmas: no access leaves the
  buffer, what a write stores a read returns, what loading and unloading own.
\<close>


definition EFAULT :: int where "EFAULT = 14"
definition ENOSPC :: int where "ENOSPC = 28"
definition EIO :: int where "EIO = 5"

subsection \<open>Memory\<close>

text \<open>
  \<open>copy_to_user\<close> and \<open>copy_from_user\<close> are parameters: how many of \<open>n\<close> bytes they leave
  uncopied, and, for the second one, which bytes they place at the destination.
\<close>

record uaccess =
  copy_to_user :: "u64 \<Rightarrow> u64"
  copy_from_user :: "u64 \<Rightarrow> string \<Rightarrow> u64 \<times> string"

text \<open>An access to a buffer of the kernel; \<open>None\<close> when it would leave the buffer.\<close>

definition peek :: "string \<Rightarrow> int \<Rightarrow> int \<Rightarrow> string option" where
  "peek b i n = (if 0 \<le> i \<and> 0 \<le> n \<and> i + n \<le> int (length b)
     then Some (take (nat n) (drop (nat i) b)) else None)"

definition poke :: "string \<Rightarrow> int \<Rightarrow> string \<Rightarrow> string option" where
  "poke b i d = (if d = [] then Some b
     else if 0 \<le> i \<and> i + int (length d) \<le> int (length b)
     then Some (take (nat i) b @ d @ drop (nat i + length d) b) else None)"

lemma length_poke: "poke b i d = Some c \<Longrightarrow> length c = length b"
  by (auto simp: poke_def split: if_splits)

lemma poke_before:
  "poke b i d = Some c \<Longrightarrow> 0 \<le> i \<Longrightarrow> take (nat i) c = take (nat i) b"
  by (auto simp: poke_def split: if_splits)

subsection \<open>The driver\<close>

definition BUFFER_SIZE :: int where "BUFFER_SIZE = 300"

text \<open>An open file: the buffer behind \<open>private_data\<close> and the position \<open>*off\<close>.\<close>

record fio =
  private_data :: string
  f_off :: s64

definition skeleton_open :: "i32 \<Rightarrow> string list \<Rightarrow> u32 \<Rightarrow> int + fio" where
  "skeleton_open instances buffers iminor =
     (if instances \<le> iminor then Inl (- EFAULT)
      else Inr \<lparr>private_data = buffers ! unat iminor, f_off = 0\<rparr>)"

text \<open>The returned count, the bytes that the user receives, the file afterwards.\<close>

definition skeleton_read :: "uaccess \<Rightarrow> u64 \<Rightarrow> fio \<Rightarrow> (s64 \<times> string \<times> fio) option" where
  "skeleton_read A n f =
     (if BUFFER_SIZE \<le> sint (f_off f) then Some (0, [], f)
      else let len = min (word_of_int BUFFER_SIZE - f_off f) n in
        case peek (private_data f) (sint (f_off f)) (uint len) of
          None \<Rightarrow> None
        | Some d \<Rightarrow> let left = copy_to_user A len in
            if left \<noteq> 0 then Some (word_of_int (- EFAULT), take (unat len - unat left) d, f)
            else Some (len, d, f\<lparr>f_off := f_off f + len\<rparr>))"

definition skeleton_write :: "uaccess \<Rightarrow> u64 \<Rightarrow> string \<Rightarrow> fio \<Rightarrow> (s64 \<times> fio) option" where
  "skeleton_write A n d f =
     (if BUFFER_SIZE \<le> sint (f_off f) then Some (word_of_int (- ENOSPC), f)
      else let len = min (word_of_int BUFFER_SIZE - f_off f) n;
               (left, placed) = copy_from_user A len d in
        case poke (private_data f) (sint (f_off f)) placed of
          None \<Rightarrow> None
        | Some b \<Rightarrow>
            if left \<noteq> 0 then Some (word_of_int (- EFAULT), f\<lparr>private_data := b\<rparr>)
            else Some (len, \<lparr>private_data = b, f_off = f_off f + len\<rparr>))"

subsection \<open>What a user relies on\<close>

text \<open>The position lies in the buffer.\<close>

definition fio_ok :: "int \<Rightarrow> fio \<Rightarrow> bool" where
  "fio_ok cap f \<longleftrightarrow> int (length (private_data f)) = cap \<and> 0 \<le> sint (f_off f) \<and> sint (f_off f) \<le> cap"

lemma room_word:
  assumes "0 \<le> sint (w :: 64 word)" and "sint w \<le> c" and "c < 2 ^ 31"
  shows "uint (word_of_int c - w) = c - sint w"
proof -
  have "word_of_int c - w = word_of_int c - word_of_int (sint w)" by simp
  also have "\<dots> = word_of_int (c - sint w)" by (simp only: wi_hom_sub)
  finally have eq: "word_of_int c - w = word_of_int (c - sint w)" .
  show ?thesis unfolding eq by (rule uint_small64) (use assms in simp_all)
qed

lemma moved_word:
  assumes "0 \<le> sint (w :: 64 word)" and "sint w + uint n \<le> c" and "c < 2 ^ 31"
  shows "sint (w + n) = sint w + uint n"
proof -
  have "w + n = word_of_int (sint w) + word_of_int (uint n)" by simp
  also have "\<dots> = word_of_int (sint w + uint n)" by (simp only: wi_hom_add)
  finally have eq: "w + n = word_of_int (sint w + uint n)" .
  have small: "sint (word_of_int k :: 64 word) = k" if "0 \<le> k" "k \<le> c" for k
    using that assms(3) by (intro sint_small64) simp_all
  have "sint (word_of_int (sint w + uint n) :: 64 word) = sint w + uint n"
    by (rule small) (use assms in simp_all)
  then show ?thesis unfolding eq .
qed

lemma uint_min_word: "uint (min (a :: 'a::len word) b) = min (uint a) (uint b)"
  by (simp add: min_def word_le_def)

text \<open>The user's memory is there: documented behaviour of the two copies.\<close>

definition uaccess_ok :: "uaccess \<Rightarrow> bool" where
  "uaccess_ok A \<longleftrightarrow> (\<forall>n. uint n < 2 ^ 31 \<longrightarrow> copy_to_user A n = 0) \<and>
     (\<forall>n d. uint n < 2 ^ 31 \<longrightarrow> unat n \<le> length d \<longrightarrow> copy_from_user A n d = (0, take (unat n) d))"

locale char_device =
  fixes cap :: int
    and dread :: "uaccess \<Rightarrow> u64 \<Rightarrow> fio \<Rightarrow> (s64 \<times> string \<times> fio) option"
    and dwrite :: "uaccess \<Rightarrow> u64 \<Rightarrow> string \<Rightarrow> fio \<Rightarrow> (s64 \<times> fio) option"
  assumes cap_range: "0 < cap" "cap < 2 ^ 31"
    and read_law: "fio_ok cap f \<Longrightarrow> uaccess_ok A \<Longrightarrow> sint (f_off f) + uint n < cap \<Longrightarrow>
      dread A n f = Some (n, take (unat n) (drop (nat (sint (f_off f))) (private_data f)),
        f\<lparr>f_off := f_off f + n\<rparr>)"
    and write_law: "fio_ok cap f \<Longrightarrow> uaccess_ok A \<Longrightarrow> sint (f_off f) + uint n < cap \<Longrightarrow>
      unat n = length d \<Longrightarrow> 0 < uint n \<Longrightarrow>
      \<exists>b. dwrite A n d f = Some (n, \<lparr>private_data = b, f_off = f_off f + n\<rparr>) \<and>
        length b = length (private_data f) \<and>
        take (nat (sint (f_off f)) + length d) b = take (nat (sint (f_off f))) (private_data f) @ d"
begin

lemma written_then_read:
  assumes ok: "fio_ok cap f" "uaccess_ok A" and room: "sint (f_off f) + uint n < cap"
    and n: "unat n = length d" "0 < uint n"
  obtains g where "dwrite A n d f = Some (n, g)"
    and "dread A n (g\<lparr>f_off := f_off f\<rparr>) = Some (n, d, g)"
proof -
  from write_law [OF ok room n] obtain b
    where b: "dwrite A n d f = Some (n, \<lparr>private_data = b, f_off = f_off f + n\<rparr>)"
      "length b = length (private_data f)"
      "take (nat (sint (f_off f)) + length d) b = take (nat (sint (f_off f))) (private_data f) @ d"
    by blast
  let ?g = "\<lparr>private_data = b, f_off = f_off f + n\<rparr>"
  have ok2: "fio_ok cap (?g\<lparr>f_off := f_off f\<rparr>)" using ok(1) b(2) by (simp add: fio_ok_def)
  have "nat (sint (f_off f)) \<le> length (private_data f)" using ok(1) by (auto simp: fio_ok_def)
  then have "drop (nat (sint (f_off f))) (take (nat (sint (f_off f)) + length d) b) = d"
    unfolding b(3) by simp
  then have "take (unat n) (drop (nat (sint (f_off f))) b) = d"
    by (simp add: drop_take n(1))
  then have "dread A n (?g\<lparr>f_off := f_off f\<rparr>) = Some (n, d, ?g)"
    using read_law [OF ok2 ok(2)] room by simp
  with b(1) show ?thesis by (rule that)
qed

end

subsection \<open>\<open>exercice/ex4-character-oriented.c\<close>\<close>

definition DATA_LENGTH :: nat where "DATA_LENGTH = 70"

definition chocolate :: string where
  "chocolate = ''I've got chocolate stuck to the roof of my mouth, so I can't speak''"

text \<open>
  \<open>fd1\<close> and \<open>fd2\<close> are the answers of the two \<open>open\<close> calls, \<open>after\<close> the bytes that lie
  behind the literal, of which the call to \<open>write\<close> reads two. The result: the exit code,
  the printed content, the buffer of the device.
\<close>

definition ex_character_oriented ::
  "(uaccess \<Rightarrow> u64 \<Rightarrow> fio \<Rightarrow> (s64 \<times> string \<times> fio) option) \<Rightarrow>
   (uaccess \<Rightarrow> u64 \<Rightarrow> string \<Rightarrow> fio \<Rightarrow> (s64 \<times> fio) option) \<Rightarrow>
   uaccess \<Rightarrow> int \<Rightarrow> int \<Rightarrow> string \<Rightarrow> string \<Rightarrow> (int \<times> string \<times> string) option" where
  "ex_character_oriented dread dwrite A fd1 fd2 after buf =
     (if fd1 < 0 then Some (1, [], buf)
      else case dwrite A (word_of_nat DATA_LENGTH)
          (take DATA_LENGTH (chocolate @ [CHR 0x00, CHR 0x00] @ after))
          \<lparr>private_data = buf, f_off = 0\<rparr> of
        None \<Rightarrow> None
      | Some (r, f) \<Rightarrow>
          if sint (ucast r :: i32) < 0 then Some (1, [], private_data f)
          else if fd2 < 0 then Some (0, [], private_data f)
          else case dread A (word_of_nat DATA_LENGTH) (f\<lparr>f_off := 0\<rparr>) of
              None \<Rightarrow> None
            | Some (r2, d, g) \<Rightarrow> Some (0, takeWhile (\<lambda>c. c \<noteq> CHR 0x00) d, private_data g))"

context char_device begin

lemma exercise_reads_back:
  assumes "int (length buf) = cap" and "uaccess_ok A" and "int DATA_LENGTH < cap"
    and "0 \<le> fd1" and "0 \<le> fd2" and "2 \<le> length after"
  shows "\<exists>buf'. ex_character_oriented dread dwrite A fd1 fd2 after buf = Some (0, chocolate, buf')"
proof -
  let ?d = "take DATA_LENGTH (chocolate @ [CHR 0x00, CHR 0x00] @ after)"
  let ?f = "\<lparr>private_data = buf, f_off = 0 :: s64\<rparr>"
  have len: "length chocolate = 66" by (simp add: chocolate_def)
  have 1: "fio_ok cap ?f" using assms(1) cap_range by (simp add: fio_ok_def)
  have 2: "sint (f_off ?f) + uint (word_of_nat DATA_LENGTH :: u64) < cap"
    using assms(3) by (simp add: DATA_LENGTH_def)
  have 3: "unat (word_of_nat DATA_LENGTH :: u64) = length ?d"
    using assms(6) len by (simp add: DATA_LENGTH_def)
  have 4: "0 < uint (word_of_nat DATA_LENGTH :: u64)" by (simp add: DATA_LENGTH_def)
  obtain g where g: "dwrite A (word_of_nat DATA_LENGTH) ?d ?f = Some (word_of_nat DATA_LENGTH, g)"
    "dread A (word_of_nat DATA_LENGTH) (g\<lparr>f_off := f_off ?f\<rparr>) = Some (word_of_nat DATA_LENGTH, ?d, g)"
    by (rule written_then_read [OF 1 assms(2) 2 3 4])
  have "takeWhile (\<lambda>c. c \<noteq> CHR 0x00) ?d = chocolate"
  proof -
    have "?d = chocolate @ CHR 0x00 # CHR 0x00 # take 2 after"
      using len by (simp add: DATA_LENGTH_def)
    moreover have "\<forall>c \<in> set chocolate. c \<noteq> CHR 0x00" by (simp add: chocolate_def)
    ultimately show ?thesis by simp
  qed
  with g show ?thesis
    using assms(4,5) by (simp add: ex_character_oriented_def DATA_LENGTH_def)
qed

end

subsection \<open>The driver keeps to its buffer\<close>

lemma skeleton_read_exact:
  assumes "fio_ok BUFFER_SIZE f"
  shows "skeleton_read A n f =
    (if BUFFER_SIZE \<le> sint (f_off f) then Some (0, [], f)
     else let len = min (word_of_int BUFFER_SIZE - f_off f) n;
              d = take (unat len) (drop (nat (sint (f_off f))) (private_data f));
              left = copy_to_user A len in
       if left \<noteq> 0 then Some (word_of_int (- EFAULT), take (unat len - unat left) d, f)
       else Some (len, d, f\<lparr>f_off := f_off f + len\<rparr>))"
proof (cases "BUFFER_SIZE \<le> sint (f_off f)")
  case False
  let ?len = "min (word_of_int BUFFER_SIZE - f_off f) n"
  have "uint ?len \<le> BUFFER_SIZE - sint (f_off f)"
    using assms room_word [of "f_off f" BUFFER_SIZE] by (simp add: fio_ok_def BUFFER_SIZE_def uint_min_word)
  then have "peek (private_data f) (sint (f_off f)) (uint ?len) =
      Some (take (unat ?len) (drop (nat (sint (f_off f))) (private_data f)))"
    using assms by (simp add: peek_def fio_ok_def)
  with False show ?thesis by (simp add: skeleton_read_def Let_def)
qed (simp add: skeleton_read_def)

lemma skeleton_write_exact:
  assumes "fio_ok BUFFER_SIZE f" and "sint (f_off f) < BUFFER_SIZE"
    and "copy_from_user A (min (word_of_int BUFFER_SIZE - f_off f) n) d = (left, placed)"
    and "int (length placed) \<le> BUFFER_SIZE - sint (f_off f)"
  obtains b where "poke (private_data f) (sint (f_off f)) placed = Some b"
    and "skeleton_write A n d f = Some (if left \<noteq> 0
      then (word_of_int (- EFAULT), f\<lparr>private_data := b\<rparr>)
      else (min (word_of_int BUFFER_SIZE - f_off f) n,
        \<lparr>private_data = b, f_off = f_off f + min (word_of_int BUFFER_SIZE - f_off f) n\<rparr>))"
proof -
  from assms have "\<exists>b. poke (private_data f) (sint (f_off f)) placed = Some b"
    by (simp add: poke_def fio_ok_def)
  then obtain b where b: "poke (private_data f) (sint (f_off f)) placed = Some b" by blast
  show ?thesis
    by (rule that [OF b]) (use assms b in \<open>simp add: skeleton_write_def Let_def\<close>)
qed

interpretation course: char_device BUFFER_SIZE skeleton_read skeleton_write
proof unfold_locales
  show "0 < BUFFER_SIZE" "BUFFER_SIZE < 2 ^ 31" by (simp_all add: BUFFER_SIZE_def)
next
  fix f A and n :: u64
  assume f: "fio_ok BUFFER_SIZE f" and A: "uaccess_ok A" and n: "sint (f_off f) + uint n < BUFFER_SIZE"
  have len: "min (word_of_int BUFFER_SIZE - f_off f) n = n"
    using f n room_word [of "f_off f" BUFFER_SIZE]
    by (intro min_absorb2) (simp add: word_le_def fio_ok_def BUFFER_SIZE_def)
  have small: "uint n < 2 ^ 31" using f n by (simp add: fio_ok_def BUFFER_SIZE_def)
  have off: "\<not> BUFFER_SIZE \<le> sint (f_off f)" using n uint_ge_0 [of n] by linarith
  show "skeleton_read A n f = Some (n, take (unat n) (drop (nat (sint (f_off f))) (private_data f)),
        f\<lparr>f_off := f_off f + n\<rparr>)"
    using off A small by (simp add: skeleton_read_exact [OF f] len uaccess_ok_def Let_def)
  fix d :: string
  assume d: "unat n = length d" "0 < uint n"
  have 1: "copy_from_user A (min (word_of_int BUFFER_SIZE - f_off f) n) d = (0, d)"
    using A small d by (simp add: len uaccess_ok_def)
  have 2: "int (length d) \<le> BUFFER_SIZE - sint (f_off f)"
    using n d(1) by (metis add_le_cancel_left diff_add_cancel le_diff_eq less_imp_le add.commute uint_nat)
  obtain b where b: "poke (private_data f) (sint (f_off f)) d = Some b"
    "skeleton_write A n d f = Some (if (0 :: u64) \<noteq> 0 then (word_of_int (- EFAULT), f\<lparr>private_data := b\<rparr>)
      else (min (word_of_int BUFFER_SIZE - f_off f) n,
        \<lparr>private_data = b, f_off = f_off f + min (word_of_int BUFFER_SIZE - f_off f) n\<rparr>))"
    using off by (elim skeleton_write_exact [OF f _ 1 2, rotated]) simp
  have "d \<noteq> []" using d by (auto simp: unat_eq_zero)
  then have "take (nat (sint (f_off f)) + length d) b = take (nat (sint (f_off f))) (private_data f) @ d"
    using b(1) f by (auto simp: poke_def fio_ok_def split: if_splits)
  with b show "\<exists>b. skeleton_write A n d f = Some (n, \<lparr>private_data = b, f_off = f_off f + n\<rparr>) \<and>
      length b = length (private_data f) \<and>
      take (nat (sint (f_off f)) + length d) b = take (nat (sint (f_off f))) (private_data f) @ d"
    by (auto simp: len dest: length_poke)
qed

subsection \<open>Loading and unloading\<close>

record chardev = klog +
  dev_buffers :: int  \<comment> \<open>\<open>devs.buffers\<close>, the array\<close>
  dev_buffer :: "int list"  \<comment> \<open>\<open>devs.buffers[i]\<close>\<close>

text \<open>
  \<open>kzalloc (n)\<close> is one zeroed block of \<open>n\<close> bytes. The size \<open>sz\<close> of a buffer is
  300 in the driver of the module and 10000 in the one of the solutions.
\<close>

fun alloc_buffers :: "kenv \<Rightarrow> nat \<Rightarrow> nat \<Rightarrow> ('z chardev_scheme, unit) state" where
  "alloc_buffers E sz 0 = ret ()"
| "alloc_buffers E sz (Suc n) = do {
     p \<leftarrow> kapi E (Kcalloc 1 sz);
     a \<leftarrow> gets dev_buffers;
     only_if (a = 0) (void (kapi E (Null_call ''devs.buffers'')));
     modify (\<lambda>s. s\<lparr>dev_buffer := dev_buffer s @ [p]\<rparr>);
     alloc_buffers E sz n
   }"

definition chardev_load :: "kenv \<Rightarrow> nat \<Rightarrow> i32 \<Rightarrow> ('z chardev_scheme, int) state" where
  "chardev_load E sz instances = do {
     r \<leftarrow> kapi E (Alloc_chrdev_region (unat instances) ''mymodule'');
     if r \<noteq> 0 then ret r
     else do {
       r \<leftarrow> kapi E (Cdev_add (unat instances));
       if r \<noteq> 0 then ret r
       else do {
         a \<leftarrow> kapi E (Kcalloc 1 (unat (8 * scast instances :: u64)));
         modify (\<lambda>s. s\<lparr>dev_buffers := a\<rparr>);
         alloc_buffers E sz (nat (sint instances));
         ret r
       }
     }
   }"

definition skeleton_init :: "kenv \<Rightarrow> i32 \<Rightarrow> ('z chardev_scheme, int) state" where
  "skeleton_init E instances = chardev_load E (nat BUFFER_SIZE) instances"

fun free_buffers :: "kenv \<Rightarrow> int list \<Rightarrow> ('z chardev_scheme, unit) state" where
  "free_buffers E [] = ret ()"
| "free_buffers E (p # ps) = do { void (kapi E (Kfree p)); free_buffers E ps }"

definition skeleton_exit :: "kenv \<Rightarrow> i32 \<Rightarrow> ('z chardev_scheme, unit) state" where
  "skeleton_exit E instances = do {
     void (kapi E Cdev_del);
     void (kapi E (Unregister_chrdev_region (unat instances)));
     ps \<leftarrow> gets dev_buffer;
     free_buffers E (take (nat (sint instances)) ps);
     a \<leftarrow> gets dev_buffers;
     void (kapi E (Kfree a))
   }"

definition mem_owned :: "int list \<Rightarrow> kres multiset" where
  "mem_owned ps = mset (map R_mem (filter (\<lambda>p. p \<noteq> 0) ps))"

lemma mem_owned_simps [simp]:
  "mem_owned [] = {#}"
  "mem_owned (p # ps) = (if p = 0 then {#} else {#R_mem p#}) + mem_owned ps"
  "mem_owned (ps @ qs) = mem_owned ps + mem_owned qs"
  by (simp_all add: mem_owned_def)

lemma alloc_buffers_resources:
  fixes s :: "'z chardev_scheme" and E :: kenv and sz n :: nat
  assumes "res_state (klog s) = Some (R + mem_owned (dev_buffer s))" and "dev_buffers s \<noteq> 0"
  defines "t \<equiv> exec (alloc_buffers E sz n) s"
  shows "res_state (klog t) = Some (R + mem_owned (dev_buffer t)) \<and> dev_buffers t = dev_buffers s \<and>
    length (dev_buffer t) = length (dev_buffer s) + n"
  using assms(1,2) unfolding t_def
proof (induction n arbitrary: s)
  case (Suc n)
  let ?u = "exec (do { p \<leftarrow> kapi E (Kcalloc 1 sz);
      modify (\<lambda>s. s\<lparr>dev_buffer := dev_buffer s @ [p]\<rparr>) }) s"
  have u: "res_state (klog ?u) = Some (R + mem_owned (dev_buffer ?u))" "dev_buffers ?u = dev_buffers s"
    "length (dev_buffer ?u) = Suc (length (dev_buffer s))"
    using Suc.prems by (simp_all add: run_simps)
  with Suc.IH [of ?u] Suc.prems show ?case by (simp add: run_simps)
qed simp

lemma free_buffers_resources:
  "res_state (klog s) = Some (mem_owned ps + R) \<Longrightarrow>
   res_state (klog (exec (free_buffers E ps) s)) = Some R \<and>
   dev_buffers (exec (free_buffers E ps) s) = dev_buffers s"
  by (induction ps arbitrary: s) (simp_all add: run_simps)

text \<open>Everything is given back by the exit; a device that is not added keeps its region.\<close>

lemma chardev_init_exit:
  fixes s :: "'z chardev_scheme" and E :: kenv and sz :: nat and instances :: i32
  assumes "res_state (klog s) = Some {#}" and "dev_buffer s = []"
    and "\<forall>h n. kret E h (Kcalloc 1 n) \<noteq> 0"
  defines "t \<equiv> exec (chardev_load E sz instances) s"
  shows "result (chardev_load E sz instances) s = 0 \<Longrightarrow>
      res_state (klog (exec (skeleton_exit E instances) t)) = Some {#}"
    and "result (chardev_load E sz instances) s \<noteq> 0 \<Longrightarrow>
      res_state (klog t) =
        Some (if kret E (klog s) (Alloc_chrdev_region (unat instances) ''mymodule'') = 0 then {#R_chrdev#} else {#})"
proof -
  define r1 where "r1 = kret E (klog s) (Alloc_chrdev_region (unat instances) ''mymodule'')"
  define s1 where "s1 = exec (kapi E (Alloc_chrdev_region (unat instances) ''mymodule'')) s"
  define r2 where "r2 = kret E (klog s1) (Cdev_add (unat instances))"
  define s2 where "s2 = exec (kapi E (Cdev_add (unat instances))) s1"
  define a where "a = kret E (klog s2) (Kcalloc 1 (unat (8 * scast instances :: u64)))"
  define s3 where "s3 = (exec (kapi E (Kcalloc 1 (unat (8 * scast instances :: u64)))) s2)\<lparr>dev_buffers := a\<rparr>"
  note fold = r1_def [symmetric] s1_def [symmetric] r2_def [symmetric] s2_def [symmetric]
    a_def [symmetric] s3_def [symmetric]
  have ex: "t = (if r1 \<noteq> 0 then s1 else if r2 \<noteq> 0 then s2 else exec (alloc_buffers E sz (nat (sint instances))) s3)"
    "result (chardev_load E sz instances) s = (if r1 \<noteq> 0 then r1 else r2)"
    by (simp_all add: t_def chardev_load_def result_bind exec_bind result_if exec_if fold
      del: exec_kapi One_nat_def)
  have 1: "res_state (klog s1) = Some (if r1 = 0 then {#R_chrdev#} else {#})"
    using assms(1) by (simp add: s1_def r1_def)
  have 2: "res_state (klog s2) = Some ((if r2 = 0 then {#R_cdev#} else {#}) + (if r1 = 0 then {#R_chrdev#} else {#}))"
    using 1 by (simp add: s2_def r2_def)
  show "result (chardev_load E sz instances) s \<noteq> 0 \<Longrightarrow> res_state (klog t) =
      Some (if kret E (klog s) (Alloc_chrdev_region (unat instances) ''mymodule'') = 0 then {#R_chrdev#} else {#})"
    using 1 2 ex by (auto simp: r1_def [symmetric] split: if_splits)
  assume "result (chardev_load E sz instances) s = 0"
  with ex(2) have r: "r1 = 0" "r2 = 0" by (simp_all split: if_splits)
  have "dev_buffer s3 = []" "dev_buffers s3 = a" "a \<noteq> 0"
    using assms(2,3) by (simp_all add: s3_def s2_def s1_def a_def)
  moreover have "res_state (klog s3) = Some ({#R_cdev, R_chrdev, R_mem a#} + mem_owned (dev_buffer s3))"
    using 2 r calculation by (simp add: s3_def a_def add_mset_commute)
  ultimately have t: "res_state (klog t) = Some ({#R_cdev, R_chrdev, R_mem a#} + mem_owned (dev_buffer t))"
    "dev_buffers t = a" "length (dev_buffer t) = nat (sint instances)"
    using alloc_buffers_resources [of s3 "{#R_cdev, R_chrdev, R_mem a#}" E sz "nat (sint instances)"] ex(1) r
    by simp_all
  let ?u = "exec (do { kapi E Cdev_del; kapi E (Unregister_chrdev_region (unat instances)) }) t"
  have u: "res_state (klog ?u) = Some (mem_owned (dev_buffer ?u) + {#R_mem a#})" "dev_buffers ?u = a"
    "length (dev_buffer ?u) = nat (sint instances)"
    using t by (simp_all add: run_simps)
  with free_buffers_resources [OF u(1), of E] \<open>a \<noteq> 0\<close>
  show "res_state (klog (exec (skeleton_exit E instances) t)) = Some {#}"
    by (simp add: skeleton_exit_def run_simps)
qed

end
