(* ===== verification/LabProperties.thy ===== *)
theory LabProperties
  imports LedControl ModuleLabs CharDriver
begin

section \<open>Properties of the laboratory programs\<close>

text \<open>
  The main theorems about \<open>src/01-skeleton\<close>, \<open>src/02-driver\<close> and \<open>src/03-led-controller\<close>,
  each over the lemmas of its component, with the witnesses that apply them.
\<close>

subsection \<open>The LED controller\<close>

text \<open>
  C24: as long as the 64-bit period cannot overflow, whatever events the buttons deliver, the flash period
  stays a positive multiple of 200 ms that grows by at most 200 ms per event; the LED is to be lit for exactly 2 % of it, and
  the two parts add up to it. Below \<open>2 ^ 31\<close> ms both parts survive the conversion to the \<open>int\<close> of the delay and
  neither arms the timer with zero, which would disarm it. (From there on they may be truncated: at
  \<open>200 * 2 ^ 30\<close> ms the timer is disarmed and the flashing stops.)
\<close>

theorem flash_period_invariant:
  fixes d :: "'w ledctl" and U :: "ucall \<Rightarrow> ('w, int) state" and es :: "int option list"
  assumes "200 \<le> sint (flash_period_ms d)" "200 dvd sint (flash_period_ms d)"
  defines "highest \<equiv> max 1000 (sint (flash_period_ms d)) + 200 * int (length es)"
    and "p \<equiv> flash_period_ms (exec (btn_thread U es) d)"
  assumes "highest < 2 ^ 63"
  shows "200 \<le> sint p \<and> 200 dvd sint p \<and> sint p \<le> highest \<and>
    100 * sint (time_on p) = 2 * sint p \<and> sint (time_on p) + sint (time_off p) = sint p \<and>
    (sint p < 2 ^ 31 \<longrightarrow> sint (delay_of (time_on p)) = sint (time_on p) \<and> sint (delay_of (time_off p)) = sint (time_off p) \<and>
      armed_value (time_on p) \<noteq> (0, 0) \<and> armed_value (time_off p) \<noteq> (0, 0)) \<and>
    armed_value (time_on (200 * 2 ^ 30)) = (0, 0)"
proof -
  have "flash_below (max 1000 (sint (flash_period_ms d))) d"
    using assms(1,2) by (simp add: flash_below_def flash_inv_def)
  from btn_thread_below [OF this] assms(5) have b: "flash_below highest (exec (btn_thread U es) d)"
    unfolding highest_def .
  then have inv: "flash_inv p" and le: "sint p \<le> highest" by (simp_all add: flash_below_def p_def)
  then have P: "200 \<le> sint p" "200 dvd sint p" by (simp_all add: flash_inv_def)
  note parts = time_parts [OF inv]
  have pos: "0 < sint p div 50" "sint p div 50 < sint p" using parts(3) P(1) by linarith+
  have small: "sint (delay_of t) = sint t \<and> armed_value t \<noteq> (0, 0)" if "0 < sint t" "sint t < 2 ^ 31" for t
    using armed_value_exact [of t] delay_of_exact [of t] that by auto
  have "sint (delay_of (time_on p)) = sint (time_on p) \<and> sint (delay_of (time_off p)) = sint (time_off p) \<and>
      armed_value (time_on p) \<noteq> (0, 0) \<and> armed_value (time_off p) \<noteq> (0, 0)" if "sint p < 2 ^ 31"
    using small [of "time_on p"] small [of "time_off p"] pos that by (simp add: parts)
  then show ?thesis using P le parts delay_truncated by (simp add: parts)
qed

definition demo_led_uenv :: uenv where
  "demo_led_uenv = \<lparr>uret = (\<lambda>_ c. case c of Pread _ _ \<Rightarrow> 49 | Read _ n \<Rightarrow> int n | Open _ \<Rightarrow> 5 | _ \<Rightarrow> 0)\<rparr>"

definition demo_ledctl :: "ulog ledctl" where
  "demo_ledctl = \<lparr>flash_period_ms = DEFAULT_TIME_MS, lc_timer_fd = 3, lc_epoll_fd = 4, isLedOn = False,
     led_fd = 5, buf0 = 0, cworld = \<lparr>ulog = []\<rparr>\<rparr>"

lemma demo_led_facts:
  "timer_env demo_led_uenv" "flash_inv (flash_period_ms demo_ledctl)" "sint (flash_period_ms demo_ledctl) < 2 ^ 31"
  by (simp_all add: timer_env_def demo_led_uenv_def demo_ledctl_def flash_inv_def DEFAULT_TIME_MS_def)

theorem flash_period_invariant_witness:
  "200 \<le> sint (flash_period_ms (exec (btn_thread (uapi demo_led_uenv) [Some 5, None]) demo_ledctl))"
  using flash_period_invariant [of demo_ledctl "[Some 5, None]" "uapi demo_led_uenv"] demo_led_facts(2)
  by (simp add: flash_inv_def demo_ledctl_def DEFAULT_TIME_MS_def)

text \<open>
  C25: the timer thread at a period that is a positive multiple of 200 ms below \<open>2 ^ 31\<close> ms and that the buttons do
  not change meanwhile. While waiting, reading and arming succeed, any number of rounds writes alternating levels to the
  LED and arms after each level exactly its part of the period, 2 or 98 hundredths, as seconds and
  nanoseconds, and the thread does not end; at the first wait or read that fails it ends without touching
  LED or timer.
\<close>

theorem timer_thread_trace:
  assumes "flash_inv (flash_period_ms d)" and "sint (flash_period_ms d) < 2 ^ 31"
  shows "(timer_env E \<longrightarrow> flashes (lc_log (exec (timer_loop (uapi E) n) d)) =
        flashes (lc_log d) @ loop_flashes (sint (flash_period_ms d)) (isLedOn d) n \<and>
      result (timer_loop (uapi E) n) d) \<and>
    (let h = lc_log d; w = Epoll_wait (lc_epoll_fd d) in
      uret E h w = - 1 \<or> uret E (h @ [(w, uret E h w)]) (Read (lc_timer_fd d) 8) \<noteq> 8 \<longrightarrow>
      \<not> result (timer_loop (uapi E) (Suc n)) d \<and> flashes (lc_log (exec (timer_loop (uapi E) (Suc n)) d)) = flashes h) \<and>
    (\<forall>lit ms. ms = sint (flash_period_ms d) * (if lit then 98 else 2) div 100 \<longrightarrow> 0 < ms \<and>
      pass_flashes (sint (flash_period_ms d)) lit = [Level (\<not> lit), Arm (ms div 1000) (ms mod 1000 * 1000000)])"
proof -
  let ?p = "sint (flash_period_ms d)"
  obtain k where "?p = 200 * k" "0 < k" using assms(1) by (auto simp: flash_inv_def dvd_def)
  then have "\<forall>lit ms. ms = ?p * (if lit then 98 else 2) div 100 \<longrightarrow> 0 < ms \<and>
      pass_flashes ?p lit = [Level (\<not> lit), Arm (ms div 1000) (ms mod 1000 * 1000000)]"
    by (simp add: pass_flashes_def Let_def)
  then show ?thesis
    using timer_loop_effect [OF _ assms] timer_loop_ends [of E d] unfolding Let_def by blast
qed

theorem timer_thread_trace_witness:
  "flashes (lc_log (exec (timer_loop (uapi demo_led_uenv) 2) demo_ledctl)) =
    [Level True, Arm 0 20000000, Level False, Arm 0 980000000]"
  using timer_thread_trace [OF demo_led_facts(2,3), of demo_led_uenv 2, THEN conjunct1] demo_led_facts(1)
  by (simp add: demo_ledctl_def lc_log_def DEFAULT_TIME_MS_def pass_flashes_def Let_def numeral_2_eq_2)

subsection \<open>The module exercises\<close>

text \<open>
  For at most 255 elements the allocation loop ends after one round for each and builds the
  list of the numbered elements inside the block; for 256 or more its 8-bit counter wraps and
  no number of rounds ends it.
\<close>

theorem allocation_loop_ends:
  assumes "0 \<le> elements" and "kret E (klog s) (Kcalloc (nat elements) (nat size_el)) = p" and "p \<noteq> 0"
  shows "(elements \<le> 255 \<and> nat elements < fuel \<longrightarrow>
      result (dynAlloc_init E size_el text elements fuel) s \<and>
      unique_elements (exec (dynAlloc_init E size_el text elements fuel) s) =
        unique_elements s @ map (element_at size_el text p) [0..<nat elements]) \<and>
    (256 \<le> elements \<longrightarrow> \<not> result (dynAlloc_init E size_el text elements fuel) s)"
proof -
  let ?s = "s\<lparr>klog := klog s @ [(Kcalloc (nat elements) (nat size_el), p)]\<rparr>"
  have run: "result (dynAlloc_init E size_el text elements fuel) s = result (alloc_loop size_el text elements p fuel 0) ?s"
    "exec (dynAlloc_init E size_el text elements fuel) s = exec (alloc_loop size_el text elements p fuel 0) ?s"
    using assms(2,3) by (simp_all add: dynAlloc_init_def run_simps)
  show ?thesis
    using alloc_loop_elements [of elements 0 fuel size_el "text" p ?s] alloc_loop_endless [of elements size_el "text" p fuel 0 ?s]
      assms(1) unfolding run by simp
qed

definition demo_lab_kenv :: kenv where
  "demo_lab_kenv = \<lparr>kret = (\<lambda>_ c. case c of Kcalloc _ _ \<Rightarrow> 4096 | Ioremap _ _ \<Rightarrow> 100
     | Request_mem_region _ _ _ \<Rightarrow> 1 | Kthread_run _ \<Rightarrow> 300 | Gpio_to_irq g \<Rightarrow> int g + 80 | _ \<Rightarrow> 0),
     kstrtoint = (\<lambda>_. None), kstrtouint = (\<lambda>_. None), PAGE_SIZE = 4096\<rparr>"

theorem allocation_loop_ends_witness:
  "map unique_number (unique_elements (exec (dynAlloc_init demo_lab_kenv 264 ''x'' 2 3)
     \<lparr>klog = [], unique_elements = []\<rparr>)) = [0, 1]"
  using allocation_loop_ends [of 2 demo_lab_kenv "\<lparr>klog = [], unique_elements = []\<rparr>" 264 4096 3 "''x''"]
  by (simp add: demo_lab_kenv_def element_at_def numeral_2_eq_2)

text \<open>
  The exit frees each element although all of them lie in one block: with one element the
  block is given back, with two or more the second \<open>kfree\<close> is given an address that no
  allocation returned.
\<close>

lemma allocation_exit_misuse:
  assumes "res_state (klog s) = Some {#R_mem p#}" and "unique_elements s = map (element_at size_el text p) [0..<n]"
    and "0 < p" and "0 < size_el"
  shows "res_state (klog (exec (dynAlloc_exit E) s)) =
    (if n = 0 then Some {#R_mem p#} else if n = 1 then Some {#} else None)"
  using free_elements_resources [of s p "{#}" size_el E "text" n] assms
  by (simp add: dynAlloc_exit_def run_simps)

lemma allocation_exit_misuse_witness:
  "res_state (klog (exec (dynAlloc_exit demo_lab_kenv)
     \<lparr>klog = [(Kcalloc 2 264, 4096)], unique_elements = map (element_at 264 ''x'' 4096) [0..<2]\<rparr>)) = None"
  using allocation_exit_misuse [of "\<lparr>klog = [(Kcalloc 2 264, 4096)],
      unique_elements = map (element_at 264 ''x'' 4096) [0..<2]\<rparr>" 4096 264 "''x''" 2 demo_lab_kenv]
  by (simp add: res_state_def)

text \<open>
  An unload after a load of the register read-out releases every region; what stays owned
  are mappings only, at most two, and none when all three mappings were made.
\<close>

lemma io_mapping_leak_bounded:
  fixes s :: "'z iomem_scheme" and E :: kenv
  assumes "res_state (klog s) = Some R"
  defines "m \<equiv> (ioMemoryMapped_init E :: ('z iomem_scheme, io_values option) state)"
  shows "\<exists>L. res_state (klog (exec (ioMemoryMapped_exit E) (exec m s))) = Some (R + L) \<and>
    (result m s \<noteq> None \<longrightarrow> L = {#}) \<and> size L \<le> 2 \<and> (\<forall>x \<in># L. \<exists>p. x = R_mapping p)"
  using ioMemoryMapped_init_resources [OF assms(1), of E] ioMemoryMapped_exit_releases
  unfolding m_def by blast

lemma io_mapping_leak_bounded_witness:
  "\<exists>L. res_state (klog (exec (ioMemoryMapped_exit demo_lab_kenv)
     (exec (ioMemoryMapped_init demo_lab_kenv) \<lparr>klog = [], io_resource0 = 0, io_resource1 = 0, io_resource2 = 0\<rparr>))) =
     Some L \<and> size L \<le> 2"
proof -
  have "res_state (klog \<lparr>klog = [], io_resource0 = 0, io_resource1 = 0, io_resource2 = 0\<rparr>) = Some {#}"
    by (simp add: res_state_def)
  from io_mapping_leak_bounded [OF this, of demo_lab_kenv] show ?thesis by auto
qed

text \<open>
  C26: the two threads that wake each other, in every interleaving with the module's exit:
  before the exit each setting of the trigger is answered by exactly one ping; a thread that
  sleeps although its condition holds is about to be woken; and unless both threads are done
  or the exit can go on, one of them can.
\<close>

theorem sleeping_threads_alternate:
  assumes "sleeping_reach s"
  shows "(\<not> stop1 s \<longrightarrow> set_times s = ping_times s + (if trigger s = 1 \<and> at2 s \<noteq> Reset2 then 1 else 0)) \<and>
    (at1 s = Asleep1 \<and> trigger s = 0 \<longrightarrow> at2 s = Wake2) \<and>
    (at2 s = Asleep2 \<and> trigger s = 1 \<longrightarrow> at1 s = Wake1) \<and>
    ((\<exists>t. sleeping_step s t) \<or> at1 s = Done1 \<and> at2 s = Done2)"
proof -
  have inv: "sleeping_inv s" by (rule sleeping_reach_inv [OF assms])
  have "\<exists>t. sleeping_step s t" if "at1 s \<noteq> Done1 \<or> at2 s \<noteq> Done2"
  proof (cases "thread_skeleton_1 s = None \<and> thread_skeleton_2 s = None")
    case True
    with sleeping_not_stuck [OF inv] that have "\<exists>t. sleeping_exit s = Some t"
      by (simp add: sleeping_exit_def)
    then show ?thesis by (blast intro: step_exit)
  next
    case False
    then show ?thesis using step_1 [of s] step_2 [of s] by fastforce
  qed
  with inv show ?thesis unfolding sleeping_inv_def by (intro conjI impI) (simp_all, blast)
qed

theorem sleeping_threads_alternate_witness:
  "\<exists>t. sleeping_step sleeping_threads t"
  using sleeping_threads_alternate [OF reach_start] by (auto simp: sleeping_threads_def)

text \<open>
  The module as it is configured: when no request is refused a load owns the pin and the
  interrupt line of each switch and an unload gives all of them back; when a pin of the first
  switch is not owned at the unload, the unload frees it all the same.
\<close>

lemma interrupts_given_back:
  assumes "res_state (klog s) = Some {#}"
    and "\<forall>h g. kret E h (Gpio_to_irq g) = irq g"
    and "\<forall>h g n. kret E h (Gpio_request g n) = 0"
    and "\<forall>h i n. kret E h (Request_irq i n) = 0"
  shows "res_state (klog (exec (skeleton_init_lab E) s)) =
      Some (switch_owned irq switchK3 + (switch_owned irq switchK2 + switch_owned irq switchK1)) \<and>
    res_state (klog (exec (do { skeleton_init_lab E; skeleton_exit_lab E }) s)) = Some {#} \<and>
    res_state (klog (exec (skeleton_exit_lab E) s)) = None"
  using lab_init_exit [OF assms] lab_exit_misuse [OF assms(1), of E] by simp

lemma interrupts_given_back_witness:
  "res_state (klog (exec (do { skeleton_init_lab demo_lab_kenv; skeleton_exit_lab demo_lab_kenv }) \<lparr>klog = []\<rparr>)) = Some {#}"
  by (rule interrupts_given_back [where irq = "\<lambda>g. int g + 80", THEN conjunct2, THEN conjunct1])
    (simp_all add: res_state_def demo_lab_kenv_def)

end
