(* ===== verification/Optimization.thy ===== *)
theory Optimization
  imports CFormat Gpio "HOL-Library.Multiset" "HOL-Library.List_Lexorder" "HOL-Library.Char_ord"
begin

section \<open>Optimisation lab: \<open>05-optimization\<close>\<close>

text \<open>
  The programs of the lab in the two forms that the lab compares, and what makes the second
  an optimisation of the first: the same contents of the array in another order of accesses
  (\<open>ex01\<close>), the same sum with one change of the branch instead of many (\<open>ex02\<close>), the
  hosts of a log counted in a set (\<open>ex03\<close>); the time arithmetic of \<open>clock\<close>,
  \<open>gpio\<close> and \<open>mmio\<close> and the pin they toggle. \<open>rand\<close>, \<open>qsort\<close> and the
  clock are parameters. What a program prints is a string.
\<close>

subsection \<open>\<open>ex01\<close>: the order of the accesses\<close>

text \<open>
  The array with the list of the elements touched, a row and a column each. \<open>ex01_SIZE\<close> is
  the value of \<open>SIZE\<close>; the loops are stated for any size.
\<close>

definition ex01_SIZE :: nat where "ex01_SIZE = 5000"

record matrix =
  cells :: "nat \<Rightarrow> nat \<Rightarrow> i32"
  touched :: "(nat \<times> nat) list"

definition add_at :: "i32 \<Rightarrow> nat \<Rightarrow> nat \<Rightarrow> matrix \<Rightarrow> matrix" where
  "add_at k r c m = m\<lparr>cells := (cells m)(r := (cells m r)(c := cells m r c + k)), touched := touched m @ [(r, c)]\<rparr>"

definition ex01_basic :: "nat \<Rightarrow> matrix \<Rightarrow> matrix" where
  "ex01_basic n =
     fold (\<lambda>k. fold (\<lambda>i. fold (\<lambda>j. add_at 1 j i) [0..<n]) [0..<n]) [0..<10]"

definition ex01_optimized :: "nat \<Rightarrow> matrix \<Rightarrow> matrix" where
  "ex01_optimized n = fold (\<lambda>i. fold (\<lambda>j. add_at 10 i j) [0..<n]) [0..<n]"

lemma cells_add_at: "cells (add_at k r c m) x y = cells m x y + (if x = r \<and> y = c then k else 0)"
  by (simp add: add_at_def)

lemma fold_row:
  "cells (fold (\<lambda>j. add_at k i j) [0..<n] m) x y = cells m x y + (if x = i \<and> y < n then k else 0)"
  by (induction n) (auto simp: cells_add_at)

lemma fold_column:
  "cells (fold (\<lambda>j. add_at k j i) [0..<n] m) x y = cells m x y + (if y = i \<and> x < n then k else 0)"
  by (induction n) (auto simp: cells_add_at)

lemma fold_rows:
  "cells (fold (\<lambda>i. fold (\<lambda>j. add_at k i j) [0..<n]) [0..<l] m) x y =
     cells m x y + (if x < l \<and> y < n then k else 0)"
  by (induction l) (auto simp: fold_row)

lemma fold_columns:
  "cells (fold (\<lambda>i. fold (\<lambda>j. add_at k j i) [0..<n]) [0..<l] m) x y =
     cells m x y + (if y < l \<and> x < n then k else 0)"
  by (induction l) (auto simp: fold_column)

lemma fold_passes:
  "cells (fold (\<lambda>_. fold (\<lambda>i. fold (\<lambda>j. add_at 1 j i) [0..<n]) [0..<n]) [0..<t] m) x y =
     cells m x y + (if x < n \<and> y < n then of_nat t else 0)"
  by (induction t) (auto simp: fold_columns)

lemma ex01_basic_cells:
  "cells (ex01_basic n m) x y = cells m x y + (if x < n \<and> y < n then 10 else 0)"
  by (simp add: ex01_basic_def fold_passes del: upt_rec_numeral)

lemma ex01_optimized_cells:
  "cells (ex01_optimized n m) x y = cells m x y + (if x < n \<and> y < n then 10 else 0)"
  by (simp add: ex01_optimized_def fold_rows)

text \<open>Where the elements lie: the offset in elements from the start of the array.\<close>

definition offsets :: "nat \<Rightarrow> matrix \<Rightarrow> nat list" where
  "offsets n m = List.map (\<lambda>(r, c). r * n + c) (touched m)"

lemma offsets_add_at [simp]: "offsets n (add_at k r c m) = offsets n m @ [r * n + c]"
  by (simp add: offsets_def add_at_def)

lemma offsets_row: "offsets n (fold (\<lambda>j. add_at k i j) [0..<l] m) = offsets n m @ [i * n..<i * n + l]"
  by (induction l) simp_all

lemma offsets_rows:
  "offsets n (fold (\<lambda>i. fold (\<lambda>j. add_at k i j) [0..<n]) [0..<l] m) = offsets n m @ [0..<l * n]"
proof (induction l)
  case (Suc l)
  have "[0..<l * n + n] = [0..<l * n] @ [l * n..<l * n + n]" by (rule upt_add_eq_append) simp
  with Suc show ?case by (simp add: offsets_row add.commute)
qed simp

lemma offsets_column: "offsets n (fold (\<lambda>j. add_at k j i) [0..<l] m) = offsets n m @ List.map (\<lambda>j. j * n + i) [0..<l]"
  by (induction l) simp_all

lemma ex01_optimized_offsets: "offsets n (ex01_optimized n m) = offsets n m @ [0..<n * n]"
  by (simp add: ex01_optimized_def offsets_rows)

subsection \<open>\<open>ex02\<close>: a sum over sorted data\<close>

definition ex02_SIZE :: nat where "ex02_SIZE = 65536"
definition ex02_passes :: nat where "ex02_passes = 10000"

text \<open>The short of 16 bits that \<open>rand() % 512\<close> is stored in.\<close>

definition generate :: "(nat \<Rightarrow> int) \<Rightarrow> nat \<Rightarrow> 16 word list" where
  "generate rand n = List.map (\<lambda>i. word_of_int (rand i smod 512)) [0..<n]"

text \<open>The loop over the data, the state being the sum and the outcome of each test of the branch.\<close>

definition sum_body :: "16 word \<Rightarrow> u64 \<times> bool list \<Rightarrow> u64 \<times> bool list" where
  "sum_body d = (\<lambda>(s, bs). if 256 \<le> sint d then (s + word_of_int (sint d), bs @ [True]) else (s, bs @ [False]))"

definition sum_loops :: "nat \<Rightarrow> 16 word list \<Rightarrow> u64 \<times> bool list" where
  "sum_loops passes ds = fold (\<lambda>_. fold sum_body ds) [0..<passes] (0, [])"

definition sum_line :: "u64 \<Rightarrow> string" where
  "sum_line s = ''sum='' @ show_int (sint s) @ nl"

definition ex02_basic :: "(nat \<Rightarrow> int) \<Rightarrow> nat \<Rightarrow> nat \<Rightarrow> string" where
  "ex02_basic rand n passes = sum_line (fst (sum_loops passes (generate rand n)))"

definition compare_short :: "16 word \<Rightarrow> 16 word \<Rightarrow> i32" where
  "compare_short a b = word_of_int (sint a - sint b)"

type_synonym qsort_fn = "(16 word \<Rightarrow> 16 word \<Rightarrow> i32) \<Rightarrow> 16 word list \<Rightarrow> 16 word list"

definition ex02_optimized :: "(nat \<Rightarrow> int) \<Rightarrow> qsort_fn \<Rightarrow> nat \<Rightarrow> nat \<Rightarrow> string" where
  "ex02_optimized rand qs n passes = sum_line (fst (sum_loops passes (qs compare_short (generate rand n))))"

text \<open>What the C library promises of \<open>qsort\<close> for a comparison that is a total preorder.\<close>

definition preorder_cmp :: "('a \<Rightarrow> 'a \<Rightarrow> i32) \<Rightarrow> bool" where
  "preorder_cmp cmp \<longleftrightarrow> (\<forall>a b. sint (cmp a b) \<le> 0 \<or> sint (cmp b a) \<le> 0) \<and>
     (\<forall>a b c. sint (cmp a b) \<le> 0 \<longrightarrow> sint (cmp b c) \<le> 0 \<longrightarrow> sint (cmp a c) \<le> 0)"

definition qsort_ok :: "qsort_fn \<Rightarrow> bool" where
  "qsort_ok qs \<longleftrightarrow> (\<forall>cmp xs. mset (qs cmp xs) = mset xs) \<and>
     (\<forall>cmp xs. preorder_cmp cmp \<longrightarrow> sorted_wrt (\<lambda>a b. sint (cmp a b) \<le> 0) (qs cmp xs))"

lemma sint_compare_short: "sint (compare_short a b) = sint a - sint b"
proof -
  have "- (2 ^ 15) \<le> sint a" "sint a < 2 ^ 15" "- (2 ^ 15) \<le> sint b" "sint b < 2 ^ 15"
    using sint_ge [of a] sint_lt [of a] sint_ge [of b] sint_lt [of b] by simp_all
  then show ?thesis unfolding compare_short_def by (intro sint_of_small) simp_all
qed

lemma compare_short_preorder: "preorder_cmp compare_short"
  by (simp add: preorder_cmp_def sint_compare_short) linarith

lemma qsort_sorted: "qsort_ok qs \<Longrightarrow> sorted (List.map sint (qs compare_short xs))"
  using compare_short_preorder unfolding qsort_ok_def sorted_map
  by (auto simp: sint_compare_short)

text \<open>The value of a pass and of all of them.\<close>

definition big :: "16 word list \<Rightarrow> int" where
  "big ds = (\<Sum>d \<leftarrow> filter (\<lambda>d. 256 \<le> sint d) ds. sint d)"

lemma fold_sum_body:
  "fold sum_body ds (s, bs) = (s + word_of_int (big ds), bs @ List.map (\<lambda>d. 256 \<le> sint d) ds)"
  by (induction ds arbitrary: s bs) (simp_all add: sum_body_def big_def)

lemma fst_fold_sum_body: "fst (fold sum_body ds st) = fst st + word_of_int (big ds)"
  by (cases st) (simp add: fold_sum_body)

lemma sum_loops_value: "fst (sum_loops p ds) = word_of_int (int p * big ds)"
proof -
  have "fst (fold (\<lambda>_. fold sum_body ds) [0..<p] st) = fst st + word_of_int (int p * big ds)" for st
    by (induction p) (simp_all add: fst_fold_sum_body algebra_simps)
  then show ?thesis by (simp add: sum_loops_def)
qed

lemma big_mset:
  assumes "mset xs = mset ys"
  shows "big xs = big ys"
proof -
  have "mset (List.map sint (filter (\<lambda>d. 256 \<le> sint d) xs)) =
      mset (List.map sint (filter (\<lambda>d. 256 \<le> sint d) ys))"
    using assms by simp
  then show ?thesis unfolding big_def by (metis sum_mset_sum_list)
qed

text \<open>How often the branch changes its direction in a pass.\<close>

fun switches :: "bool list \<Rightarrow> nat" where
  "switches (a # b # bs) = (if a = b then 0 else 1) + switches (b # bs)"
| "switches _ = 0"

definition branch_trace :: "16 word list \<Rightarrow> bool list" where
  "branch_trace ds = snd (sum_loops 1 ds)"

lemma branch_trace: "branch_trace ds = List.map (\<lambda>d. 256 \<le> sint d) ds"
  by (simp add: branch_trace_def sum_loops_def fold_sum_body)

lemma switches_const: "(\<forall>b \<in> set bs. b = a) \<Longrightarrow> switches bs = 0"
  by (induction bs rule: switches.induct) auto

lemma switches_sorted: "sorted bs \<Longrightarrow> switches bs \<le> 1"
proof (induction bs rule: switches.induct)
  case (1 a b bs)
  show ?case
  proof (cases "a = b")
    case True
    from 1(2) have "sorted (b # bs)"
      unfolding sorted_wrt.simps(2) [of "(\<le>)" a "b # bs"] by (rule conjunct2)
    then have "switches (b # bs) \<le> 1" by (rule 1(1))
    with True show ?thesis by simp
  next
    case False
    with 1(2) have "\<forall>x \<in> set (b # bs). x = True" by auto
    then have "switches (b # bs) = 0" by (rule switches_const)
    then show ?thesis by simp
  qed
qed simp_all

lemma sorted_branch_trace: "sorted (List.map sint ds) \<Longrightarrow> sorted (branch_trace ds)"
  unfolding branch_trace sorted_map by (rule sorted_wrt_mono_rel) (auto simp: sorted_wrt_map)

text \<open>The data are below 512, and no sum overflows its 64 bits.\<close>

lemma generate_range:
  assumes "\<forall>i. 0 \<le> rand i" "d \<in> set (generate rand n)"
  shows "0 \<le> sint d \<and> sint d < 512"
proof -
  obtain i where d: "d = word_of_int (rand i smod 512)" using assms(2) by (auto simp: generate_def)
  have "rand i smod 512 = rand i mod 512" proof -
    have "0 \<le> rand i" using assms(1) by simp
    then show ?thesis by (cases "rand i = 0") (simp_all add: signed_modulo_int_def sgn_if)
  qed
  moreover have "0 \<le> rand i mod 512" "rand i mod 512 < 512" by simp_all
  ultimately show ?thesis unfolding d
    by (simp add: signed_take_bit_int_eq_self sint_sbintrunc')
qed

lemma big_range:
  assumes "\<forall>d \<in> set ds. 0 \<le> sint d \<and> sint d < 512"
  shows "0 \<le> big ds" "big ds \<le> 511 * int (length ds)"
proof -
  show "0 \<le> big ds" unfolding big_def using assms by (intro sum_list_nonneg) auto
  show "big ds \<le> 511 * int (length ds)" using assms by (induction ds) (auto simp: big_def)
qed

lemma generate_length [simp]: "length (generate rand n) = n"
  by (simp add: generate_def)

subsection \<open>\<open>ex03\<close>: the hosts of a log\<close>

text \<open>\<open>HostCounter\<close>: the hosts found so far, in a \<open>std::set\<close>.\<close>

record host_counter = myHosts :: "string set"

definition isNewHost :: "string \<Rightarrow> host_counter \<Rightarrow> bool" where
  "isNewHost hostname c \<longleftrightarrow> hostname \<notin> myHosts c"

definition notifyHost :: "string \<Rightarrow> host_counter \<Rightarrow> host_counter" where
  "notifyHost hostname c = (if isNewHost hostname c then c\<lparr>myHosts := insert hostname (myHosts c)\<rparr> else c)"

definition getNbOfHosts :: "host_counter \<Rightarrow> i32" where
  "getNbOfHosts c = of_nat (card (myHosts c))"

text \<open>
  \<open>find_first_of\<close> gives a \<open>size_t\<close>, the largest one when there is no space; it is stored
  in an \<open>int\<close> and converted back by \<open>substr\<close>.
\<close>

definition find_space :: "string \<Rightarrow> u64" where
  "find_space line = (if CHR '' '' \<in> set line then of_nat (length (takeWhile (\<lambda>c. c \<noteq> CHR '' '') line)) else - 1)"

definition hostname_of :: "string \<Rightarrow> string" where
  "hostname_of line = (let space_pos = ucast (find_space line) :: i32
     in take (unat (scast space_pos :: u64)) line)"

record analyzer =
  myFilename :: string
  myInFile :: "string list"  \<comment> \<open>the lines still to be read; none when the file is not open\<close>
  myHostCounter :: host_counter

definition new_analyzer :: "string \<Rightarrow> analyzer" where
  "new_analyzer filename = \<lparr>myFilename = filename, myInFile = [], myHostCounter = \<lparr>myHosts = {}\<rparr>\<rparr>"

text \<open>The file system is a parameter: the lines of a file that can be opened.\<close>

definition openFile :: "(string \<Rightarrow> string list option) \<Rightarrow> analyzer \<Rightarrow> analyzer" where
  "openFile files a = a\<lparr>myInFile := (case files (myFilename a) of None \<Rightarrow> [] | Some ls \<Rightarrow> ls)\<rparr>"

definition closeFile :: "analyzer \<Rightarrow> analyzer" where
  "closeFile a = a\<lparr>myInFile := []\<rparr>"

definition processFile :: "analyzer \<Rightarrow> string \<times> analyzer" where
  "processFile a =
     (let c = fold (\<lambda>line. notifyHost (hostname_of line)) (myInFile a) (myHostCounter a)
      in (''Processing log file '' @ myFilename a @ nl @
          ''Found '' @ fmt_d (getNbOfHosts c) @ '' unique Hosts/IPs'' @ nl,
          a\<lparr>myInFile := [], myHostCounter := c\<rparr>))"

definition ex03_usage :: "string \<Rightarrow> string" where
  "ex03_usage prog = ''Usage: '' @ prog @ '' <filename>'' @ nl @
     nl @ ''Where <filename> is the apache access log file'' @ nl"

text \<open>Exit status and output.\<close>

definition ex03_main :: "(string \<Rightarrow> string list option) \<Rightarrow> string list \<Rightarrow> int \<times> string" where
  "ex03_main files argv =
     (if length argv \<noteq> 2 then (- 1, ex03_usage (hd argv))
      else let a = openFile files (new_analyzer (argv ! 1));
               (out, a') = processFile a;
               a'' = closeFile a'
           in (0, out))"

lemma notifyHost_myHosts: "myHosts (notifyHost h c) = insert h (myHosts c)"
  by (auto simp: notifyHost_def isNewHost_def)

lemma fold_notifyHost:
  "myHosts (fold (\<lambda>line. notifyHost (hostname_of line)) ls c) = myHosts c \<union> hostname_of ` set ls"
  by (induction ls arbitrary: c) (auto simp: notifyHost_myHosts)

text \<open>
  The course's solution searches with \<open>std::find\<close>, which walks along the set, in the order of the
  strings, instead of asking it.
\<close>

definition isNewHost_find :: "string \<Rightarrow> host_counter \<Rightarrow> bool" where
  "isNewHost_find hostname c \<longleftrightarrow> List.find (\<lambda>h. h = hostname) (sorted_list_of_set (myHosts c)) = None"

definition notifyHost_find :: "string \<Rightarrow> host_counter \<Rightarrow> host_counter" where
  "notifyHost_find hostname c = (if isNewHost_find hostname c then c\<lparr>myHosts := insert hostname (myHosts c)\<rparr> else c)"

lemma fold_notifyHost_find:
  "finite (myHosts c) \<Longrightarrow> fold (\<lambda>line. notifyHost_find (hostname_of line)) ls c = fold (\<lambda>line. notifyHost (hostname_of line)) ls c"
proof (induction ls arbitrary: c)
  case (Cons line ls)
  have "notifyHost_find h c = notifyHost h c" for h
    using Cons.prems by (auto simp: notifyHost_find_def notifyHost_def isNewHost_find_def isNewHost_def find_None_iff)
  moreover have "finite (myHosts (notifyHost h c))" for h using Cons.prems by (simp add: notifyHost_myHosts)
  ultimately show ?case using Cons.IH by simp
qed simp

lemma narrow_and_back:
  assumes "k < 2 ^ 31"
  shows "unat (scast (ucast (word_of_nat k :: u64) :: i32) :: u64) = k"
proof -
  have "(ucast (word_of_nat k :: u64) :: i32) = word_of_nat k"
    using assms by (simp add: unsigned_of_nat take_bit_nat_eq_self)
  moreover have "(scast (word_of_nat k :: i32) :: u64) = word_of_nat k"
    using assms by (simp add: signed_of_nat signed_take_bit_int_eq_self)
  moreover have "unat (word_of_nat k :: u64) = k"
    using assms by (simp add: unsigned_of_nat take_bit_nat_eq_self)
  ultimately show ?thesis by simp
qed

lemma hostname_of_line:
  assumes "length line < 2 ^ 31"
  shows "hostname_of line = takeWhile (\<lambda>c. c \<noteq> CHR '' '') line"
proof (cases "CHR '' '' \<in> set line")
  case True
  let ?k = "length (takeWhile (\<lambda>c. c \<noteq> CHR '' '') line)"
  have "?k < 2 ^ 31" using assms length_takeWhile_le [of "\<lambda>c. c \<noteq> CHR '' ''" line] by simp
  then have "hostname_of line = take ?k line"
    using True narrow_and_back [of ?k] by (simp add: hostname_of_def find_space_def)
  then show ?thesis by (metis takeWhile_eq_take)
next
  case False
  have "(ucast (- 1 :: u64) :: i32) = - 1" by (rule bit_word_eqI) (simp add: bit_ucast_iff)
  then have "unat (scast (ucast (- 1 :: u64) :: i32) :: u64) = 2 ^ 64 - 1" by (simp add: unsigned_minus_1_eq_mask mask_eq_exp_minus_1)
  with False assms have "hostname_of line = line" by (simp add: hostname_of_def find_space_def)
  moreover have "takeWhile (\<lambda>c. c \<noteq> CHR '' '') line = line"
    using False by (auto simp: takeWhile_eq_all_conv)
  ultimately show ?thesis by (simp only:)
qed

subsection \<open>\<open>gcov\<close>\<close>

definition gcov_main :: string where
  "gcov_main = (let res = fold (\<lambda>_ r. r * 2) [0..<16] (1 :: i32)
     in (if sint res < 10 then ''dead code'' @ nl else []) @ ''res='' @ fmt_d res @ nl)"

lemma gcov_main_output: "gcov_main = ''res='' @ show_int 65536 @ nl"
proof -
  have "fold (\<lambda>_ r. r * 2) [0..<16] (1 :: i32) = 65536" by (simp add: upt_rec)
  then show ?thesis by (simp add: gcov_main_def fmt_d_def)
qed

subsection \<open>Measuring time\<close>

text \<open>\<open>struct timespec\<close> of a 64-bit target, and the clock as a parameter: its \<open>i\<close>-th reading.\<close>

record timespec =
  tv_sec :: s64
  tv_nsec :: s64

definition elapsed_ns :: "timespec \<Rightarrow> timespec \<Rightarrow> s64" where
  "elapsed_ns start stop = (tv_nsec stop - tv_nsec start) + (tv_sec stop - tv_sec start) * 1000000000"

text \<open>\<open>measure\<close>: the first two readings warm the clock up.\<close>

definition measure_clock :: "(nat \<Rightarrow> timespec) \<Rightarrow> i32 \<Rightarrow> string list" where
  "measure_clock clk samples =
     List.map (\<lambda>i. fmt_lld (elapsed_ns (clk (2 + 2 * i)) (clk (3 + 2 * i))) @ nl) [0..<nat (sint samples)]"

definition resolution_line :: "timespec \<Rightarrow> string" where
  "resolution_line res =
     (let t = tv_sec res * 1000000000 + tv_nsec res
      in ''time='' @ fmt_lld (sdiv64 t 1000000) @ [CHR 0x27] @ fmt_03ld (smod64 (sdiv64 t 1000) 1000) @
         [CHR 0x27] @ fmt_03ld (smod64 t 1000) @ '' ns'' @ nl)"

text \<open>\<open>CLOCKS_PER_SEC\<close> is 1000000 on every POSIX system.\<close>

definition clock_main :: "timespec \<Rightarrow> (nat \<Rightarrow> timespec) \<Rightarrow> string list \<Rightarrow> string list" where
  "clock_main res clk argv =
     (let samples = (if length argv = 2 then ucast (atol (argv ! 1)) else 1000) :: i32
      in [''clocks_per_sec='' @ show_int 1000000 @ nl, resolution_line res] @ measure_clock clk samples)"

text \<open>Readings of a clock: normalised, and no further apart than the range of \<open>long long\<close>.\<close>

definition timespec_ok :: "timespec \<Rightarrow> bool" where
  "timespec_ok t \<longleftrightarrow> 0 \<le> sint (tv_sec t) \<and> sint (tv_sec t) < 2 ^ 33 \<and> 0 \<le> sint (tv_nsec t) \<and> sint (tv_nsec t) < 1000000000"

definition ns_of :: "timespec \<Rightarrow> int" where
  "ns_of t = sint (tv_sec t) * 1000000000 + sint (tv_nsec t)"

lemma elapsed_ns_exact:
  assumes "timespec_ok a" "timespec_ok b"
  shows "sint (elapsed_ns a b) = ns_of b - ns_of a"
proof -
  have "elapsed_ns a b = word_of_int ((sint (tv_nsec b) - sint (tv_nsec a)) +
      (sint (tv_sec b) - sint (tv_sec a)) * 1000000000)"
    by (simp add: elapsed_ns_def)
  also have "\<dots> = word_of_int (ns_of b - ns_of a)" by (simp add: ns_of_def algebra_simps)
  finally have eq: "elapsed_ns a b = word_of_int (ns_of b - ns_of a)" .
  have "- (2 ^ 63) \<le> ns_of b - ns_of a" "ns_of b - ns_of a < 2 ^ 63"
    using assms by (simp_all add: timespec_ok_def ns_of_def)
  then show ?thesis unfolding eq by (rule sint_small64)
qed

text \<open>The groups of digits of the resolution, read together, are the nanoseconds.\<close>

lemma sdiv64_nat: "0 \<le> k \<Longrightarrow> k < 2 ^ 63 \<Longrightarrow> 0 < m \<Longrightarrow> m < 2 ^ 63 \<Longrightarrow>
   sdiv64 (word_of_int k) (word_of_int m) = word_of_int (k div m)"
  by (simp add: sdiv64_def sint_small64 signed_divide_int_def sgn_if)

lemma smod64_nat: "0 \<le> k \<Longrightarrow> k < 2 ^ 63 \<Longrightarrow> 0 < m \<Longrightarrow> m < 2 ^ 63 \<Longrightarrow>
   smod64 (word_of_int k) (word_of_int m) = word_of_int (k mod m)"
  by (simp add: smod64_def sint_small64 signed_modulo_int_def sgn_if)

lemma fmt_03ld_group:
  assumes "0 \<le> k" "k < 1000"
  shows "dec_value (fmt_03ld (word_of_int k)) = nat k" "length (fmt_03ld (word_of_int k)) = 3"
proof -
  have "sint (word_of_int k :: s64) = k" using assms by (intro sint_small64) simp_all
  moreover have "length (show_nat (nat k)) \<le> 3" using assms by (intro length_show_nat_le) simp_all
  ultimately show "dec_value (fmt_03ld (word_of_int k)) = nat k" "length (fmt_03ld (word_of_int k)) = 3"
    using assms by (simp_all add: fmt_03ld_def Let_def dec_value_append)
qed

lemma resolution_digits:
  assumes "timespec_ok res"
  obtains a b c where "resolution_line res = ''time='' @ a @ [CHR 0x27] @ b @ [CHR 0x27] @ c @ '' ns'' @ nl"
    and "int (dec_value (a @ b @ c)) = ns_of res"
proof -
  let ?T = "ns_of res"
  have T: "0 \<le> ?T" "?T < 2 ^ 63" using assms by (simp_all add: timespec_ok_def ns_of_def)
  have t: "tv_sec res * 1000000000 + tv_nsec res = word_of_int ?T" by (simp add: ns_of_def)
  have d: "sdiv64 (word_of_int ?T) 1000000 = word_of_int (?T div 1000000)"
    "sdiv64 (word_of_int ?T) 1000 = word_of_int (?T div 1000)"
    "smod64 (word_of_int ?T) 1000 = word_of_int (?T mod 1000)"
    using sdiv64_nat [OF T, of 1000000] sdiv64_nat [OF T, of 1000] smod64_nat [OF T, of 1000] by simp_all
  have m: "smod64 (word_of_int (?T div 1000)) 1000 = word_of_int (?T div 1000 mod 1000)"
    using smod64_nat [of "?T div 1000" 1000] T by simp
  define a where "a = fmt_lld (word_of_int (?T div 1000000))"
  define b where "b = fmt_03ld (word_of_int (?T div 1000 mod 1000))"
  define c where "c = fmt_03ld (word_of_int (?T mod 1000))"
  have "sint (word_of_int (?T div 1000000) :: s64) = ?T div 1000000"
    using T by (intro sint_small64) simp_all
  moreover have "\<not> ?T div 1000000 < 0" using T by (simp add: not_less pos_imp_zdiv_nonneg_iff)
  ultimately have av: "dec_value a = nat (?T div 1000000)"
    by (simp add: a_def fmt_lld_def show_int_def)
  have bc: "dec_value b = nat (?T div 1000 mod 1000)" "length b = 3" "dec_value c = nat (?T mod 1000)" "length c = 3"
    unfolding b_def c_def by (rule fmt_03ld_group; simp)+
  have "int (dec_value (a @ b @ c)) = ?T div 1000000 * 1000000 + ?T div 1000 mod 1000 * 1000 + ?T mod 1000"
    using T by (simp add: dec_value_append av bc)
  also have "\<dots> = ?T"
  proof -
    define X where "X = ?T div 1000"
    have "?T div 1000000 = X div 1000" using zdiv_zmult2_eq [of 1000 ?T 1000] by (simp add: X_def)
    moreover have "?T = X * 1000 + ?T mod 1000" unfolding X_def by (rule div_mult_mod_eq [symmetric])
    moreover have "X = X div 1000 * 1000 + X mod 1000" by (rule div_mult_mod_eq [symmetric])
    ultimately show ?thesis unfolding X_def [symmetric] by linarith
  qed
  finally show thesis
    by (intro that [of a b c]) (simp_all add: resolution_line_def Let_def t d m a_def b_def c_def)
qed

end
