(* ===== verification/Registers.thy ===== *)
theory Registers
  imports Optimization
begin

section \<open>Registers and pins from user space: \<open>gpio.c\<close>, \<open>mmio.c\<close>, \<open>ex1-memory-oriented.c\<close>\<close>

text \<open>
  The two benchmarks of \<open>05-optimization\<close> that toggle a pin, one through the files of
  the GPIO class and one through the register itself, and the exercise of \<open>02-driver\<close>
  that reads the identifier of the chip. The kernel's calls are \<open>ucall\<close>s; the physical
  memory behind \<open>/dev/mem\<close> is a parameter, read by words inside the page that was
  mapped, \<open>None\<close> being an access outside it. The endless loop at the end of the
  benchmarks is stated for each number \<open>n\<close> of its passes.
\<close>

subsection \<open>\<open>gpio.c\<close>\<close>

definition GPIOG11 :: string where "GPIOG11 = ''203''"
definition GPIO_GPIOG11 :: string where "GPIO_GPIOG11 = ''/sys/class/gpio/gpio203''"

definition open_gpio :: "(ucall \<Rightarrow> ('w, int) state) \<Rightarrow> ('w, int) state" where
  "open_gpio U = do {
     write_file U GPIO_UNEXPORT GPIOG11;
     write_file U GPIO_EXPORT GPIOG11;
     write_file U (GPIO_GPIOG11 @ ''/direction'') ''out'';
     U (Open (GPIO_GPIOG11 @ ''/value''))
   }"

text \<open>One pass of either loop: the level \<open>on\<close> is written with its NUL, then inverted.\<close>

definition bench_pass :: "(ucall \<Rightarrow> ('w, int) state) \<Rightarrow> int \<Rightarrow> bool \<Rightarrow> ('w, bool) state" where
  "bench_pass U f on = do {
     (if on then uvoid (U (Pwrite f [CHR ''1'', CHR 0x00]))
      else uvoid (U (Pwrite f [CHR ''0'', CHR 0x00])));
     ret (\<not> on)
   }"

fun bench_loop :: "(ucall \<Rightarrow> ('w, int) state) \<Rightarrow> int \<Rightarrow> nat \<Rightarrow> bool \<Rightarrow> ('w, bool) state" where
  "bench_loop U f 0 on = ret on"
| "bench_loop U f (Suc n) on = bench_pass U f on \<bind> bench_loop U f n"

definition ns_line :: "string \<Rightarrow> string \<Rightarrow> string" where
  "ns_line what t = what @ t @ '' ns'' @ nl"

definition gpio_bench_main ::
  "(ucall \<Rightarrow> ('w, int) state) \<Rightarrow> timespec \<times> timespec \<Rightarrow> nat \<Rightarrow> ('w, string) state" where
  "gpio_bench_main U stamps n = do {
     uvoid (U (Sched_setaffinity 0 (2 ^ 2)));
     f \<leftarrow> open_gpio U;
     on \<leftarrow> bench_loop U f 1000 False;
     let t = elapsed_ns (fst stamps) (snd stamps);
     let out = ns_line (''pwrite (gpio, '' @ [CHR 0x22] @ ''1'' @ [CHR 0x22] @ '', sizeof('' @ [CHR 0x22] @
       ''1'' @ [CHR 0x22] @ ''), 0) -> '') (fmt_lld (sdiv64 t 1000));
     on \<leftarrow> bench_loop U f n on;
     ret out
   }"

lemma bench_pass_level:
  "led_levels f (ulog (exec (bench_pass (uapi E) f on) s)) = led_levels f (ulog s) @ [on]"
  "result (bench_pass (uapi E) f on) s = (\<not> on)"
  by (simp_all add: bench_pass_def run_simps)

lemma bench_loop_levels:
  "led_levels f (ulog (exec (bench_loop (uapi E) f n on) s)) =
     led_levels f (ulog s) @ List.map (\<lambda>k. on \<noteq> odd k) [0..<n]"
  "result (bench_loop (uapi E) f n on) s = (on \<noteq> odd n)"
proof (induction n arbitrary: on s)
  case (Suc n)
  { case 1
    have "List.map (\<lambda>k. on \<noteq> odd k) [0..<Suc n] = on # List.map (\<lambda>k. (\<not> on) \<noteq> odd k) [0..<n]"
      unfolding upt_conv_Cons [OF zero_less_Suc] map_Suc_upt [symmetric] by simp
    then show ?case by (simp add: exec_bind Suc.IH bench_pass_level del: upt_Suc) }
  { case 2 show ?case by (auto simp: result_bind Suc.IH bench_pass_level) }
qed simp_all

subsection \<open>Words of a mapping\<close>

text \<open>
  The word at index \<open>k\<close> of a mapping of \<open>len\<close> bytes whose first byte is the physical
  address \<open>start\<close>.
\<close>

definition mapped_word :: "(nat \<Rightarrow> u32) \<Rightarrow> nat \<Rightarrow> nat \<Rightarrow> nat \<Rightarrow> u32 option" where
  "mapped_word phys start len k = (if 4 * k + 4 \<le> len then Some (phys (start + 4 * k)) else None)"

definition mapped_store :: "(nat \<Rightarrow> u32) \<Rightarrow> nat \<Rightarrow> nat \<Rightarrow> nat \<Rightarrow> u32 \<Rightarrow> (nat \<Rightarrow> u32) option" where
  "mapped_store phys start len k v = (if 4 * k + 4 \<le> len then Some (phys(start + 4 * k := v)) else None)"

subsection \<open>\<open>mmio.c\<close>\<close>

definition PIO_BASE :: nat where "PIO_BASE = 0x01c20000"

text \<open>\<open>dat_pio = pio + (0x810+6*0x24)/4\<close>, in words.\<close>

definition dat_pio :: nat where "dat_pio = (0x810 + 6 * 0x24) div 4"

definition toggle_pin :: "u32 \<Rightarrow> u32" where
  "toggle_pin v = v XOR push_bit 11 1"

text \<open>\<open>*dat_pio ^= (1<<11)\<close>, \<open>n\<close> times.\<close>

fun toggle_reg :: "nat \<Rightarrow> nat \<Rightarrow> (nat \<Rightarrow> u32) \<Rightarrow> (nat \<Rightarrow> u32) option" where
  "toggle_reg len 0 phys = Some phys"
| "toggle_reg len (Suc n) phys = (case mapped_word phys PIO_BASE len dat_pio of
     None \<Rightarrow> None
   | Some v \<Rightarrow> (case mapped_store phys PIO_BASE len dat_pio (toggle_pin v) of
       None \<Rightarrow> None
     | Some phys' \<Rightarrow> toggle_reg len n phys'))"

fun toggle_data :: "nat \<Rightarrow> u32 \<Rightarrow> u32" where
  "toggle_data 0 d = d"
| "toggle_data (Suc n) d = toggle_data n (toggle_pin d)"

definition fmt_6lld :: "s64 \<Rightarrow> string" where
  "fmt_6lld w = (let s = fmt_lld w in replicate (6 - length s) CHR '' '' @ s)"

text \<open>
  The status and the lines printed with the memory at the end; \<open>None\<close> is an access through
  \<open>MAP_FAILED\<close>, which the code does not test, or outside the page.
\<close>

definition mmio_main ::
  "(ucall \<Rightarrow> ('w, int) state) \<Rightarrow> timespec list \<Rightarrow> nat \<Rightarrow> (nat \<Rightarrow> u32) \<Rightarrow> nat \<Rightarrow>
   ('w, (int \<times> string list \<times> (nat \<Rightarrow> u32)) option) state" where
  "mmio_main U stamps psz phys n = do {
     uvoid (U (Sched_setaffinity 0 (2 ^ 2)));
     f \<leftarrow> open_gpio U;
     uvoid (U (Pwrite f [CHR ''1'', CHR 0x00]));
     uvoid (U (Pwrite f [CHR ''0'', CHR 0x00]));
     fd \<leftarrow> U (Open ''/dev/mem'');
     if fd = - 1 then ret (Some (- 1, [], phys))
     else do {
       pio \<leftarrow> U (Mmap fd psz PIO_BASE);
       if pio = - 1 then ret None
       else ret (case toggle_reg psz 1000 phys of
         None \<Rightarrow> None
       | Some phys1 \<Rightarrow>
           let t = elapsed_ns (stamps ! 0) (stamps ! 1);
               line1 = ns_line ''*dat_pio ^= (1<<11) --> '' (fmt_6lld (sdiv64 t 1000));
               data = toggle_data 1000 0;
               t = elapsed_ns (stamps ! 2) (stamps ! 3);
               line2 = ns_line ''data     ^= (1<<11) --> '' (fmt_6lld (sdiv64 t 1000))
           in map_option (\<lambda>phys2. (0, [line1, line2], phys2)) (toggle_reg psz n phys1))
     }
   }"

lemma toggle_pin_twice [simp]: "toggle_pin (toggle_pin v) = v"
  by (simp add: toggle_pin_def xor.assoc)

lemma toggle_pin_bits: "bit (toggle_pin v) b = (bit v b \<noteq> (b = 11))"
proof -
  have "bit (push_bit 11 (1 :: u32)) b = (b = 11)"
    unfolding bit_push_bit_iff bit_1_iff by auto
  then show ?thesis unfolding toggle_pin_def bit_xor_iff by blast
qed

lemma toggle_data_parity: "toggle_data n d = (if even n then d else toggle_pin d)"
  by (induction n arbitrary: d) auto

lemma toggle_reg_parity:
  assumes "4 * dat_pio + 4 \<le> len"
  shows "toggle_reg len n phys = Some (phys(PIO_BASE + 4 * dat_pio := toggle_data n (phys (PIO_BASE + 4 * dat_pio))))"
  using assms by (induction n arbitrary: phys) (simp_all add: mapped_word_def mapped_store_def)

lemma dat_pio_address: "PIO_BASE + 4 * dat_pio = 0x01c20800 + 6 * 0x24 + 0x10"
  by (simp add: PIO_BASE_def dat_pio_def)

subsection \<open>\<open>ex1-memory-oriented.c\<close>\<close>

text \<open>\<open>%08x\<close> of a register.\<close>

definition fmt_hex32 :: "u32 \<Rightarrow> string" where
  "fmt_hex32 w = hex_digits 8 (unat w)"

definition chip_id_addr :: nat where "chip_id_addr = 0x01c14200"

text \<open>The four registers, read through the mapping.\<close>

definition read_chipid :: "(nat \<Rightarrow> u32) \<Rightarrow> nat \<Rightarrow> nat \<Rightarrow> nat \<Rightarrow> u32 list option" where
  "read_chipid phys start_page page_size offset =
     those (List.map (\<lambda>k. mapped_word phys start_page page_size ((k + offset) div 4)) [0x00, 0x04, 0x08, 0x0c])"

definition chipid_line :: "u32 list \<Rightarrow> string" where
  "chipid_line chipid = ''chipid='' @ fmt_hex32 (chipid ! 0) @ [CHR 0x27] @ fmt_hex32 (chipid ! 1) @ [CHR 0x27] @
     fmt_hex32 (chipid ! 2) @ [CHR 0x27] @ fmt_hex32 (chipid ! 3) @ nl"

definition ex_memory_oriented ::
  "(ucall \<Rightarrow> ('w, int) state) \<Rightarrow> nat \<Rightarrow> (nat \<Rightarrow> u32) \<Rightarrow> ('w, (int \<times> string) option) state" where
  "ex_memory_oriented U page_size phys = do {
     fd \<leftarrow> U (Open ''/dev/mem'');
     if fd < 0 then ret (Some (1, []))
     else do {
       let offset = chip_id_addr mod page_size;
       let start_page = chip_id_addr - offset;
       regs \<leftarrow> U (Mmap fd page_size start_page);
       if regs = - 1 then ret (Some (1, []))
       else (case read_chipid phys start_page page_size offset of
         None \<Rightarrow> ret None
       | Some chipid \<Rightarrow> do {
           uvoid (U (Munmap regs page_size));
           uvoid (U (Close fd));
           ret (Some (0, chipid_line chipid))
         })
     }
   }"

lemma chip_word:
  assumes "4 dvd psz" "chip_id_addr mod psz + 16 \<le> psz" "k \<in> {0, 4, 8, 12}"
  shows "mapped_word phys (chip_id_addr - chip_id_addr mod psz) psz ((k + chip_id_addr mod psz) div 4) =
    Some (phys (chip_id_addr + k))"
proof -
  have "4 dvd chip_id_addr" by (simp add: chip_id_addr_def)
  with assms(1) have d: "4 dvd chip_id_addr mod psz" by (simp add: dvd_mod_iff)
  then have "4 * ((k + chip_id_addr mod psz) div 4) = k + chip_id_addr mod psz"
    using assms(3) by auto
  moreover have "chip_id_addr mod psz \<le> chip_id_addr" by simp
  ultimately show ?thesis using assms(2, 3) by (auto simp: mapped_word_def)
qed

lemma read_chipid_words:
  assumes "4 dvd psz" "chip_id_addr mod psz + 16 \<le> psz"
  shows "read_chipid phys (chip_id_addr - chip_id_addr mod psz) psz (chip_id_addr mod psz) =
    Some (List.map (\<lambda>k. phys (chip_id_addr + k)) [0, 4, 8, 12])"
  unfolding read_chipid_def list.map using assms by (subst chip_word, simp, simp, simp)+ simp

text \<open>The page holds the registers: then the four words of the chip are printed and nothing is kept.\<close>

lemma chip_id_printed:
  assumes "4 dvd psz" "chip_id_addr mod psz + 16 \<le> psz"
    and open_ok: "\<forall>h. 0 \<le> uret E h (Open ''/dev/mem'')"
    and mmap_ok: "\<forall>h f l p. uret E h (Mmap f l p) \<noteq> - 1"
    and R: "ures_state (ulog s) = Some R"
  shows "result (ex_memory_oriented (uapi E) psz phys) s =
      Some (0, chipid_line (List.map (\<lambda>k. phys (chip_id_addr + k)) [0, 4, 8, 12]))"
    and "ures_state (ulog (exec (ex_memory_oriented (uapi E) psz phys) s)) = Some R"
  using open_ok [rule_format, of "ulog s"] mmap_ok R
  by (simp_all add: ex_memory_oriented_def upath_simps read_chipid_words [OF assms(1,2)] not_less [symmetric]
      add_mset_commute del: exec_uapi)

text \<open>The mapping fails: the program returns with the descriptor still open.\<close>

lemma chip_id_leak:
  assumes "0 \<le> uret E (ulog s) (Open ''/dev/mem'')" "\<forall>h f l p. uret E h (Mmap f l p) = - 1"
    and "ures_state (ulog s) = Some R"
  shows "result (ex_memory_oriented (uapi E) psz phys) s = Some (1, [])"
    and "ures_state (ulog (exec (ex_memory_oriented (uapi E) psz phys) s)) =
      Some (add_mset (U_fd (uret E (ulog s) (Open ''/dev/mem''))) R)"
  using assms by (simp_all add: ex_memory_oriented_def upath_simps not_less [symmetric] del: exec_uapi)

end
