(* ===== verification/Processes.thy ===== *)
theory Processes
  imports CFormat UserApi
begin

section \<open>Processes, memory and processor time: \<open>04-multiprocessing\<close>\<close>

text \<open>
  \<open>process.c\<close>: the two processes that exchange messages over a socket pair, as a step
  relation in which they run in any order; \<open>cgroups.c\<close>: the allocation of memory up to
  the limit of a control group; \<open>max-cpu.c\<close>: the arithmetic of the busy loop. The names
  \<^emph>\<open>reader\<close> and \<^emph>\<open>writer\<close> are used for the two processes: the reader is the
  process in which \<open>fork\<close> returned 0, that is the child, which the source calls the parent.
\<close>

subsection \<open>Signals\<close>

datatype signal = SIGHUP | SIGINT | SIGQUIT | SIGTERM | SIGABRT

text \<open>The line printed, and whether the process exits.\<close>

fun catch_signal :: "signal \<Rightarrow> string \<times> bool" where
  "catch_signal SIGHUP = (''SIGHUP received'' @ nl, False)"
| "catch_signal SIGINT = (''SIGINT received'' @ nl, True)"
| "catch_signal SIGQUIT = (''SIGQUIT received'' @ nl, False)"
| "catch_signal SIGTERM = (''SIGTERM received'' @ nl, False)"
| "catch_signal SIGABRT = (''SIGABRT received'' @ nl, False)"

text \<open>\<open>install_catch_signal\<close>: the signals that have the handler.\<close>

definition install_catch_signal :: "signal \<Rightarrow> (signal \<Rightarrow> string \<times> bool) option" where
  "install_catch_signal = Map.empty(SIGHUP \<mapsto> catch_signal, SIGINT \<mapsto> catch_signal, SIGQUIT \<mapsto> catch_signal,
     SIGTERM \<mapsto> catch_signal, SIGABRT \<mapsto> catch_signal)"

text \<open>
  \<open>kill (getpid (), s)\<close>: the handler runs before the call returns; a signal without a
  handler ends the process. The result says that the process is gone.
\<close>

fun kill_self :: "(signal \<Rightarrow> (signal \<Rightarrow> string \<times> bool) option) \<Rightarrow> signal list \<Rightarrow> string list \<Rightarrow> string list \<times> bool" where
  "kill_self handlers [] out = (out, False)"
| "kill_self handlers (s # ss) out = (case handlers s of
     None \<Rightarrow> (out, True)
   | Some h \<Rightarrow> (case h s of (line, gone) \<Rightarrow>
       if gone then (out @ [line], True) else kill_self handlers ss (out @ [line])))"

definition signal_test :: "string list \<Rightarrow> string list \<times> bool" where
  "signal_test out = kill_self install_catch_signal [SIGHUP, SIGQUIT, SIGTERM, SIGABRT, SIGINT] out"

subsection \<open>Starting the two processes\<close>

definition NBR_MSG :: nat where "NBR_MSG = 5"

text \<open>The bytes of the texts in the encoding of the source, UTF-8.\<close>

definition MSG :: "string list" where
  "MSG = [''Hallo, hallo !'',
     [CHR 0xC3, CHR 0xA7] @ ''a geht !'',
     ''Comment vont les olives ?'',
     ''Sacr'' @ [CHR 0xC3, CHR 0xA9] @ '' trucs tes trucs l'' @ [CHR 0xC3, CHR 0xA0] @ ''.'',
     ''Ta o'' @ [CHR 0xC3, CHR 0xB9] @ '' les vaches !!!!!'']"

datatype process_role =
    Failed            \<comment> \<open>\<open>exit (EXIT_FAILURE)\<close>\<close>
  | Reader nat        \<comment> \<open>reads, bound to this processor\<close>
  | Writer nat        \<comment> \<open>writes, bound to this processor\<close>

text \<open>
  What \<open>main\<close> does up to the exchange, in one process: the results of \<open>socketpair\<close>,
  \<open>fork\<close> and \<open>sched_setaffinity\<close> in that process.
\<close>

definition process_start :: "int \<Rightarrow> int \<Rightarrow> int \<Rightarrow> process_role" where
  "process_start err pid aff =
     (if err = - 1 then Failed
      else if pid = 0 then (if aff = - 1 then Failed else Reader 0)
      else if 0 < pid then (if aff = - 1 then Failed else Writer 1)
      else Failed)"

subsection \<open>The exchange\<close>

text \<open>
  The bytes under way in the stream, how many messages each side has handled, the
  reader's buffer of 100 characters and what it has printed.
\<close>

record exchange =
  stream :: string
  written :: nat
  got :: nat
  buffer :: string
  printed :: "string list"

text \<open>A string argument ends at the first NUL; without one \<open>printf\<close> leaves the buffer.\<close>

definition c_string :: "string \<Rightarrow> string option" where
  "c_string b = (if CHR 0x00 \<in> set b then Some (takeWhile (\<lambda>c. c \<noteq> CHR 0x00) b) else None)"

definition message_line :: "nat \<Rightarrow> string \<Rightarrow> string" where
  "message_line i txt = ''Message '' @ show_nat i @ '': '' @ txt @ nl"

text \<open>One pass of the writer's loop; a blocking write of a short message is atomic.\<close>

definition write_message :: "exchange \<Rightarrow> exchange" where
  "write_message s = s\<lparr>stream := stream s @ MSG ! written s, written := Suc (written s)\<rparr>"

text \<open>
  One pass of the reader's loop, once there are bytes: at most \<open>strlen (MSG[i])\<close> of them
  reach the buffer, which is printed and cleared.
\<close>

definition read_message :: "exchange \<Rightarrow> exchange option" where
  "read_message s =
     (let d = take (length (MSG ! got s)) (stream s);
          b = d @ drop (length d) (buffer s)
      in map_option (\<lambda>txt. s\<lparr>stream := drop (length d) (stream s), got := Suc (got s),
             buffer := replicate (length (buffer s)) CHR 0x00,
             printed := printed s @ [message_line (got s) txt]\<rparr>) (c_string b))"

inductive exchange_step :: "exchange \<Rightarrow> exchange \<Rightarrow> bool" where
  writes: "written s < NBR_MSG \<Longrightarrow> exchange_step s (write_message s)"
| reads: "got s < NBR_MSG \<Longrightarrow> stream s \<noteq> [] \<Longrightarrow> read_message s = Some t \<Longrightarrow> exchange_step s t"

code_pred exchange_step .

inductive_cases exchange_stepE: "exchange_step s t"

text \<open>The buffer is not initialised: its contents when the program starts are a parameter.\<close>

definition exchange_start :: "string \<Rightarrow> exchange" where
  "exchange_start junk = \<lparr>stream = [], written = 0, got = 0, buffer = junk, printed = []\<rparr>"

text \<open>What is printed in the \<open>i\<close>-th place: the first message is followed by what was in the buffer.\<close>

definition seen_text :: "string \<Rightarrow> nat \<Rightarrow> string" where
  "seen_text junk i = MSG ! i @
     (if i = 0 then takeWhile (\<lambda>c. c \<noteq> CHR 0x00) (drop (length (MSG ! 0)) junk) else [])"

definition exchange_inv :: "string \<Rightarrow> exchange \<Rightarrow> bool" where
  "exchange_inv junk s \<longleftrightarrow> got s \<le> written s \<and> written s \<le> NBR_MSG \<and>
     stream s = concat (List.map ((!) MSG) [got s..<written s]) \<and>
     buffer s = (if got s = 0 then junk else replicate 100 CHR 0x00) \<and>
     printed s = List.map (\<lambda>i. message_line i (seen_text junk i)) [0..<got s]"

text \<open>A buffer on which the first \<open>printf\<close> stays inside.\<close>

definition junk_ok :: "string \<Rightarrow> bool" where
  "junk_ok junk \<longleftrightarrow> length junk = 100 \<and> CHR 0x00 \<in> set (drop (length (MSG ! 0)) junk)"

lemma MSG_length: "length MSG = NBR_MSG"
  by (simp add: MSG_def NBR_MSG_def)

lemma MSG_texts: "i < NBR_MSG \<Longrightarrow> CHR 0x00 \<notin> set (MSG ! i) \<and> MSG ! i \<noteq> [] \<and> length (MSG ! i) < 100"
proof -
  have "\<forall>m \<in> set MSG. CHR 0x00 \<notin> set m \<and> m \<noteq> [] \<and> length m < 100" by code_simp
  then show "i < NBR_MSG \<Longrightarrow> ?thesis" by (metis MSG_length nth_mem)
qed

lemma c_string_text:
  "CHR 0x00 \<notin> set m \<Longrightarrow> CHR 0x00 \<in> set r \<Longrightarrow> c_string (m @ r) = Some (m @ takeWhile (\<lambda>c. c \<noteq> CHR 0x00) r)"
  unfolding c_string_def by (subst takeWhile_append2) auto

lemma exchange_start_inv: "exchange_inv junk (exchange_start junk)"
  by (simp add: exchange_inv_def exchange_start_def)

lemma write_inv: "exchange_inv junk s \<Longrightarrow> written s < NBR_MSG \<Longrightarrow> exchange_inv junk (write_message s)"
  by (simp add: exchange_inv_def write_message_def)

text \<open>In a state of the invariant with bytes under way the next message is there as a whole.\<close>

lemma next_message:
  assumes inv: "exchange_inv junk s" and some: "stream s \<noteq> []"
  shows "got s < written s" and "take (length (MSG ! got s)) (stream s) = MSG ! got s"
    and "drop (length (MSG ! got s)) (stream s) = concat (List.map ((!) MSG) [Suc (got s)..<written s])"
proof -
  show lt: "got s < written s" using assms by (cases "got s < written s") (auto simp: exchange_inv_def)
  have "stream s = MSG ! got s @ concat (List.map ((!) MSG) [Suc (got s)..<written s])"
    using inv lt by (simp add: exchange_inv_def upt_conv_Cons)
  then show "take (length (MSG ! got s)) (stream s) = MSG ! got s"
    "drop (length (MSG ! got s)) (stream s) = concat (List.map ((!) MSG) [Suc (got s)..<written s])"
    by simp_all
qed

lemma read_next:
  assumes inv: "exchange_inv junk s" and junk: "junk_ok junk" and some: "stream s \<noteq> []"
  obtains t where "read_message s = Some t" and "exchange_inv junk t" and "got t = Suc (got s)" and "written t = written s"
proof -
  note nxt = next_message [OF inv some]
  have small: "got s < NBR_MSG" using inv nxt(1) by (simp add: exchange_inv_def)
  note m = MSG_texts [OF small]
  let ?r = "drop (length (MSG ! got s)) (buffer s)"
  have len: "length (buffer s) = 100" using inv junk by (simp add: exchange_inv_def junk_ok_def)
  have nul: "CHR 0x00 \<in> set ?r" using inv junk m by (auto simp: exchange_inv_def junk_ok_def)
  have tw: "takeWhile (\<lambda>c. c \<noteq> CHR 0x00) ?r =
      (if got s = 0 then takeWhile (\<lambda>c. c \<noteq> CHR 0x00) (drop (length (MSG ! 0)) junk) else [])"
    using inv m by (auto simp: exchange_inv_def takeWhile_eq_Nil_iff)
  let ?t = "s\<lparr>stream := drop (length (MSG ! got s)) (stream s), got := Suc (got s),
      buffer := replicate 100 CHR 0x00,
      printed := printed s @ [message_line (got s) (seen_text junk (got s))]\<rparr>"
  have "read_message s = Some ?t"
    using m nul tw len by (simp add: read_message_def nxt(2) c_string_text seen_text_def Let_def)
  moreover have "exchange_inv junk ?t" using inv nxt by (simp add: exchange_inv_def)
  ultimately show thesis by (rule that) simp_all
qed

lemma exchange_reachable_inv:
  assumes "exchange_step\<^sup>*\<^sup>* (exchange_start junk) s" and "junk_ok junk"
  shows "exchange_inv junk s"
  using assms(1)
proof (induction rule: rtranclp_induct)
  case (step s t)
  from step(2) show ?case
  proof (cases rule: exchange_step.cases)
    case writes
    with step(3) show ?thesis by (simp add: write_inv)
  next
    case reads
    from read_next [OF step(3) assms(2) reads(2)] reads(3) show ?thesis by (metis option.inject)
  qed
qed (rule exchange_start_inv)

lemma exchange_progress:
  assumes "exchange_inv junk s" "junk_ok junk" "\<not> (written s = NBR_MSG \<and> got s = NBR_MSG)"
  shows "\<exists>t. exchange_step s t"
proof (cases "written s < NBR_MSG")
  case True
  then show ?thesis by (auto intro: exchange_step.writes)
next
  case False
  with assms(1,3) have lt: "got s < NBR_MSG" "got s < written s" by (auto simp: exchange_inv_def)
  then have "stream s \<noteq> []" using assms(1) MSG_texts [OF lt(1)]
    by (simp add: exchange_inv_def upt_conv_Cons)
  with lt show ?thesis by (meson assms(1,2) exchange_step.reads read_next)
qed

text \<open>Each step handles a message, so that a run has at most ten steps.\<close>

lemma exchange_step_counts:
  "exchange_step s t \<Longrightarrow> written t + got t = Suc (written s + got s)"
  by (erule exchange_stepE) (auto simp: write_message_def read_message_def Let_def)

subsection \<open>\<open>cgroups.c\<close>\<close>

definition NUM_BLOCKS :: nat where "NUM_BLOCKS = 50"
definition BLOCK_SIZE :: nat where "BLOCK_SIZE = 1024 * 1024"

fun free_blocks :: "(ucall \<Rightarrow> ('w, int) state) \<Rightarrow> int list \<Rightarrow> ('w, unit) state" where
  "free_blocks U [] = ret ()"
| "free_blocks U (b # bs) = do { uvoid (U (Free b)); free_blocks U bs }"

text \<open>
  The loop with \<open>n\<close> passes to go and the blocks allocated before: \<open>Inl\<close> is the
  return with status 1, in which all of them have been freed.
\<close>

fun fill_blocks :: "(ucall \<Rightarrow> ('w, int) state) \<Rightarrow> nat \<Rightarrow> int list \<Rightarrow> ('w, int + int list) state" where
  "fill_blocks U 0 blocks = ret (Inr blocks)"
| "fill_blocks U (Suc n) blocks = do {
     b \<leftarrow> U (Malloc BLOCK_SIZE);
     if b = 0 then do {
       free_blocks U blocks;
       ret (Inl 1)
     } else do {
       uvoid (U (Usleep 100000));
       fill_blocks U n (blocks @ [b])
     }
   }"

definition cgroups_main :: "(ucall \<Rightarrow> ('w, int) state) \<Rightarrow> ('w, int) state" where
  "cgroups_main U = do {
     r \<leftarrow> fill_blocks U NUM_BLOCKS [];
     (case r of
        Inl status \<Rightarrow> ret status
      | Inr blocks \<Rightarrow> do { free_blocks U blocks; ret 0 })
   }"

text \<open>The blocks that the program owns beside what it owned before.\<close>

abbreviation owned_blocks :: "int list \<Rightarrow> ures multiset" where
  "owned_blocks bs \<equiv> image_mset U_mem (mset bs)"

lemma free_blocks_resources:
  assumes "ures_state (ulog s) = Some (R + owned_blocks bs)" and "0 \<notin> set bs"
  shows "ures_state (ulog (exec (free_blocks (uapi E) bs) s)) = Some R"
  using assms by (induction bs arbitrary: s) (simp_all add: upath_simps del: exec_uapi)

lemma fill_blocks_resources:
  assumes "ures_state (ulog s) = Some (R + owned_blocks bs)" and "0 \<notin> set bs"
  shows "case result (fill_blocks (uapi E) n bs) s of
      Inl st \<Rightarrow> st = 1 \<and> ures_state (ulog (exec (fill_blocks (uapi E) n bs) s)) = Some R
    | Inr bs' \<Rightarrow> 0 \<notin> set bs' \<and> length bs' = length bs + n \<and>
        ures_state (ulog (exec (fill_blocks (uapi E) n bs) s)) = Some (R + owned_blocks bs')"
  using assms
proof (induction n arbitrary: bs s)
  case (Suc n)
  let ?b = "uret E (ulog s) (Malloc BLOCK_SIZE)"
  let ?s1 = "exec (uapi E (Malloc BLOCK_SIZE)) s"
  show ?case
  proof (cases "?b = 0")
    case True
    then have "ures_state (ulog ?s1) = Some (R + owned_blocks bs)" using Suc.prems(1) by (simp add: ulog_uapi del: exec_uapi)
    from free_blocks_resources [OF this Suc.prems(2)] True show ?thesis
      by (simp add: upath_simps del: exec_uapi)
  next
    case False
    let ?s2 = "exec (uapi E (Usleep 100000)) ?s1"
    have "ures_state (ulog ?s2) = Some (R + owned_blocks (bs @ [?b]))"
      using Suc.prems(1) False by (simp add: ulog_uapi del: exec_uapi)
    from Suc.IH [OF this] Suc.prems(2) False show ?thesis
      by (simp add: upath_simps del: exec_uapi split: sum.splits)
  qed
qed simp

lemma cgroups_main_resources:
  assumes "ures_state (ulog s) = Some R"
  shows "result (cgroups_main (uapi E)) s \<in> {0, 1}"
    and "ures_state (ulog (exec (cgroups_main (uapi E)) s)) = Some R"
proof -
  let ?r = "result (fill_blocks (uapi E) NUM_BLOCKS []) s" and ?t = "exec (fill_blocks (uapi E) NUM_BLOCKS []) s"
  have fill: "case ?r of Inl st \<Rightarrow> st = 1 \<and> ures_state (ulog ?t) = Some R
      | Inr bs' \<Rightarrow> 0 \<notin> set bs' \<and> length bs' = NUM_BLOCKS \<and> ures_state (ulog ?t) = Some (R + owned_blocks bs')"
    using fill_blocks_resources [where bs = "[]" and n = NUM_BLOCKS and R = R and s = s and E = E] assms
    by (simp split: sum.splits)
  show "result (cgroups_main (uapi E)) s \<in> {0, 1}"
    using fill by (simp add: cgroups_main_def result_bind result_exec_basic split: sum.splits)
  show "ures_state (ulog (exec (cgroups_main (uapi E)) s)) = Some R"
    using fill by (auto simp: cgroups_main_def exec_bind result_exec_basic free_blocks_resources split: sum.splits)
qed

subsection \<open>\<open>max-cpu.c\<close>\<close>

text \<open>One pass of the loop on the \<open>unsigned long\<close> counter; \<open>None\<close> is the division by zero.\<close>

definition cpu_pass :: "u64 \<Rightarrow> u64 option" where
  "cpu_pass counter =
     (let c = counter + 1; d = c * 1023
      in if d = 0 then None else Some ((c * c + c) mod d))"

datatype cpu_mode =
    Usage_error        \<comment> \<open>usage printed, status 1\<close>
  | Single             \<comment> \<open>the loop in this process\<close>
  | Dual_loop string   \<comment> \<open>after \<open>fork\<close>: the loop, under this name\<close>
  | Fork_error         \<comment> \<open>status 1\<close>

definition max_cpu_main :: "string list \<Rightarrow> int \<Rightarrow> cpu_mode" where
  "max_cpu_main argv pid =
     (if 1 < length argv \<and> argv ! 1 \<noteq> ''--dual'' \<and> argv ! 1 \<noteq> ''--single'' then Usage_error
      else if 1 < length argv \<and> argv ! 1 = ''--dual'' then
        (if pid = 0 then Dual_loop ''Child process''
         else if 0 < pid then Dual_loop ''Parent process''
         else Fork_error)
      else Single)"

text \<open>1023 is odd, so that the divisor is zero only when the counter wrapped to zero.\<close>

lemma cpu_pass_fault: "cpu_pass c = None \<longleftrightarrow> c = - 1"
proof -
  have inv: "(1023 :: u64) * 1154048505100108801 = - 1" by simp
  have "c + 1 = 0" if "(c + 1) * 1023 = 0"
  proof -
    have "(c + 1) * 1023 * 1154048505100108801 = 0" using that by simp
    then have "(c + 1) * (- 1) = 0" unfolding mult.assoc inv .
    then show ?thesis by (simp only: mult_minus1_right neg_equal_0_iff_equal)
  qed
  moreover have "(c + 1) * 1023 = 0" if "c + 1 = 0" unfolding that by simp
  ultimately have "(c + 1) * 1023 = 0 \<longleftrightarrow> c = - 1" unfolding eq_neg_iff_add_eq_0 by blast
  then show ?thesis unfolding cpu_pass_def Let_def by simp
qed

end
