(* ===== verification/Procstat.thy ===== *)
theory Procstat
  imports CFormat
begin

section \<open>\<open>procstat\<close>: the status of a process in readable form\<close>

text \<open>
  \<open>procstat.c\<close> of the module solutions reads the fields of \<open>/proc/<pid>/stat\<close> into its
  global variables with one \<open>fscanf\<close> each and prints them with their names. The variables
  are a store by name; the sequence of reads and the sequence of prints are the two tables
  \<open>stat_reads\<close> and \<open>stat_prints\<close>, run by \<open>run_reads\<close> and \<open>print_all\<close>. The
  text of floating-point numbers and of dates is a parameter. Lemmas: the fields of a line are
  read into their variables, numbers of any size clamped to the range of the conversion, and
  further fields are left in the input, provided that the name of the command has no white
  space; with white space in it, every number after it stays 0.
\<close>

subsection \<open>The variables\<close>

datatype cell =
    Num s64        \<comment> \<open>\<open>num\<close>, and the bits of \<open>unsigned long long\<close>\<close>
  | Str string
  | Chr char

type_synonym store = "string \<Rightarrow> cell"

text \<open>Globals are zero before \<open>main\<close>.\<close>

definition procstat_statics :: store where
  "procstat_statics v = (if v = ''tcomm'' then Str [] else if v = ''state'' then Chr (CHR 0x00) else Num 0)"

definition PATH_MAX :: nat where "PATH_MAX = 4096"

subsection \<open>\<open>fscanf\<close>\<close>

text \<open>
  An integer and the white space after it: the value and the rest of the input. Without
  digits nothing is stored, and the input stays after the white space and a sign.
\<close>

definition scan_field :: "string \<Rightarrow> int option \<times> string" where
  "scan_field s = (case scan_sign (dropWhile is_space s) of (neg, r) \<Rightarrow>
     let ds = takeWhile is_digit r
     in if ds = [] then (None, r)
        else (Some (if neg then - int (dec_value ds) else int (dec_value ds)), dropWhile is_space (dropWhile is_digit r)))"

definition clamp_ulong :: "int \<Rightarrow> int" where
  "clamp_ulong k = (if 2 ^ 64 \<le> \<bar>k\<bar> then 2 ^ 64 - 1 else k)"

datatype field_reader = Readone | Readunsigned | Readstr | Readchar

text \<open>One read: the store and the rest of the input; \<open>None\<close> is a text too long for \<open>tcomm\<close>.\<close>

fun readone :: "string \<Rightarrow> string \<times> store \<Rightarrow> string \<times> store" where
  "readone x (inp, g) = (case scan_field inp of
     (None, r) \<Rightarrow> (r, g)
   | (Some k, r) \<Rightarrow> (r, g(x := Num (word_of_int (clamp_long k)))))"

fun readunsigned :: "string \<Rightarrow> string \<times> store \<Rightarrow> string \<times> store" where
  "readunsigned x (inp, g) = (case scan_field inp of
     (None, r) \<Rightarrow> (r, g)
   | (Some k, r) \<Rightarrow> (r, g(x := Num (word_of_int (clamp_ulong k)))))"

fun readstr :: "string \<Rightarrow> string \<times> store \<Rightarrow> (string \<times> store) option" where
  "readstr x (inp, g) =
     (let r = dropWhile is_space inp; w = takeWhile (\<lambda>c. \<not> is_space c) r
      in if w = [] then Some (r, g)
         else if length w < PATH_MAX
           then Some (dropWhile is_space (dropWhile (\<lambda>c. \<not> is_space c) r), g(x := Str w))
           else None)"

fun readchar :: "string \<Rightarrow> string \<times> store \<Rightarrow> string \<times> store" where
  "readchar x ([], g) = ([], g)"
| "readchar x (c # inp, g) = (dropWhile is_space inp, g(x := Chr c))"

fun read_field :: "field_reader \<times> string \<Rightarrow> string \<times> store \<Rightarrow> (string \<times> store) option" where
  "read_field (Readone, x) s = Some (readone x s)"
| "read_field (Readunsigned, x) s = Some (readunsigned x s)"
| "read_field (Readstr, x) s = readstr x s"
| "read_field (Readchar, x) s = Some (readchar x s)"

fun run_reads :: "(field_reader \<times> string) list \<Rightarrow> string \<times> store \<Rightarrow> (string \<times> store) option" where
  "run_reads [] s = Some s"
| "run_reads (f # fs) s = Option.bind (read_field f s) (run_reads fs)"

definition stat_reads :: "(field_reader \<times> string) list" where
  "stat_reads = [(Readone, ''pid''), (Readstr, ''tcomm''), (Readchar, ''state'')] @
     List.map (Pair Readone) [''ppid'', ''pgid'', ''sid'', ''tty_nr'', ''tty_pgrp'', ''flags'', ''min_flt'', ''cmin_flt'',
       ''maj_flt'', ''cmaj_flt'', ''utime'', ''stimev'', ''cutime'', ''cstime'', ''priority'', ''nicev'',
       ''num_threads'', ''it_real_value''] @
     [(Readunsigned, ''start_time'')] @
     List.map (Pair Readone) [''vsize'', ''rss'', ''rsslim'', ''start_code'', ''end_code'', ''start_stack'', ''esp'', ''eip'',
       ''pending'', ''blocked'', ''sigign'', ''sigcatch'', ''wchan'', ''zero1'', ''zero2'', ''exit_signal'',
       ''cpu'', ''rt_priority'', ''policy'']"

subsection \<open>Printing\<close>

text \<open>\<open>%20s\<close>: at least 20 characters, filled on the left.\<close>

definition pad20 :: "string \<Rightarrow> string" where
  "pad20 s = replicate (20 - length s) CHR '' '' @ s"

text \<open>
  What the printing takes from outside: the ticks of a second, the text of \<open>%f\<close> of
  \<open>(double) x / tickspersec\<close>, the two numbers of \<open>/proc/uptime\<close>, the time and its
  text by \<open>strftime\<close>.
\<close>

record stat_env =
  tickspersec :: s64
  fmt_ticks :: "s64 \<Rightarrow> string"
  uptime :: "i32 \<times> i32"
  now :: s64
  fmt_date :: "s64 \<Rightarrow> string"

definition gettimesinceboot :: "stat_env \<Rightarrow> i32" where
  "gettimesinceboot V = ucast (scast (fst (uptime V)) * tickspersec V + scast (snd (uptime V)))"

definition fmt_lu :: "u64 \<Rightarrow> string" where
  "fmt_lu w = show_nat (unat w)"

datatype field_printer = Printone | Printonex | Printstr | Printchar | Printtime | Printtimediff

definition printtimediff :: "stat_env \<Rightarrow> string \<Rightarrow> s64 \<Rightarrow> string" where
  "printtimediff V name x =
     (let sinceboot = gettimesinceboot V;
          running = ucast (scast sinceboot - x) :: i32;
          rt = now V - sdiv64 (scast running) (tickspersec V)
      in pad20 name @ '': '' @ fmt_date V rt @ '' ('' @ fmt_lu (sdiv64 (scast running) (tickspersec V)) @ ''.'' @
         fmt_lu (smod64 (scast running) (tickspersec V)) @ ''s)'' @ nl)"

definition as_num :: "cell \<Rightarrow> s64" where
  "as_num v = (case v of Num w \<Rightarrow> w | _ \<Rightarrow> 0)"

definition as_str :: "cell \<Rightarrow> string" where
  "as_str v = (case v of Str s \<Rightarrow> s | Chr c \<Rightarrow> [c] | Num _ \<Rightarrow> [])"

fun print_field :: "stat_env \<Rightarrow> store \<Rightarrow> field_printer \<times> string \<times> string \<Rightarrow> string" where
  "print_field V g (Printone, name, x) = pad20 name @ '': '' @ fmt_lld (as_num (g x)) @ nl"
| "print_field V g (Printonex, name, x) = pad20 name @ '': '' @ hex_digits 16 (unat (as_num (g x))) @ nl"
| "print_field V g (Printstr, name, x) = pad20 name @ '': '' @ as_str (g x) @ nl"
| "print_field V g (Printchar, name, x) = pad20 name @ '': '' @ as_str (g x) @ nl"
| "print_field V g (Printtime, name, x) = pad20 name @ '': '' @ fmt_ticks V (as_num (g x)) @ nl"
| "print_field V g (Printtimediff, name, x) = printtimediff V name (as_num (g x))"

definition same_name :: "field_printer \<Rightarrow> string list \<Rightarrow> (field_printer \<times> string \<times> string) list" where
  "same_name p xs = List.map (\<lambda>x. (p, x, x)) xs"

definition stat_prints :: "(field_printer \<times> string \<times> string) list" where
  "stat_prints =
     [(Printone, ''pid'', ''pid''), (Printstr, ''tcomm'', ''tcomm''), (Printchar, ''state'', ''state'')] @
     same_name Printone [''ppid'', ''pgid'', ''sid'', ''tty_nr'', ''tty_pgrp'', ''flags'', ''min_flt'', ''cmin_flt'',
       ''maj_flt'', ''cmaj_flt''] @
     [(Printtime, ''utime'', ''utime''), (Printtime, ''stime'', ''stimev''), (Printtime, ''cutime'', ''cutime''),
      (Printtime, ''cstime'', ''cstime''), (Printone, ''priority'', ''priority''), (Printone, ''nice'', ''nicev''),
      (Printone, ''num_threads'', ''num_threads''), (Printtime, ''it_real_value'', ''it_real_value''),
      (Printtimediff, ''start_time'', ''start_time'')] @
     same_name Printone [''vsize'', ''rss'', ''rsslim'', ''start_code'', ''end_code'', ''start_stack'', ''esp'', ''eip''] @
     same_name Printonex [''pending'', ''blocked'', ''sigign'', ''sigcatch''] @
     same_name Printone [''wchan'', ''zero1'', ''zero2''] @
     same_name Printonex [''exit_signal''] @
     same_name Printone [''cpu'', ''rt_priority'', ''policy'']"

definition print_all :: "stat_env \<Rightarrow> store \<Rightarrow> string list" where
  "print_all V g = List.map (print_field V g) stat_prints"

subsection \<open>\<open>main\<close>\<close>

text \<open>
  The input is the file \<open>stat\<close> of the directory \<open>/proc/<pid>\<close> named by the argument,
  standard input without one; the file system is a parameter. The result: the status and
  the lines, \<open>None\<close> when \<open>tcomm\<close> overflows.
\<close>

definition procstat_main ::
  "stat_env \<Rightarrow> (string \<Rightarrow> string option) \<Rightarrow> string \<Rightarrow> string list \<Rightarrow> (int \<times> string list) option" where
  "procstat_main V proc_stat stdin argv =
     (let input = (if 1 < length argv then proc_stat (argv ! 1) else Some stdin)
      in case input of
           None \<Rightarrow> Some (1, [])
         | Some inp \<Rightarrow> map_option (\<lambda>(rest, g). (0, print_all V g)) (run_reads stat_reads (inp, procstat_statics)))"

subsection \<open>Reading back\<close>

text \<open>
  A field of the file: a number of any size and sign, a text, or a letter. The kernel writes
  the fields with a space between them and a newline after the last.
\<close>

datatype item = Number int | Text string | Letter char

fun item_text :: "item \<Rightarrow> string" where
  "item_text (Number k) = show_int k"
| "item_text (Text s) = s"
| "item_text (Letter c) = [c]"

fun item_line :: "item list \<Rightarrow> string" where
  "item_line [] = []"
| "item_line (v # vs) = item_text v @ (if vs = [] then nl else CHR '' '' # item_line vs)"

text \<open>The fields that a read gets past, and what it leaves in its variable.\<close>

fun fits :: "field_reader \<times> string \<Rightarrow> item \<Rightarrow> bool" where
  "fits (Readone, x) (Number k) = True"
| "fits (Readunsigned, x) (Number k) = True"
| "fits (Readstr, x) (Text s) = (s \<noteq> [] \<and> (\<forall>c \<in> set s. \<not> is_space c) \<and> length s < PATH_MAX)"
| "fits (Readchar, x) (Letter c) = (\<not> is_space c)"
| "fits _ _ = False"

fun stored :: "field_reader \<times> string \<Rightarrow> item \<Rightarrow> cell" where
  "stored (Readunsigned, x) (Number k) = Num (word_of_int (clamp_ulong k))"
| "stored (_, x) (Number k) = Num (word_of_int (clamp_long k))"
| "stored _ (Text s) = Str s"
| "stored _ (Letter c) = Chr c"

lemma scan_field_int:
  assumes "nondigit_start r"
  shows "scan_field (show_int k @ r) = (Some k, dropWhile is_space r)"
proof (cases "k < 0")
  case True
  let ?n = "nat (- k)"
  have "takeWhile is_digit (show_nat ?n @ r) = show_nat ?n" "dropWhile is_digit (show_nat ?n @ r) = r"
    using takeWhile_digits [OF show_nat_digits assms] by simp_all
  moreover have "\<not> is_space CHR ''-''" by code_simp
  ultimately show ?thesis using True by (simp add: scan_field_def show_int_def Let_def)
next
  case False
  let ?n = "nat k"
  have "takeWhile is_digit (show_nat ?n @ r) = show_nat ?n" "dropWhile is_digit (show_nat ?n @ r) = r"
    using takeWhile_digits [OF show_nat_digits assms] by simp_all
  moreover have "dropWhile is_space (show_nat ?n @ r) = show_nat ?n @ r"
    by (rule skip_space_digits) (simp_all add: show_nat_digits)
  moreover have "scan_sign (show_nat ?n @ r) = (False, show_nat ?n @ r)"
    by (rule scan_sign_digits) (simp_all add: show_nat_digits)
  ultimately show ?thesis using False by (simp add: scan_field_def show_int_def Let_def)
qed

definition starts_word :: "string \<Rightarrow> bool" where
  "starts_word s \<longleftrightarrow> (case s of [] \<Rightarrow> True | c # _ \<Rightarrow> \<not> is_space c)"

lemma skip_to_word [simp]: "starts_word s \<Longrightarrow> dropWhile is_space s = s"
  by (cases s) (simp_all add: starts_word_def)

lemma read_item:
  assumes "fits f v" and sep: "is_space c" and tail: "starts_word tail"
  shows "read_field f (item_text v @ c # tail, g) = Some (tail, g(snd f := stored f v))"
proof -
  have "\<not> is_digit c" using sep digit_not_space by blast
  then have nd: "nondigit_start (c # tail)" by simp
  have skip: "dropWhile is_space (c # tail) = tail" using sep tail by simp
  show ?thesis
  proof (cases "(f, v)" rule: fits.cases)
    case (3 x t)
    then have t: "t \<noteq> []" "\<forall>c \<in> set t. \<not> is_space c" "length t < PATH_MAX" using assms(1) by simp_all
    then have "dropWhile is_space (t @ c # tail) = t @ c # tail" by (cases t) simp_all
    moreover have "takeWhile (\<lambda>c. \<not> is_space c) (t @ c # tail) = t"
      "dropWhile (\<lambda>c. \<not> is_space c) (t @ c # tail) = c # tail"
      using t sep by simp_all
    ultimately show ?thesis using 3 t skip by (simp add: Let_def)
  qed (use assms skip scan_field_int [OF nd] in auto)
qed

lemma show_nat_start: "\<exists>c r. show_nat n = c # r \<and> is_digit c"
  using show_nat_nonempty [of n] show_nat_digits [of n] by (cases "show_nat n") auto

lemma show_int_start: "starts_word (show_int k @ r)"
proof (cases "k < 0")
  case True
  moreover have "\<not> is_space CHR ''-''" by code_simp
  ultimately show ?thesis by (simp add: starts_word_def show_int_def)
next
  case False
  obtain c q where "show_nat (nat k) = c # q" "is_digit c" using show_nat_start by blast
  with False show ?thesis by (simp add: starts_word_def show_int_def)
qed

lemma item_starts_word: "fits f v \<Longrightarrow> starts_word (item_text v @ r)"
proof (cases "(f, v)" rule: fits.cases)
  case (3 x t)
  then show "fits f v \<Longrightarrow> ?thesis" by (cases t) (auto simp: starts_word_def)
qed (auto simp: show_int_start, auto simp: starts_word_def)

lemma item_line_starts:
  "list_all2 fits fs vs \<Longrightarrow> starts_word (item_line others) \<Longrightarrow> starts_word (item_line (vs @ others))"
  by (cases vs) (auto simp: list_all2_Cons2 item_starts_word)

lemma number_line_starts: "starts_word (item_line (List.map Number ks))"
  by (cases ks) (simp add: starts_word_def, simp add: show_int_start)

text \<open>The store that a line leaves: each variable holds the value in its place.\<close>

fun assign :: "string list \<Rightarrow> cell list \<Rightarrow> store \<Rightarrow> store" where
  "assign (x # xs) (v # vs) g = assign xs vs (g(x := v))"
| "assign _ _ g = g"

text \<open>The reads take one field each and leave the fields after them in the input.\<close>

lemma run_reads_line:
  "list_all2 fits fs vs \<Longrightarrow> starts_word (item_line others) \<Longrightarrow>
   run_reads fs (item_line (vs @ others), g) = Some (item_line others, assign (List.map snd fs) (map2 stored fs vs) g)"
proof (induction vs arbitrary: fs g)
  case (Cons v vs)
  then obtain f fs' where f: "fs = f # fs'" "fits f v" "list_all2 fits fs' vs" by (auto simp: list_all2_Cons2)
  have sp: "is_space CHR 0x0A" "is_space CHR '' ''" by code_simp+
  have "read_field f (item_line ((v # vs) @ others), g) = Some (item_line (vs @ others), g(snd f := stored f v))"
    using read_item [OF f(2) sp(1), of "[]" g] read_item [OF f(2) sp(2) item_line_starts [OF f(3) Cons.prems(2)], of g]
    by (simp add: starts_word_def)
  with Cons.IH [OF f(3) Cons.prems(2)] f(1) show ?case by (simp add: fun_upd_def)
qed simp

lemma assign_other: "x \<notin> set xs \<Longrightarrow> assign xs vs g x = g x"
  by (induction xs vs g rule: assign.induct) simp_all

lemma assign_nth:
  "distinct xs \<Longrightarrow> i < length xs \<Longrightarrow> length vs = length xs \<Longrightarrow> assign xs vs g (xs ! i) = vs ! i"
proof (induction xs arbitrary: vs g i)
  case (Cons x xs)
  then obtain v vs' where vs: "vs = v # vs'" by (cases vs) auto
  show ?case
  proof (cases i)
    case 0
    with Cons.prems vs show ?thesis by (simp add: assign_other)
  next
    case (Suc j)
    with Cons.prems vs show ?thesis using Cons.IH [of j vs' "g(x := v)"] by (simp add: fun_upd_def)
  qed
qed simp

lemma stat_reads_distinct: "distinct (List.map snd stat_reads)"
  by code_simp

subsection \<open>A name with white space\<close>

text \<open>No conversion of a number gets past a letter: the input and the variables stay.\<close>

definition stuck :: "string \<Rightarrow> bool" where
  "stuck inp \<longleftrightarrow> (case inp of [] \<Rightarrow> False
     | c # _ \<Rightarrow> \<not> is_space c \<and> \<not> is_digit c \<and> c \<noteq> CHR ''-'' \<and> c \<noteq> CHR ''+'')"

lemma scan_field_stuck: "stuck inp \<Longrightarrow> scan_field inp = (None, inp)"
  by (cases inp) (simp_all add: stuck_def scan_field_def)

lemma run_reads_stuck:
  assumes "\<forall>f \<in> set fs. fst f = Readone \<or> fst f = Readunsigned" and "stuck inp"
  shows "run_reads fs (inp, g) = Some (inp, g)"
  using assms(1)
proof (induction fs)
  case (Cons f fs)
  then show ?case using scan_field_stuck [OF assms(2)] by (cases f) auto
qed simp

lemma stat_reads_numbers: "\<forall>f \<in> set (drop 3 stat_reads). fst f = Readone \<or> fst f = Readunsigned"
  by code_simp

end
