(* ===== verification/CharSolution.thy ===== *)
theory CharSolution
  imports CharDriver
begin

section \<open>The character drivers of the solutions: \<open>03_drivers/exercice03\<close> and \<open>exercice06\<close>\<close>

text \<open>
  The solution of the character device, with buffers of 10000 bytes, and the reads and writes
  of the misc device of exercise 6, which are modelled on the same structure \<open>fio\<close>. The
  comparisons of \<open>count\<close> with \<open>remaining\<close> are between a \<open>size_t\<close> and a
  \<open>ssize_t\<close>, so that they are unsigned. The solution satisfies the contract
  \<open>char_device\<close>, whose writes leave a byte free; a write that does not fit is refused by
  \<open>count = -EIO\<close>, which is a huge unsigned number: \<open>sol_write_full\<close> says what happens.
\<close>

definition BUFFER_SZ :: int where "BUFFER_SZ = 10000"

definition sol_open :: "i32 \<Rightarrow> string list \<Rightarrow> u32 \<Rightarrow> int + fio" where
  "sol_open instances buffers iminor =
     (if instances \<le> iminor then Inl (- EFAULT)
      else Inr \<lparr>private_data = buffers ! unat iminor, f_off = 0\<rparr>)"

definition sol_read :: "uaccess \<Rightarrow> u64 \<Rightarrow> fio \<Rightarrow> (s64 \<times> string \<times> fio) option" where
  "sol_read A n f =
     (let remaining = word_of_int BUFFER_SZ - f_off f;
          cnt = if remaining < n then remaining else n;
          f' = f\<lparr>f_off := f_off f + cnt\<rparr>
      in case peek (private_data f) (sint (f_off f)) (uint cnt) of
           None \<Rightarrow> None
         | Some d \<Rightarrow> let left = copy_to_user A cnt in
             if left \<noteq> 0 then Some (word_of_int (- EFAULT), take (unat cnt - unat left) d, f')
             else Some (cnt, d, f'))"

text \<open>The index of \<open>ptr[count]\<close> is taken modulo the size of the address space.\<close>

definition sol_write :: "uaccess \<Rightarrow> u64 \<Rightarrow> string \<Rightarrow> fio \<Rightarrow> (s64 \<times> fio) option" where
  "sol_write A n d f =
     (let remaining = word_of_int BUFFER_SZ - f_off f;
          cnt = if remaining \<le> n then word_of_int (- EIO) else n
      in if cnt = 0 then Some (cnt, f)
         else case poke (private_data f) (sint (f_off f + cnt)) [CHR 0x00] of
           None \<Rightarrow> None
         | Some b \<Rightarrow> (case copy_from_user A cnt d of (left, placed) \<Rightarrow>
             (case poke b (sint (f_off f)) placed of
               None \<Rightarrow> None
             | Some b' \<Rightarrow> Some (if left \<noteq> 0 then word_of_int (- EFAULT) else cnt,
                 \<lparr>private_data = b', f_off = f_off f + cnt\<rparr>))))"

lemma fio_offset:
  assumes "fio_ok BUFFER_SZ f" and "sint (f_off f) + uint n < BUFFER_SZ"
  shows "n < word_of_int BUFFER_SZ - f_off f" "sint (f_off f + n) = sint (f_off f) + uint n" "uint n < 2 ^ 31"
proof -
  have r: "uint (word_of_int BUFFER_SZ - f_off f) = BUFFER_SZ - sint (f_off f)"
    using assms(1) by (intro room_word) (simp_all add: fio_ok_def BUFFER_SZ_def)
  then show "n < word_of_int BUFFER_SZ - f_off f" using assms(2) by (simp add: word_less_def)
  show "sint (f_off f + n) = sint (f_off f) + uint n"
    by (rule moved_word [where c = BUFFER_SZ]) (use assms in \<open>simp_all add: fio_ok_def BUFFER_SZ_def\<close>)
  show "uint n < 2 ^ 31" using assms by (simp add: fio_ok_def BUFFER_SZ_def)
qed

lemma sol_read_inside:
  assumes f: "fio_ok BUFFER_SZ f" and A: "uaccess_ok A" and n: "sint (f_off f) + uint n < BUFFER_SZ"
  shows "sol_read A n f = Some (n, take (unat n) (drop (nat (sint (f_off f))) (private_data f)), f\<lparr>f_off := f_off f + n\<rparr>)"
proof -
  note o = fio_offset [OF f n]
  have "peek (private_data f) (sint (f_off f)) (uint n) =
      Some (take (unat n) (drop (nat (sint (f_off f))) (private_data f)))"
    using f n by (simp add: peek_def fio_ok_def)
  moreover have "\<not> word_of_int BUFFER_SZ - f_off f < n" using o(1) by simp
  ultimately show ?thesis using A o(3) by (simp add: sol_read_def Let_def uaccess_ok_def)
qed

lemma sol_write_inside:
  assumes f: "fio_ok BUFFER_SZ f" and A: "uaccess_ok A" and n: "sint (f_off f) + uint n < BUFFER_SZ"
    and d: "unat n = length d" "0 < uint n"
  shows "\<exists>b. sol_write A n d f = Some (n, \<lparr>private_data = b, f_off = f_off f + n\<rparr>) \<and>
      length b = length (private_data f) \<and>
      take (nat (sint (f_off f)) + length d) b = take (nat (sint (f_off f))) (private_data f) @ d"
proof -
  note o = fio_offset [OF f n]
  let ?i = "nat (sint (f_off f))"
  have un: "uint n = int (length d)" using d(1) by (metis uint_nat)
  have range: "0 \<le> sint (f_off f)" "sint (f_off f) + int (length d) < int (length (private_data f))"
    using f n un by (simp_all add: fio_ok_def)
  obtain b where b: "poke (private_data f) (sint (f_off f + n)) [CHR 0x00] = Some b"
    using range by (simp add: poke_def o(2) un)
  have lb: "length b = length (private_data f)" using length_poke [OF b] .
  have "\<exists>b'. poke b (sint (f_off f)) d = Some b'" using range lb by (simp add: poke_def)
  then obtain b' where b': "poke b (sint (f_off f)) d = Some b'" by blast
  have "take ?i b = take ?i (private_data f)"
  proof -
    have "take ?i (take (nat (sint (f_off f + n))) b) = take ?i (take (nat (sint (f_off f + n))) (private_data f))"
      using poke_before [OF b] range by (simp add: o(2) un)
    then show ?thesis using range by (simp add: o(2) un min_absorb1 nat_le_iff)
  qed
  moreover have "d \<noteq> []" using d by (auto simp: unat_eq_zero)
  ultimately have "take (?i + length d) b' = take ?i (private_data f) @ d"
    using b' range lb by (auto simp: poke_def split: if_splits)
  moreover have "copy_from_user A n d = (0, d)" using A o(3) d(1) by (simp add: uaccess_ok_def)
  moreover have "n \<noteq> 0" using d(2) by auto
  moreover have "\<not> word_of_int BUFFER_SZ - f_off f \<le> n" using o(1) by simp
  ultimately show ?thesis
    using b b' lb length_poke [OF b'] by (simp add: sol_write_def Let_def)
qed

interpretation solution: char_device BUFFER_SZ sol_read sol_write
proof unfold_locales
  show "0 < BUFFER_SZ" "BUFFER_SZ < 2 ^ 31" by (simp_all add: BUFFER_SZ_def)
qed (simp_all add: sol_read_inside sol_write_inside)

text \<open>
  A write that does not fit: the position goes back by 5 bytes and the byte before it by 5
  becomes 0. Within the first five bytes of the device this is an access before the
  buffer. \<open>copy_from_user\<close> refuses a length that no address range has.
\<close>

definition uaccess_bounded :: "uaccess \<Rightarrow> bool" where
  "uaccess_bounded A \<longleftrightarrow> (\<forall>n d. 2 ^ 63 \<le> uint n \<longrightarrow> copy_from_user A n d = (n, []))"

lemma sol_write_full:
  assumes f: "fio_ok BUFFER_SZ f" and A: "uaccess_bounded A" and n: "BUFFER_SZ \<le> sint (f_off f) + uint n"
  shows "sol_write A n d f =
    (if sint (f_off f) < 5 then None
     else Some (word_of_int (- EFAULT),
       \<lparr>private_data = (private_data f)[nat (sint (f_off f)) - 5 := CHR 0x00], f_off = f_off f - 5\<rparr>))"
proof -
  have "uint (word_of_int BUFFER_SZ - f_off f) = BUFFER_SZ - sint (f_off f)"
    using f by (intro room_word) (simp_all add: fio_ok_def BUFFER_SZ_def)
  then have big: "word_of_int BUFFER_SZ - f_off f \<le> n" using n by (simp add: word_le_def)
  have "copy_from_user A (- 5) d = (- 5, [])" using A by (simp add: uaccess_bounded_def)
  moreover have "sint (f_off f - 5) = sint (f_off f) - 5"
  proof -
    have "f_off f - 5 = word_of_int (sint (f_off f) - 5)" by simp
    moreover have "sint (word_of_int (sint (f_off f) - 5) :: s64) = sint (f_off f) - 5"
      using f by (intro sint_small64) (simp_all add: fio_ok_def BUFFER_SZ_def)
    ultimately show ?thesis by simp
  qed
  moreover have "poke (private_data f) (sint (f_off f) - 5) [CHR 0x00] =
      (if sint (f_off f) < 5 then None else Some ((private_data f)[nat (sint (f_off f)) - 5 := CHR 0x00]))"
    using f by (auto simp: poke_def fio_ok_def upd_conv_take_nth_drop nat_diff_distrib Suc_nat_eq_nat_zadd1)
  ultimately show ?thesis
    using big by (simp add: sol_write_def Let_def EIO_def poke_def [of _ _ "[]"])
qed

subsection \<open>Loading and unloading\<close>

definition sol_init :: "kenv \<Rightarrow> i32 \<Rightarrow> ('z chardev_scheme, int) state" where
  "sol_init E instances = do {
     if sint instances \<le> 0 then ret (- EFAULT)
     else do {
       status \<leftarrow> kapi E (Alloc_chrdev_region (unat instances) ''mymodule'');
       status \<leftarrow> (if status = 0 then kapi E (Cdev_add (unat instances)) else ret status);
       only_if (status = 0) (do {
         a \<leftarrow> kapi E (Kcalloc 1 (unat (8 * scast instances :: u64)));
         modify (\<lambda>s. s\<lparr>dev_buffers := a\<rparr>);
         alloc_buffers E (nat BUFFER_SZ) (nat (sint instances))
       });
       ret status
     }
   }"

definition sol_exit :: "kenv \<Rightarrow> i32 \<Rightarrow> ('z chardev_scheme, unit) state" where
  "sol_exit E instances = do {
     void (kapi E Cdev_del);
     void (kapi E (Unregister_chrdev_region (unat instances)));
     ps \<leftarrow> gets dev_buffer;
     free_buffers E (take (nat (sint instances)) ps);
     a \<leftarrow> gets dev_buffers;
     void (kapi E (Kfree a))
   }"

lemma sol_init_load:
  assumes "0 < sint instances"
  shows "result (sol_init E instances) s = result (chardev_load E (nat BUFFER_SZ) instances) s"
    and "exec (sol_init E instances) s = exec (chardev_load E (nat BUFFER_SZ) instances) s"
  using assms
  by (simp_all add: sol_init_def chardev_load_def result_bind exec_bind result_if exec_if
      result_exec_basic run_only_if only_if_def exec_def [symmetric] not_le del: result_kapi exec_kapi)

lemma sol_exit_eq: "sol_exit = skeleton_exit"
  by (intro ext) (simp add: sol_exit_def skeleton_exit_def)

subsection \<open>The misc device of \<open>exercice06\<close>\<close>

text \<open>
  The device holds a string: a read ends at its NUL (\<open>strlen\<close>), \<open>None\<close> when the buffer
  has none. A write moves the position before it tests the room that is left.
\<close>

definition strlen :: "string \<Rightarrow> nat option" where
  "strlen b = (if CHR 0x00 \<in> set b then Some (length (takeWhile (\<lambda>c. c \<noteq> CHR 0x00) b)) else None)"

definition misc_read :: "uaccess \<Rightarrow> u64 \<Rightarrow> fio \<Rightarrow> (s64 \<times> string \<times> fio) option" where
  "misc_read A n f = Option.bind (strlen (private_data f)) (\<lambda>len.
     let remaining = word_of_nat len - f_off f;
         cnt = if remaining < n then remaining else n;
         f' = f\<lparr>f_off := f_off f + cnt\<rparr>
     in case peek (private_data f) (sint (f_off f)) (uint cnt) of
          None \<Rightarrow> None
        | Some d \<Rightarrow> let left = copy_to_user A cnt in
            if left \<noteq> 0 then Some (word_of_int (- EFAULT), take (unat cnt - unat left) d, f')
            else Some (cnt, d, f'))"

definition misc_write :: "uaccess \<Rightarrow> u64 \<Rightarrow> string \<Rightarrow> fio \<Rightarrow> (s64 \<times> fio) option" where
  "misc_write A n d f =
     (let remaining = word_of_int BUFFER_SZ - f_off f;
          f' = f\<lparr>f_off := f_off f + n\<rparr>;
          cnt = if remaining \<le> n then word_of_int (- EIO) else n
      in if cnt = 0 then Some (cnt, f')
         else case poke (private_data f) (sint (f_off f + cnt)) [CHR 0x00] of
           None \<Rightarrow> None
         | Some b \<Rightarrow> (case copy_from_user A cnt d of (left, placed) \<Rightarrow>
             (case poke b (sint (f_off f)) placed of
               None \<Rightarrow> None
             | Some b' \<Rightarrow> Some (if left \<noteq> 0 then word_of_int (- EFAULT) else cnt, f'\<lparr>private_data := b'\<rparr>))))"

text \<open>Within the buffer both drivers write the same.\<close>

lemma misc_write_inside:
  assumes "fio_ok BUFFER_SZ f" "sint (f_off f) + uint n < BUFFER_SZ"
  shows "misc_write A n d f = sol_write A n d f"
proof -
  have "\<not> word_of_int BUFFER_SZ - f_off f \<le> n" using fio_offset(1) [OF assms] by simp
  then show ?thesis
    by (cases f) (auto simp: misc_write_def sol_write_def Let_def split: option.splits prod.splits)
qed

text \<open>A text written to a new device is what a reader gets.\<close>

lemma misc_write_read:
  assumes A: "uaccess_ok A" and d: "d \<noteq> []" "CHR 0x00 \<notin> set d" "int (length d) < BUFFER_SZ"
    and n: "uint n < 2 ^ 31" "int (length d) \<le> uint n"
  defines "f \<equiv> \<lparr>private_data = replicate (nat BUFFER_SZ) CHR 0x00, f_off = 0 :: s64\<rparr>"
  obtains g where "misc_write A (word_of_nat (length d)) d f = Some (word_of_nat (length d), g)"
    and "misc_read A n (g\<lparr>f_off := 0\<rparr>) = Some (word_of_nat (length d), d, g)"
proof -
  let ?n = "word_of_nat (length d) :: u64"
  have un: "uint ?n = int (length d)" "unat ?n = length d"
    using d(3) by (simp_all add: BUFFER_SZ_def unsigned_of_nat take_bit_nat_eq_self)
  have f: "fio_ok BUFFER_SZ f" by (simp add: f_def fio_ok_def BUFFER_SZ_def)
  have room: "sint (f_off f) + uint ?n < BUFFER_SZ" using d(3) by (simp add: f_def un)
  have "misc_write A ?n d f = sol_write A ?n d f" by (rule misc_write_inside [OF f room])
  moreover have cp: "copy_from_user A ?n d = (0, d)"
    using A un d(3) by (simp add: uaccess_ok_def BUFFER_SZ_def)
  moreover have "\<not> word_of_int BUFFER_SZ \<le> ?n" using d(3) by (simp add: word_le_def un BUFFER_SZ_def)
  moreover have sn: "sint ?n = int (length d)"
    using sint_small64 [of "int (length d)"] d(3) by (simp add: BUFFER_SZ_def)
  moreover have "?n \<noteq> 0" using d(1) un(2) by (metis length_0_conv unat_0)
  ultimately have w: "misc_write A ?n d f =
      Some (?n, \<lparr>private_data = d @ CHR 0x00 # replicate (9999 - length d) CHR 0x00, f_off = ?n\<rparr>)"
    using d by (simp add: sol_write_def f_def Let_def poke_def BUFFER_SZ_def)
  have r: "misc_read A n \<lparr>private_data = d @ CHR 0x00 # replicate (9999 - length d) CHR 0x00, f_off = 0\<rparr> =
      Some (?n, d, \<lparr>private_data = d @ CHR 0x00 # replicate (9999 - length d) CHR 0x00, f_off = ?n\<rparr>)"
  proof -
    have "takeWhile (\<lambda>c. c \<noteq> CHR 0x00) (d @ CHR 0x00 # replicate (9999 - length d) CHR 0x00) = d"
      using d(2) by (subst takeWhile_append2) auto
    then have sl: "strlen (d @ CHR 0x00 # replicate (9999 - length d) CHR 0x00) = Some (length d)"
      by (simp add: strlen_def)
    have "(if ?n < n then ?n else n) = ?n"
      using n(2) un(1) by (auto simp: word_less_def word_uint_eq_iff)
    then show ?thesis using sl A un d(3)
      by (simp add: misc_read_def peek_def uaccess_ok_def BUFFER_SZ_def Let_def)
  qed
  show thesis by (rule that [OF w]) (use r in simp)
qed

text \<open>A write that is refused moves the position all the same.\<close>

lemma misc_write_full:
  assumes "fio_ok BUFFER_SZ f" "BUFFER_SZ \<le> sint (f_off f) + uint n" "misc_write A n d f = Some (r, g)"
  shows "f_off g = f_off f + n"
  using assms(3) by (auto simp: misc_write_def Let_def split: option.splits prod.splits if_splits)

text \<open>
  \<open>drv_probe\<close> and \<open>drv_remove\<close>: the memory is managed (\<open>devm_kzalloc\<close>), so that the
  driver core frees it when the device goes. \<open>mydata\<close> is the pointer of \<open>drvdata\<close>.
\<close>

record miscdrv = klog + mydata :: int

definition drv_probe :: "kenv \<Rightarrow> nat \<Rightarrow> string \<Rightarrow> ('z miscdrv_scheme, int) state" where
  "drv_probe E mydata_size name = do {
     p \<leftarrow> kapi E (Kcalloc 1 mydata_size);
     if p = 0 then ret (- ENOMEM)
     else do {
       modify (\<lambda>s. s\<lparr>mydata := p\<rparr>);
       r \<leftarrow> kapi E (Misc_register name);
       if r \<noteq> 0 then ret r else ret 0
     }
   }"

definition drv_remove :: "kenv \<Rightarrow> string \<Rightarrow> ('z miscdrv_scheme, int) state" where
  "drv_remove E name = do {
     void (kapi E (Misc_deregister name));
     ret 0
   }"

lemma drv_probe_remove:
  fixes s :: "'z miscdrv_scheme" and E :: kenv and k :: nat and nm :: string
  assumes "res_state (klog s) = Some {#}"
  defines "t \<equiv> exec (drv_probe E k nm) s"
  shows "result (drv_probe E k nm) s = 0 \<Longrightarrow> res_state (klog (exec (drv_remove E nm) t)) = Some {#R_mem (mydata t)#}"
  using assms unfolding t_def
  by (cases "kret E (klog s) (Kcalloc 1 k) = 0") (auto simp: drv_probe_def drv_remove_def run_simps ENOMEM_def split: if_splits)

end
