(* ===== verification/AttributeFiles.thy ===== *)
theory AttributeFiles
  imports CFormat CharDriver
begin

section \<open>Attributes in sysfs and procfs: \<open>02-driver/sysfs\<close>, \<open>exercice05\<close>, \<open>exercice10\<close>\<close>

text \<open>
  The modules that publish an integer \<open>val\<close> and a configuration record: through a class
  device in sysfs (the module of \<open>src/02-driver/sysfs\<close>, and the solution of exercise 5 built
  with \<open>CLASS\<close>) and through \<open>/proc/mymodule\<close> (exercise 10). \<open>simple_strtol\<close> is
  the kernel's: a parameter, of which \<open>strtol_ok\<close> states that it reads the decimal text of a number.
  Lemmas: what is stored is shown, the ownership on loading and unloading, and the reads of
  procfs, whose data always start at the beginning of the text.
\<close>

subsection \<open>The attributes\<close>

record skeleton_config =
  cfg_id :: i32
  cfg_ref :: s64
  cfg_name :: string
  cfg_descr :: string

record attrmod = klog +
  attr_val :: i32
  attr_cfg :: skeleton_config
  attr_class :: int
  attr_device :: int
  proc_dir :: int

text \<open>Global variables are zero: the empty texts and \<open>NULL\<close>.\<close>

definition sysfs_show_val :: "('z attrmod_scheme, string) state" where
  "sysfs_show_val = do { v \<leftarrow> gets attr_val; ret (fmt_d v @ nl) }"

definition sysfs_store_val :: "(string \<Rightarrow> s64) \<Rightarrow> string \<Rightarrow> ('z attrmod_scheme, nat) state" where
  "sysfs_store_val strtol buf = do {
     modify (\<lambda>s. s\<lparr>attr_val := ucast (strtol buf)\<rparr>);
     ret (length buf)
   }"

definition config_text :: "skeleton_config \<Rightarrow> string" where
  "config_text c = fmt_d (cfg_id c) @ '' '' @ fmt_lld (cfg_ref c) @ '' '' @ cfg_name c @ '' '' @ cfg_descr c @ nl"

definition sysfs_show_cfg :: "('z attrmod_scheme, string) state" where
  "sysfs_show_cfg = do { c \<leftarrow> gets attr_cfg; ret (config_text c) }"

text \<open>
  \<open>sscanf (buf, "%d %ld %s %s", \<dots>)\<close>: conversions until the first that fails. The texts go
  to arrays of 30 characters; \<open>None\<close> is a text that does not fit.
\<close>

definition scan_word :: "string \<Rightarrow> (string \<times> string) option" where
  "scan_word s = (let r = dropWhile is_space s; w = takeWhile (\<lambda>c. \<not> is_space c) r
     in if w = [] then None else Some (w, dropWhile (\<lambda>c. \<not> is_space c) r))"

definition scan_config :: "string \<Rightarrow> skeleton_config \<Rightarrow> skeleton_config option" where
  "scan_config buf c = (case scan_int buf of
     None \<Rightarrow> Some c
   | Some (neg, n, r) \<Rightarrow>
       let c = c\<lparr>cfg_id := word_of_int (if neg then - int n else int n)\<rparr> in
       (case scan_int r of
          None \<Rightarrow> Some c
        | Some (neg, n, r) \<Rightarrow>
            let c = c\<lparr>cfg_ref := word_of_int (if neg then - int n else int n)\<rparr> in
            (case scan_word r of
               None \<Rightarrow> Some c
             | Some (w, r) \<Rightarrow> if 30 \<le> length w then None
                 else let c = c\<lparr>cfg_name := w\<rparr> in
                 (case scan_word r of
                    None \<Rightarrow> Some c
                  | Some (w, r) \<Rightarrow> if 30 \<le> length w then None else Some (c\<lparr>cfg_descr := w\<rparr>)))))"

text \<open>\<open>None\<close> as result: the arrays are overrun.\<close>

definition sysfs_store_cfg :: "string \<Rightarrow> ('z attrmod_scheme, nat option) state" where
  "sysfs_store_cfg buf = do {
     c \<leftarrow> gets attr_cfg;
     (case scan_config buf c of
        None \<Rightarrow> ret None
      | Some c' \<Rightarrow> do { modify (\<lambda>s. s\<lparr>attr_cfg := c'\<rparr>); ret (Some (length buf)) })
   }"

subsection \<open>Storing and showing\<close>

definition strtol_ok :: "(string \<Rightarrow> s64) \<Rightarrow> bool" where
  "strtol_ok strtol \<longleftrightarrow> (\<forall>k r. - (2 ^ 63) \<le> k \<longrightarrow> k < 2 ^ 63 \<longrightarrow> nondigit_start r \<longrightarrow>
     strtol (show_int k @ r) = word_of_int k)"

lemma ucast_int: "(ucast (word_of_int k :: u64) :: i32) = word_of_int k"
  by (rule bit_word_eqI) (simp add: bit_ucast_iff bit_word_of_int_iff)

lemma store_val_shown:
  assumes "strtol_ok strtol" "- (2 ^ 31) \<le> k" "k < 2 ^ 31"
  shows "result sysfs_show_val (exec (sysfs_store_val strtol (show_int k @ nl)) s) = show_int k @ nl"
proof -
  have "strtol (show_int k @ nl) = word_of_int k"
    using assms by (simp add: strtol_ok_def)
  then have "attr_val (exec (sysfs_store_val strtol (show_int k @ nl)) s) = word_of_int k"
    by (simp add: sysfs_store_val_def exec_bind ucast_int)
  then show ?thesis
    using assms(2,3) by (simp add: sysfs_show_val_def result_bind fmt_d_def sint_of_small)
qed

definition config_word :: "string \<Rightarrow> bool" where
  "config_word w \<longleftrightarrow> w \<noteq> [] \<and> (\<forall>c \<in> set w. \<not> is_space c) \<and> length w < 30"

lemma scan_word_exact:
  assumes "w \<noteq> []" "\<forall>c \<in> set w. \<not> is_space c" "is_space c"
  shows "scan_word (CHR '' '' # w @ c # r) = Some (w, c # r)"
proof -
  have sp: "is_space CHR '' ''" by code_simp
  have "dropWhile is_space (w @ c # r) = w @ c # r" using assms by (cases w) simp_all
  moreover have "takeWhile (\<lambda>c. \<not> is_space c) (w @ c # r) = w"
    "dropWhile (\<lambda>c. \<not> is_space c) (w @ c # r) = c # r" using assms by simp_all
  ultimately show ?thesis using sp assms(1) by (simp add: scan_word_def Let_def)
qed

lemma scan_int_show:
  assumes "nondigit_start r"
  shows "scan_int (show_int k @ r) = Some (k < 0, nat \<bar>k\<bar>, r)"
  using assms by (simp add: show_int_def scan_int_show_nat scan_int_minus_show_nat)

lemma scan_int_space: "scan_int (CHR '' '' # s) = scan_int s"
proof -
  have "is_space CHR '' ''" by code_simp
  then show ?thesis by (simp add: scan_int_def)
qed

lemma signed_back: "(if k < 0 then - int (nat \<bar>k\<bar>) else int (nat \<bar>k\<bar>)) = k"
  by simp

lemma scan_config_text:
  assumes "config_word (cfg_name c)" "config_word (cfg_descr c)"
  shows "scan_config (config_text c) c' = Some c"
proof -
  have nl: "is_space CHR 0x0A" and sp: "is_space CHR '' ''" by code_simp+
  let ?r3 = "CHR '' '' # cfg_descr c @ nl"
  let ?r2 = "CHR '' '' # cfg_name c @ ?r3"
  let ?r1 = "CHR '' '' # fmt_lld (cfg_ref c) @ ?r2"
  have nd: "nondigit_start (CHR '' '' # x)" for x using digit_not_space sp by auto
  have 1: "scan_int (config_text c) = Some (sint (cfg_id c) < 0, nat \<bar>sint (cfg_id c)\<bar>, ?r1)"
    using scan_int_show [OF nd, of "sint (cfg_id c)"] by (simp add: config_text_def fmt_d_def)
  have 2: "scan_int ?r1 = Some (sint (cfg_ref c) < 0, nat \<bar>sint (cfg_ref c)\<bar>, ?r2)"
    using scan_int_show [OF nd, of "sint (cfg_ref c)"] by (simp add: scan_int_space fmt_lld_def)
  have 3: "scan_word ?r2 = Some (cfg_name c, ?r3)" "scan_word ?r3 = Some (cfg_descr c, nl)"
    using assms nl sp by (simp_all add: config_word_def scan_word_exact)
  have w: "\<not> 30 \<le> length (cfg_name c)" "\<not> 30 \<le> length (cfg_descr c)"
    using assms by (simp_all add: config_word_def)
  show ?thesis
    unfolding scan_config_def 1 option.case prod.case Let_def 2 3 signed_back using w by (cases c) simp
qed

subsection \<open>A class device with attributes\<close>

text \<open>The chain \<open>if (status == 0) status = device_create_file (\<dots>)\<close>.\<close>

fun create_files :: "kenv \<Rightarrow> int \<Rightarrow> string list \<Rightarrow> int \<Rightarrow> ('z attrmod_scheme, int) state" where
  "create_files E dev [] status = ret status"
| "create_files E dev (f # fs) status = do {
     status \<leftarrow> (if status = 0 then kapi E (Device_create_file dev f) else ret status);
     create_files E dev fs status
   }"

fun remove_files :: "kenv \<Rightarrow> int \<Rightarrow> string list \<Rightarrow> ('z attrmod_scheme, unit) state" where
  "remove_files E dev [] = ret ()"
| "remove_files E dev (f # fs) = do { void (kapi E (Device_remove_file dev f)); remove_files E dev fs }"

definition class_init :: "kenv \<Rightarrow> string list \<Rightarrow> ('z attrmod_scheme, int) state" where
  "class_init E files = do {
     c \<leftarrow> kapi E (Class_create ''my_sysfs_class'');
     modify (\<lambda>s. s\<lparr>attr_class := c\<rparr>);
     d \<leftarrow> kapi E (Device_create c 0 ''my_sysfs_device'');
     modify (\<lambda>s. s\<lparr>attr_device := d\<rparr>);
     status \<leftarrow> create_files E d files 0;
     ret 0
   }"

definition class_exit :: "kenv \<Rightarrow> string list \<Rightarrow> ('z attrmod_scheme, unit) state" where
  "class_exit E files = do {
     d \<leftarrow> gets attr_device;
     remove_files E d files;
     c \<leftarrow> gets attr_class;
     void (kapi E (Device_destroy c 0));
     void (kapi E (Class_destroy c))
   }"

text \<open>The module of \<open>02-driver/sysfs\<close> and the solution of exercise 5.\<close>

definition sysfs_module_init :: "kenv \<Rightarrow> ('z attrmod_scheme, int) state" where
  "sysfs_module_init E = class_init E [''val'']"

definition sysfs_module_exit :: "kenv \<Rightarrow> ('z attrmod_scheme, unit) state" where
  "sysfs_module_exit E = class_exit E [''val'']"

definition exercice05_init :: "kenv \<Rightarrow> ('z attrmod_scheme, int) state" where
  "exercice05_init E = class_init E [''val'', ''cfg'']"

definition exercice05_exit :: "kenv \<Rightarrow> ('z attrmod_scheme, unit) state" where
  "exercice05_exit E = class_exit E [''val'', ''cfg'']"

definition file_res :: "string list \<Rightarrow> kres multiset" where
  "file_res fs = mset (List.map R_file fs)"

lemma create_files_resources:
  assumes "\<forall>h f. kret E h (Device_create_file d f) = 0" and "res_state (klog s) = Some R"
  shows "res_state (klog (exec (create_files E d fs 0) s)) = Some (file_res fs + R)"
    and "attr_class (exec (create_files E d fs 0) s) = attr_class s"
    and "attr_device (exec (create_files E d fs 0) s) = attr_device s"
  using assms(2) by (induction fs arbitrary: s R) (simp_all add: file_res_def run_simps assms(1))

lemma remove_files_resources:
  assumes "res_state (klog s) = Some (file_res fs + R)"
  shows "res_state (klog (exec (remove_files E d fs) s)) = Some R"
    and "attr_class (exec (remove_files E d fs) s) = attr_class s"
  using assms by (induction fs arbitrary: s) (simp_all add: file_res_def run_simps)

text \<open>With every call successful the module owns nothing after the exit.\<close>

lemma class_init_exit:
  fixes s :: "'z attrmod_scheme"
  assumes "res_state (klog s) = Some {#}" and "\<forall>h d f. kret E h (Device_create_file d f) = 0"
    and "\<forall>h nm. \<not> IS_ERR (kret E h (Class_create nm))" "\<forall>h c g nm. \<not> IS_ERR (kret E h (Device_create c g nm))"
  shows "result (class_init E fs) s = 0"
    and "res_state (klog (exec (class_exit E fs) (exec (class_init E fs) s))) = Some {#}"
proof -
  show "result (class_init E fs) s = 0" by (simp add: class_init_def result_bind)
  define c where "c = kret E (klog s) (Class_create ''my_sysfs_class'')"
  define s1 where "s1 = (exec (kapi E (Class_create ''my_sysfs_class'')) s)\<lparr>attr_class := c\<rparr>"
  define d where "d = kret E (klog s1) (Device_create c 0 ''my_sysfs_device'')"
  define s2 where "s2 = (exec (kapi E (Device_create c 0 ''my_sysfs_device'')) s1)\<lparr>attr_device := d\<rparr>"
  have ex: "exec (class_init E fs) s = exec (create_files E d fs 0) s2"
    by (simp add: class_init_def exec_bind result_bind s2_def d_def s1_def c_def del: create_files.simps)
  have 2: "res_state (klog s2) = Some {#R_device 0, R_class c#}" "attr_class s2 = c" "attr_device s2 = d"
    using assms(1,3,4) by (simp_all add: s2_def d_def s1_def c_def)
  note cr = create_files_resources [OF _ 2(1), of E d fs] 
  let ?t = "exec (create_files E d fs 0) s2"
  have t: "res_state (klog ?t) = Some (file_res fs + {#R_device 0, R_class c#})" "attr_class ?t = c" "attr_device ?t = d"
    using cr assms(2) 2 by simp_all
  note rm = remove_files_resources [OF t(1), of E d]
  show "res_state (klog (exec (class_exit E fs) (exec (class_init E fs) s))) = Some {#}"
    using rm t(2,3) by (simp add: ex class_exit_def exec_bind result_exec_basic)
qed

text \<open>A class that cannot be created: the load succeeds, and the exit destroys what is not there.\<close>

lemma class_init_unchecked:
  fixes s :: "'z attrmod_scheme"
  assumes "res_state (klog s) = Some {#}" and "\<forall>h d f. kret E h (Device_create_file d f) \<noteq> 0"
    and "\<forall>h c g nm. IS_ERR (kret E h (Device_create c g nm))" "\<forall>h nm. IS_ERR (kret E h (Class_create nm))"
  shows "result (class_init E [f]) s = 0"
    and "res_state (klog (exec (class_exit E [f]) (exec (class_init E [f]) s))) = None"
  using assms by (simp_all add: class_init_def class_exit_def run_simps)

subsection \<open>Exercise 10: \<open>/proc/mymodule\<close>\<close>

text \<open>The statics.\<close>

definition proc_config :: skeleton_config where
  "proc_config = \<lparr>cfg_id = 11, cfg_ref = 33, cfg_name = ''config structure'', cfg_descr = ''procfs test driver''\<rparr>"

definition proc_val :: i32 where "proc_val = 55"

text \<open>
  A read: \<open>temp\<close> holds the text and its NUL, then \<open>junk\<close> up to its end. The result is
  the count, the bytes for the user and the new position.
\<close>

definition proc_read :: "uaccess \<Rightarrow> nat \<Rightarrow> string \<Rightarrow> string \<Rightarrow> u64 \<Rightarrow> s64 \<Rightarrow> (s64 \<times> string \<times> s64) option" where
  "proc_read A size_temp txt junk n off =
     (case snprintf size_temp txt of (put, k) \<Rightarrow>
        let temp = take size_temp (put @ CHR 0x00 # junk);
            len = word_of_nat k :: i32;
            len = ucast (scast len - off :: s64) :: i32;
            cnt = if scast len < n then scast len else n
        in case peek temp 0 (uint cnt) of
             None \<Rightarrow> None
           | Some d \<Rightarrow> let left = copy_to_user A cnt in
               if left \<noteq> 0 then Some (word_of_int (- EFAULT), take (unat cnt - unat left) d, off + cnt)
               else Some (cnt, d, off + cnt))"

definition read_config :: "uaccess \<Rightarrow> skeleton_config \<Rightarrow> string \<Rightarrow> u64 \<Rightarrow> s64 \<Rightarrow> (s64 \<times> string \<times> s64) option" where
  "read_config A c junk = proc_read A 200
     (''id='' @ fmt_d (cfg_id c) @ nl @ ''ref='' @ fmt_lld (cfg_ref c) @ nl @ ''name='' @ cfg_name c @ nl @
      ''descr='' @ cfg_descr c @ nl) junk"

definition read_val :: "uaccess \<Rightarrow> i32 \<Rightarrow> string \<Rightarrow> u64 \<Rightarrow> s64 \<Rightarrow> (s64 \<times> string \<times> s64) option" where
  "read_val A v junk = proc_read A 20 (fmt_d v @ nl) junk"

text \<open>A write: \<open>temp\<close> is not terminated, so that the text goes on with \<open>junk\<close>.\<close>

definition write_val :: "uaccess \<Rightarrow> (string \<Rightarrow> s64) \<Rightarrow> u64 \<Rightarrow> string \<Rightarrow> string \<Rightarrow> i32 \<Rightarrow> s64 \<times> i32" where
  "write_val A strtol n d junk v =
     (if 20 < n then (word_of_int (- EIO), v)
      else case copy_from_user A n d of (left, placed) \<Rightarrow>
        if left \<noteq> 0 then (word_of_int (- EFAULT), v) else (n, ucast (strtol (placed @ junk))))"

definition proc_init :: "kenv \<Rightarrow> ('z attrmod_scheme, int) state" where
  "proc_init E = do {
     p \<leftarrow> kapi E (Proc_mkdir ''mymodule'');
     modify (\<lambda>s. s\<lparr>proc_dir := p\<rparr>);
     void (kapi E (Proc_create ''config'' p));
     void (kapi E (Proc_create ''val'' p));
     ret (if p = 0 then - EFAULT else 0)
   }"

definition proc_exit :: "kenv \<Rightarrow> ('z attrmod_scheme, unit) state" where
  "proc_exit E = do {
     p \<leftarrow> gets proc_dir;
     void (kapi E (Remove_proc_entry ''val'' p));
     void (kapi E (Remove_proc_entry ''config'' p));
     void (kapi E (Remove_proc_entry ''mymodule'' 0))
   }"

lemma scast_small: "0 \<le> k \<Longrightarrow> k < 2 ^ 31 \<Longrightarrow> (scast (word_of_int k :: i32) :: u64) = word_of_int k"
  by (simp add: signed_of_int signed_take_bit_int_eq_self)

lemma word_min_int:
  assumes "0 \<le> a" "a < 2 ^ 64"
  shows "(if word_of_int a < (n :: u64) then word_of_int a else n) = word_of_int (min a (uint n))"
proof (cases "a < uint n")
  case True
  then have "word_of_int a < n" by (simp add: word_less_def uint_small64 [OF assms])
  with True show ?thesis by simp
next
  case False
  then have "\<not> word_of_int a < n" by (simp add: word_less_def uint_small64 [OF assms])
  with False show ?thesis by simp
qed

lemma proc_read_at:
  assumes A: "uaccess_ok A" and fits: "length txt < size_temp" "size_temp < 2 ^ 31"
    and off: "0 \<le> k" "k \<le> int (length txt)" and n: "uint n < 2 ^ 31"
  defines "cnt \<equiv> min (int (length txt) - k) (uint n)"
  shows "proc_read A size_temp txt junk n (word_of_int k) = Some (word_of_int cnt, take (nat cnt) txt, word_of_int (k + cnt))"
proof -
  have len: "(ucast (scast (word_of_nat (length txt) :: i32) - word_of_int k :: s64) :: i32) = word_of_int (int (length txt) - k)"
  proof -
    have "(scast (word_of_nat (length txt) :: i32) :: s64) = word_of_int (int (length txt))"
      using scast_small [of "int (length txt)"] fits by simp
    then show ?thesis by (simp only: wi_hom_sub ucast_int)
  qed
  have sc: "(scast (word_of_int (int (length txt) - k) :: i32) :: u64) = word_of_int (int (length txt) - k)"
    by (rule scast_small) (use fits off in simp_all)
  have cnt: "(if (word_of_int (int (length txt) - k) :: u64) < n then word_of_int (int (length txt) - k) else n) = word_of_int cnt"
    unfolding cnt_def by (rule word_min_int) (use fits off in simp_all)
  have c0: "0 \<le> cnt" "cnt \<le> int (length txt)" "uint (word_of_int cnt :: u64) = cnt"
  proof -
    show "0 \<le> cnt" "cnt \<le> int (length txt)" using off by (simp_all add: cnt_def)
    then show "uint (word_of_int cnt :: u64) = cnt" using fits by (intro uint_small64) simp_all
  qed
  have temp: "take (nat cnt) (take size_temp (txt @ CHR 0x00 # junk)) = take (nat cnt) txt"
    "cnt \<le> int (length (take size_temp (txt @ CHR 0x00 # junk)))"
    using c0 fits by simp_all
  have pk: "peek (take size_temp (txt @ CHR 0x00 # junk)) 0 cnt = Some (take (nat cnt) txt)"
    using temp c0(1) by (simp add: peek_def)
  have left: "copy_to_user A (word_of_int cnt) = 0" using A c0 fits by (simp add: uaccess_ok_def)
  have put: "snprintf size_temp txt = (txt, length txt)" by (rule snprintf_fits [OF fits(1)])
  show ?thesis
    unfolding proc_read_def put prod.case Let_def len sc cnt c0(3) pk option.case left by simp
qed

text \<open>The whole text in one read, then the end of the file.\<close>

lemma proc_read_whole:
  assumes "uaccess_ok A" "length txt < size_temp" "size_temp < 2 ^ 31" "uint n < 2 ^ 31" "int (length txt) \<le> uint n"
  shows "proc_read A size_temp txt junk n 0 = Some (word_of_nat (length txt), txt, word_of_nat (length txt))"
    and "proc_read A size_temp txt junk n (word_of_nat (length txt)) = Some (0, [], word_of_nat (length txt))"
  using proc_read_at [OF assms(1-3), of 0 n junk] proc_read_at [OF assms(1-3), of "int (length txt)" n junk] assms(4,5)
  by (simp_all add: min_absorb1)

text \<open>In pieces: the second read gives the first bytes again.\<close>

lemma proc_read_pieces:
  assumes "uaccess_ok A" "length txt < size_temp" "size_temp < 2 ^ 31" "0 \<le> k" "k + uint n \<le> int (length txt)"
  shows "proc_read A size_temp txt junk n (word_of_int k) = Some (n, take (unat n) txt, word_of_int k + n)"
proof -
  have "uint n < 2 ^ 31" using assms by simp
  moreover have "k \<le> int (length txt)" using assms(5) uint_ge_0 [of n] by linarith
  moreover have m: "min (int (length txt) - k) (uint n) = uint n" using assms(5) by simp
  ultimately have "proc_read A size_temp txt junk n (word_of_int k) =
      Some (word_of_int (uint n), take (nat (uint n)) txt, word_of_int (k + uint n))"
    using proc_read_at [OF assms(1-4), of n junk] unfolding m by blast
  moreover have "word_of_int (k + uint n) = word_of_int k + n"
    unfolding wi_hom_add [symmetric] word_of_int_uint ..
  ultimately show ?thesis by (simp only: word_of_int_uint unat_eq_nat_uint)
qed

text \<open>The load that fails for want of the directory has created the two files in \<open>/proc\<close> itself.\<close>

lemma proc_init_exit:
  fixes s :: "'z attrmod_scheme"
  assumes "res_state (klog s) = Some {#}" and "\<forall>h nm p. kret E h (Proc_create nm p) \<noteq> 0"
  defines "t \<equiv> exec (proc_init E) s" and "p \<equiv> kret E (klog s) (Proc_mkdir ''mymodule'')"
  shows "p \<noteq> 0 \<Longrightarrow> result (proc_init E) s = 0 \<and> res_state (klog (exec (proc_exit E) t)) = Some {#}"
    and "p = 0 \<Longrightarrow> result (proc_init E) s = - EFAULT \<and> res_state (klog t) = Some {#R_proc ''val'' 0, R_proc ''config'' 0#}"
  using assms(1,2) unfolding t_def p_def
  by (simp_all add: proc_init_def proc_exit_def run_simps add_mset_commute)

end
