(* ===== verification/Environment.thy ===== *)
theory Environment
  imports Optimization
begin

section \<open>Programs of the solutions: \<open>01_environment\<close> and \<open>04_system/silly\<close>\<close>

text \<open>
  \<open>mem_leaks.c\<close>: a linked list built with \<open>malloc\<close> on an explicit heap, of which
  only the first nodes are freed; \<open>fibonacci.c\<close>: the recursive and the iterative
  function; \<open>syscall.c\<close>: the text of the temperature; \<open>silly_led_control.c\<close>: the
  blinking with a duty cycle. The allocator is a parameter (\<open>allocator_ok\<close> is what C
  promises of it), and so are the readings of the clock.
\<close>

subsection \<open>\<open>mem_leaks.c\<close>\<close>

record alpha =
  attr :: i32
  nxt :: int

type_synonym lheap = "int \<rightharpoonup> alpha"

text \<open>The statics of the two functions \<open>alloc1\<close>, \<open>alloc2\<close> and of \<open>alloc\<close>.\<close>

record leaks =
  heap :: lheap
  root :: int
  cnt1 :: i32
  cnt2 :: i32
  turn :: int

definition leaks_start :: leaks where
  "leaks_start = \<lparr>heap = Map.empty, root = 0, cnt1 = 0, cnt2 = 0, turn = 0\<rparr>"

text \<open>\<open>while (n->next != 0) n = n->next\<close>; \<open>None\<close> is an access to memory not allocated.\<close>

partial_function (option) walk :: "lheap \<Rightarrow> int \<Rightarrow> int option" where
  "walk h n = (case h n of None \<Rightarrow> None
     | Some c \<Rightarrow> if nxt c = 0 then Some n else walk h (nxt c))"

text \<open>The node \<open>ele\<close> with its attribute becomes the last one; \<open>NULL\<close> is not tested.\<close>

definition link_last :: "int \<Rightarrow> i32 \<Rightarrow> leaks \<Rightarrow> leaks option" where
  "link_last ele k s =
     (if ele = 0 then None
      else let h = (heap s)(ele \<mapsto> \<lparr>attr = k, nxt = 0\<rparr>) in
        if root s = 0 then Some (s\<lparr>heap := h, root := ele\<rparr>)
        else case walk h (root s) of
            None \<Rightarrow> None
          | Some n \<Rightarrow> map_option (\<lambda>c. s\<lparr>heap := h(n \<mapsto> c\<lparr>nxt := ele\<rparr>)\<rparr>) (h n))"

definition alloc1 :: "(lheap \<Rightarrow> int) \<Rightarrow> leaks \<Rightarrow> leaks option" where
  "alloc1 mal s = map_option (\<lambda>t. t\<lparr>cnt1 := cnt1 s + 1\<rparr>) (link_last (mal (heap s)) (cnt1 s) s)"

definition alloc2 :: "(lheap \<Rightarrow> int) \<Rightarrow> leaks \<Rightarrow> leaks option" where
  "alloc2 mal s = map_option (\<lambda>t. t\<lparr>cnt2 := cnt2 s + 1\<rparr>) (link_last (mal (heap s)) (cnt2 s) s)"

definition alloc_node :: "(lheap \<Rightarrow> int) \<Rightarrow> leaks \<Rightarrow> leaks option" where
  "alloc_node mal s =
     map_option (\<lambda>t. t\<lparr>turn := (turn t + 1) mod 2\<rparr>) (if turn s = 0 then alloc1 mal s else alloc2 mal s)"

text \<open>\<open>free (NULL)\<close> does nothing; freeing what is not allocated is an error.\<close>

definition dealloc_node :: "leaks \<Rightarrow> leaks option" where
  "dealloc_node s =
     (if root s = 0 then Some s
      else map_option (\<lambda>c. s\<lparr>root := nxt c, heap := (heap s)(root s := None)\<rparr>) (heap s (root s)))"

fun repeat_step :: "nat \<Rightarrow> ('s \<Rightarrow> 's option) \<Rightarrow> 's \<Rightarrow> 's option" where
  "repeat_step 0 f s = Some s"
| "repeat_step (Suc n) f s = Option.bind (f s) (repeat_step n f)"

definition leaks_main :: "(lheap \<Rightarrow> int) \<Rightarrow> leaks option" where
  "leaks_main mal = Option.bind (repeat_step 4000 (alloc_node mal) leaks_start) (repeat_step 15 dealloc_node)"

text \<open>What C promises of \<open>malloc\<close> while memory lasts: an address that is not in use.\<close>

definition allocator_ok :: "(lheap \<Rightarrow> int) \<Rightarrow> bool" where
  "allocator_ok mal \<longleftrightarrow> (\<forall>h. finite (dom h) \<longrightarrow> mal h \<noteq> 0 \<and> mal h \<notin> dom h)"

text \<open>The list of the nodes from an address, with the attributes.\<close>

fun chain :: "lheap \<Rightarrow> int \<Rightarrow> (int \<times> i32) list \<Rightarrow> bool" where
  "chain h p [] \<longleftrightarrow> p = 0"
| "chain h p ((a, k) # xs) \<longleftrightarrow> p = a \<and> a \<noteq> 0 \<and> (\<exists>q. h a = Some \<lparr>attr = k, nxt = q\<rparr> \<and> chain h q xs)"

lemma chain_other: "a \<notin> fst ` set xs \<Longrightarrow> chain (h(a := v)) p xs = chain h p xs"
  by (induction xs arbitrary: p) auto

lemma walk_chain: "chain h p xs \<Longrightarrow> xs \<noteq> [] \<Longrightarrow> walk h p = Some (fst (last xs))"
proof (induction xs arbitrary: p)
  case (Cons x xs)
  obtain a k where x: "x = (a, k)" by (cases x)
  from Cons.prems x obtain q where q: "p = a" "h a = Some \<lparr>attr = k, nxt = q\<rparr>" "chain h q xs" by auto
  show ?case
  proof (cases xs)
    case Nil
    with q x show ?thesis by (simp add: walk.simps)
  next
    case (Cons y ys)
    then have "q \<noteq> 0" using q(3) by (cases y) auto
    with q x Cons Cons.IH [OF q(3)] show ?thesis by (simp add: walk.simps)
  qed
qed simp

text \<open>The new node behind the last one.\<close>

lemma chain_snoc:
  assumes "chain h p xs" "xs \<noteq> []" "distinct (List.map fst xs)" "e \<notin> fst ` set xs" "e \<noteq> 0"
    "h e = Some \<lparr>attr = k, nxt = 0\<rparr>"
  shows "\<exists>c. h (fst (last xs)) = Some c \<and> chain (h(fst (last xs) \<mapsto> c\<lparr>nxt := e\<rparr>)) p (xs @ [(e, k)])"
  using assms
proof (induction xs arbitrary: p)
  case (Cons x xs)
  obtain a b where x: "x = (a, b)" by (cases x)
  from Cons.prems x obtain q where q: "p = a" "a \<noteq> 0" "h a = Some \<lparr>attr = b, nxt = q\<rparr>" "chain h q xs" by auto
  show ?case
  proof (cases "xs = []")
    case True
    with q x Cons.prems show ?thesis by auto
  next
    case False
    have tl: "distinct (List.map fst xs)" "e \<notin> fst ` set xs" using Cons.prems by auto
    from Cons.IH [OF q(4) False tl Cons.prems(5,6)] obtain c
      where c: "h (fst (last xs)) = Some c" "chain (h(fst (last xs) \<mapsto> c\<lparr>nxt := e\<rparr>)) q (xs @ [(e, k)])"
      by blast
    have "fst (last xs) \<in> fst ` set xs" using False by simp
    then have "fst (last xs) \<noteq> a" using Cons.prems(3) x by auto
    with c q x False show ?thesis by (auto simp: fun_upd_def)
  qed
qed simp

text \<open>The state after \<open>n\<close> allocations: the heap is the list, with attributes in pairs.\<close>

definition attrs :: "nat \<Rightarrow> i32 list" where
  "attrs n = List.map (\<lambda>i. word_of_nat (i div 2)) [0..<n]"

definition leaks_inv :: "nat \<Rightarrow> leaks \<Rightarrow> bool" where
  "leaks_inv n s \<longleftrightarrow> (\<exists>xs. chain (heap s) (root s) xs \<and> distinct (List.map fst xs) \<and>
     dom (heap s) = fst ` set xs \<and> List.map snd xs = attrs n) \<and>
     turn s = int (n mod 2) \<and> cnt1 s = word_of_nat ((n + 1) div 2) \<and> cnt2 s = word_of_nat (n div 2)"

lemma link_last_chain:
  assumes c: "chain (heap s) (root s) xs" and d: "distinct (List.map fst xs)"
    and dom: "dom (heap s) = fst ` set xs" and e: "e \<noteq> 0" "e \<notin> dom (heap s)"
  obtains t where "link_last e k s = Some t" and "chain (heap t) (root t) (xs @ [(e, k)])"
    and "dom (heap t) = fst ` set (xs @ [(e, k)])"
    and "turn t = turn s" "cnt1 t = cnt1 s" "cnt2 t = cnt2 s"
proof (cases "xs = []")
  case True
  then have "root s = 0" using c by simp
  with True e dom show ?thesis
    by (intro that [of "s\<lparr>heap := (heap s)(e \<mapsto> \<lparr>attr = k, nxt = 0\<rparr>), root := e\<rparr>"]) (simp_all add: link_last_def)
next
  case False
  then have r: "root s \<noteq> 0" using c by (cases xs) auto
  let ?h = "(heap s)(e \<mapsto> \<lparr>attr = k, nxt = 0\<rparr>)"
  have e': "e \<notin> fst ` set xs" using e dom by simp
  then have ch: "chain ?h (root s) xs" using c by (simp add: chain_other)
  from chain_snoc [OF ch False d e' e(1)] obtain b
    where b: "?h (fst (last xs)) = Some b" "chain (?h(fst (last xs) \<mapsto> b\<lparr>nxt := e\<rparr>)) (root s) (xs @ [(e, k)])"
    by (metis fun_upd_same)
  have "fst (last xs) \<in> fst ` set xs" using False by simp
  with b r e dom walk_chain [OF ch False] show ?thesis
    by (intro that [of "s\<lparr>heap := ?h(fst (last xs) \<mapsto> b\<lparr>nxt := e\<rparr>)\<rparr>"]) (auto simp: link_last_def Let_def)
qed

lemma attrs_Suc: "attrs (Suc n) = attrs n @ [word_of_nat (n div 2)]"
  by (simp add: attrs_def)

lemma alloc_node_inv:
  assumes inv: "leaks_inv n s" and mal: "allocator_ok mal"
  obtains t where "alloc_node mal s = Some t" and "leaks_inv (Suc n) t"
proof -
  from inv obtain xs where xs: "chain (heap s) (root s) xs" "distinct (List.map fst xs)"
    "dom (heap s) = fst ` set xs" "List.map snd xs = attrs n"
    and st: "turn s = int (n mod 2)" "cnt1 s = word_of_nat ((n + 1) div 2)" "cnt2 s = word_of_nat (n div 2)"
    by (auto simp: leaks_inv_def)
  define e where "e = mal (heap s)"
  have e: "e \<noteq> 0" "e \<notin> dom (heap s)" 
    using mal finite_imageI [of "set xs" fst] unfolding allocator_ok_def e_def xs(3) [symmetric] by simp_all
  let ?k = "word_of_nat (n div 2) :: i32"
  obtain t where t: "link_last e ?k s = Some t" "chain (heap t) (root t) (xs @ [(e, ?k)])"
    "dom (heap t) = fst ` set (xs @ [(e, ?k)])" "turn t = turn s" "cnt1 t = cnt1 s" "cnt2 t = cnt2 s"
    by (rule link_last_chain [OF xs(1-3) e])
  have list: "distinct (List.map fst (xs @ [(e, ?k)]))" "List.map snd (xs @ [(e, ?k)]) = attrs (Suc n)"
    using xs e by (auto simp: attrs_Suc)
  show thesis
  proof (cases "even n")
    case True
    then have "cnt1 s = ?k" using st(2) by (metis even_Suc_div_two Suc_eq_plus1)
    with True t list st show thesis
      by (intro that [of "t\<lparr>cnt1 := cnt1 s + 1, turn := 1\<rparr>"])
        (auto simp: alloc_node_def alloc1_def e_def [symmetric] leaks_inv_def even_iff_mod_2_eq_zero intro!: exI [of _ "xs @ [(e, ?k)]"])
  next
    case False
    with t list st show thesis
      by (intro that [of "t\<lparr>cnt2 := cnt2 s + 1, turn := 0\<rparr>"])
        (auto simp: alloc_node_def alloc2_def e_def [symmetric] leaks_inv_def odd_iff_mod_2_eq_one intro!: exI [of _ "xs @ [(e, ?k)]"])
  qed
qed

lemma leaks_start_inv: "leaks_inv 0 leaks_start"
  by (auto simp: leaks_inv_def leaks_start_def attrs_def intro!: exI [of _ "[]"])

lemma alloc_many_inv:
  assumes "allocator_ok mal" "leaks_inv n s"
  shows "\<exists>t. repeat_step k (alloc_node mal) s = Some t \<and> leaks_inv (n + k) t"
  using assms(2)
proof (induction k arbitrary: n s)
  case (Suc k)
  from alloc_node_inv [OF Suc.prems assms(1)] obtain t where t: "alloc_node mal s = Some t" "leaks_inv (Suc n) t" .
  with Suc.IH [OF t(2)] show ?case by simp
qed simp

lemma dealloc_chain:
  assumes "chain (heap s) (root s) (x # xs)" "distinct (List.map fst (x # xs))" "dom (heap s) = fst ` set (x # xs)"
  obtains t where "dealloc_node s = Some t" "chain (heap t) (root t) xs" "dom (heap t) = fst ` set xs"
proof -
  obtain a k where x: "x = (a, k)" by (cases x)
  from assms(1) x obtain q where q: "root s = a" "a \<noteq> 0" "heap s a = Some \<lparr>attr = k, nxt = q\<rparr>" "chain (heap s) q xs"
    by auto
  have "chain ((heap s)(a := None)) q xs" using q(4) assms(2) x by (simp add: chain_other)
  moreover have "dom ((heap s)(a := None)) = fst ` set xs" using assms(2,3) x by auto
  ultimately show thesis using q
    by (intro that [of "s\<lparr>root := q, heap := (heap s)(a := None)\<rparr>"]) (simp_all add: dealloc_node_def)
qed

lemma dealloc_many:
  assumes "chain (heap s) (root s) xs" "distinct (List.map fst xs)" "dom (heap s) = fst ` set xs" "k \<le> length xs"
  shows "\<exists>t. repeat_step k dealloc_node s = Some t \<and> chain (heap t) (root t) (drop k xs) \<and>
    dom (heap t) = fst ` set (drop k xs)"
  using assms
proof (induction k arbitrary: s xs)
  case (Suc k)
  then obtain x ys where xs: "xs = x # ys" by (cases xs) auto
  from dealloc_chain [OF Suc.prems(1-3) [unfolded xs]] obtain t
    where t: "dealloc_node s = Some t" "chain (heap t) (root t) ys" "dom (heap t) = fst ` set ys" .
  with Suc.IH [OF t(2) _ t(3)] Suc.prems(2,4) xs show ?case by simp
qed simp

text \<open>The end of the program: 3985 nodes are still allocated, in the list behind \<open>root\<close>.\<close>

lemma leaks_main_result:
  assumes "allocator_ok mal"
  obtains s xs where "leaks_main mal = Some s" and "chain (heap s) (root s) xs"
    and "dom (heap s) = fst ` set xs"
    and "List.map snd xs = drop 15 (attrs 4000)" and "card (dom (heap s)) = 3985"
proof -
  from alloc_many_inv [OF assms leaks_start_inv, of 4000] obtain t
    where t: "repeat_step 4000 (alloc_node mal) leaks_start = Some t" "leaks_inv 4000 t" by (auto simp del: repeat_step.simps)
  from t(2) obtain xs where xs: "chain (heap t) (root t) xs" "distinct (List.map fst xs)"
    "dom (heap t) = fst ` set xs" "List.map snd xs = attrs 4000" by (auto simp: leaks_inv_def)
  have len: "length xs = 4000" using arg_cong [OF xs(4), of length] by (simp add: attrs_def)
  from dealloc_many [OF xs(1-3), of 15] len obtain s
    where s: "repeat_step 15 dealloc_node t = Some s" "chain (heap s) (root s) (drop 15 xs)"
      "dom (heap s) = fst ` set (drop 15 xs)" by (auto simp del: repeat_step.simps)
  have "leaks_main mal = Some s" using t(1) s(1) by (simp add: leaks_main_def del: repeat_step.simps)
  moreover have "card (dom (heap s)) = 3985"
    using distinct_card [OF distinct_drop [OF xs(2)], of 15] len s(3) by (simp add: drop_map)
  moreover have "List.map snd (drop 15 xs) = drop 15 (attrs 4000)" using xs(4) by (metis drop_map)
  ultimately show thesis using s(2,3) by (intro that)
qed

subsection \<open>\<open>fibonacci.c\<close>\<close>

text \<open>\<open>long\<close> has 64 bits; \<open>n\<close> is the value of the argument.\<close>

function fibonacci_r :: "int \<Rightarrow> s64" where
  "fibonacci_r n = (if n \<le> 1 then word_of_int n else fibonacci_r (n - 1) + fibonacci_r (n - 2))"
  by pat_completeness auto
termination by (relation "measure nat") auto

declare fibonacci_r.simps [simp del]

function fib_loop :: "int \<Rightarrow> s64 \<Rightarrow> s64 \<Rightarrow> s64" where
  "fib_loop n f0 f1 = (if 0 < n then let f1 = f1 + f0; f0 = f1 - f0 in fib_loop (n - 1) f0 f1 else f0)"
  by pat_completeness auto
termination by (relation "measure (\<lambda>(n, _, _). nat n)") auto

declare fib_loop.simps [simp del]

definition fibonacci_i :: "int \<Rightarrow> s64" where
  "fibonacci_i n = fib_loop n 0 1"

text \<open>The line of numbers that \<open>main\<close> prints for \<open>n\<close>.\<close>

definition fibonacci_line :: "int \<Rightarrow> string" where
  "fibonacci_line n = concat (List.map (\<lambda>i. fmt_lld (fibonacci_i i) @ (if i < n - 1 then '', '' else [])) [0..n - 1])"

lemma fib_loop_invariant:
  "fib_loop (int k) (fibonacci_r (int i)) (fibonacci_r (int i + 1)) = fibonacci_r (int i + int k)"
proof (induction k arbitrary: i)
  case (Suc k)
  have step: "fibonacci_r (int i + 1) + fibonacci_r (int i) = fibonacci_r (int i + 2)"
    using fibonacci_r.simps [of "int i + 2"] by (simp add: ac_simps)
  have bck: "fibonacci_r (int i + 2) - fibonacci_r (int i) = fibonacci_r (int i + 1)"
    unfolding step [symmetric] by simp
  have "fib_loop (int (Suc k)) (fibonacci_r (int i)) (fibonacci_r (int i + 1)) =
      fib_loop (int k) (fibonacci_r (int i + 1)) (fibonacci_r (int i + 2))"
    by (subst fib_loop.simps) (simp add: step bck Let_def)
  also have "\<dots> = fibonacci_r (int (Suc i) + int k)"
    using Suc.IH [of "Suc i"] by (simp add: ac_simps)
  finally show ?case by (simp add: ac_simps)
qed (simp add: fib_loop.simps)

lemma fibonacci_i_r: "0 \<le> n \<Longrightarrow> fibonacci_i n = fibonacci_r n"
  using fib_loop_invariant [of "nat n" 0] by (simp add: fibonacci_i_def fibonacci_r.simps [of 0] fibonacci_r.simps [of 1])

subsection \<open>\<open>syscall.c\<close>\<close>

definition fmt_02d :: "i32 \<Rightarrow> string" where
  "fmt_02d w = (let s = show_nat (nat \<bar>sint w\<bar>) in
     if sint w < 0 then CHR ''-'' # replicate (1 - length s) CHR ''0'' @ s
     else replicate (2 - length s) CHR ''0'' @ s)"

definition smod32 :: "i32 \<Rightarrow> i32 \<Rightarrow> i32" where
  "smod32 a b = word_of_int (sint a smod sint b)"

text \<open>What the file gives: \<open>None\<close> when it cannot be opened, or the bytes read, at most 50.\<close>

definition syscall_main :: "string option \<Rightarrow> string" where
  "syscall_main file =
     (let temp = (case file of None \<Rightarrow> 99000 | Some val \<Rightarrow> if val = [] then 99000 else atoi val)
      in ''current temperature: '' @ fmt_d (sdiv32 temp 1000) @ ''.'' @ fmt_02d (smod32 (sdiv32 temp 10) 100) @
         '' degree Celcius'' @ nl)"

subsection \<open>\<open>silly_led_control.c\<close>\<close>

text \<open>The two parts of the period in nanoseconds.\<close>

definition silly_parts :: "string list \<Rightarrow> s64 \<times> s64" where
  "silly_parts argv =
     (let duty = 2 :: s64;
          period = (if 2 \<le> length argv then scast (atoi (argv ! 1)) else 1000) * 1000000 :: s64;
          p1 = sdiv64 period 100 * duty
      in (p1, period - p1))"

record silly =
  silly_t1 :: timespec
  silly_k :: int
  silly_levels :: "bool list"   \<comment> \<open>what has been written to the pin\<close>

definition silly_start :: "timespec \<Rightarrow> silly" where
  "silly_start t = \<lparr>silly_t1 = t, silly_k = 0, silly_levels = [True]\<rparr>"

text \<open>One pass of the polling loop at the time \<open>t2\<close>.\<close>

definition silly_pass :: "s64 \<times> s64 \<Rightarrow> timespec \<Rightarrow> silly \<Rightarrow> silly" where
  "silly_pass p t2 s =
     (let delta = elapsed_ns (silly_t1 s) t2;
          toggle = (silly_k s = 0 \<and> sint (fst p) \<le> sint delta) \<or> (silly_k s = 1 \<and> sint (snd p) \<le> sint delta)
      in if toggle then
           let k = (silly_k s + 1) mod 2
           in s\<lparr>silly_t1 := t2, silly_k := k, silly_levels := silly_levels s @ [k = 0]\<rparr>
         else s)"

definition silly_open_led :: "(ucall \<Rightarrow> ('w, int) state) \<Rightarrow> ('w, int) state" where
  "silly_open_led U = do {
     write_file U GPIO_UNEXPORT ''10'';
     write_file U GPIO_EXPORT ''10'';
     write_file U ''/sys/class/gpio/gpio10/direction'' ''out'';
     U (Open ''/sys/class/gpio/gpio10/value'')
   }"

text \<open>The pin alternates, and the phase says which level it has.\<close>

definition silly_inv :: "silly \<Rightarrow> bool" where
  "silly_inv s \<longleftrightarrow> (let n = length (silly_levels s) in
     0 < n \<and> silly_levels s = List.map even [0..<n] \<and> silly_k s = (int n - 1) mod 2)"

lemma silly_level: "silly_inv s \<Longrightarrow> last (silly_levels s) \<longleftrightarrow> silly_k s = 0"
proof -
  assume inv: "silly_inv s"
  then obtain n where n: "silly_levels s = List.map even [0..<Suc n]" "silly_k s = int n mod 2"
    by (cases "length (silly_levels s)") (auto simp: silly_inv_def Let_def)
  have "int n mod 2 = 0 \<longleftrightarrow> even n" by presburger
  with n show ?thesis by simp
qed

lemma silly_pass_inv:
  assumes "silly_inv s"
  shows "silly_inv (silly_pass p t s)"
proof -
  obtain n where n: "silly_levels s = List.map even [0..<Suc n]" "silly_k s = int n mod 2"
    using assms by (cases "length (silly_levels s)") (auto simp: silly_inv_def Let_def)
  have "(int n mod 2 + 1) mod 2 = int (Suc n) mod 2" by presburger
  moreover have "int (Suc n) mod 2 = 0 \<longleftrightarrow> even (Suc n)" by presburger
  ultimately show ?thesis
    using assms n by (auto simp: silly_pass_def silly_inv_def Let_def)
qed

lemma silly_run_inv: "silly_inv (fold (silly_pass p) ts (silly_start t))"
proof -
  have "silly_inv s \<Longrightarrow> silly_inv (fold (silly_pass p) ts s)" for s
    by (induction ts arbitrary: s) (simp_all add: silly_pass_inv)
  then show ?thesis by (simp add: silly_inv_def silly_start_def)
qed

text \<open>A level is held for its part of the period, by the readings of the clock.\<close>

lemma silly_held:
  assumes "timespec_ok (silly_t1 s)" "timespec_ok t" "silly_levels (silly_pass p t s) \<noteq> silly_levels s"
    and "silly_inv s"
  shows "sint (if last (silly_levels s) then fst p else snd p) \<le> ns_of t - ns_of (silly_t1 s)"
  using assms by (auto simp: silly_pass_def Let_def elapsed_ns_exact silly_level split: if_splits)

end
