(* ===== verification/ExerciseProperties.thy ===== *)
theory ExerciseProperties
  imports Registers Processes Procstat CharSolution AttributeFiles Environment
begin

section \<open>Properties of the exercises and solutions\<close>

text \<open>
  The properties of the character devices, of the attribute files, of the two processes of
  \<open>04-multiprocessing\<close>, of the optimisation lab, of \<open>procstat\<close> and of the programs of
  \<open>01_environment\<close>, each with a witness at a concrete input.
\<close>

text \<open>The user memory of the witnesses: every copy succeeds, a length beyond half the address space fails.\<close>

definition demo_uaccess :: uaccess where
  "demo_uaccess = \<lparr>copy_to_user = (\<lambda>_. 0),
     copy_from_user = (\<lambda>n d. if 2 ^ 63 \<le> uint n then (n, []) else (0, take (unat n) d))\<rparr>"

lemma demo_uaccess_ok: "uaccess_ok demo_uaccess" "uaccess_bounded demo_uaccess"
  by (simp_all add: demo_uaccess_def uaccess_ok_def uaccess_bounded_def)

lemma fio_ok_new: "int (length b) = cap \<Longrightarrow> fio_ok cap \<lparr>private_data = b, f_off = 0\<rparr>"
  by (simp add: fio_ok_def)

text \<open>
  C27: the program of exercise 4 reads back the sentence it wrote, on the driver of the module
  and on the one of the solutions: it returns 0 and the text is the sentence, for every
  contents of the device's buffer and of the memory behind the sentence, when the device can
  be opened twice and the user's memory can be copied.
\<close>

theorem sentence_reads_back:
  assumes "uaccess_ok A" "0 \<le> fd1" "0 \<le> fd2" "2 \<le> length after"
    and "int (length buf) = BUFFER_SIZE" "int (length buf') = BUFFER_SZ"
  shows "(\<exists>b. ex_character_oriented skeleton_read skeleton_write A fd1 fd2 after buf = Some (0, chocolate, b)) \<and>
    (\<exists>b. ex_character_oriented sol_read sol_write A fd1 fd2 after buf' = Some (0, chocolate, b))"
proof
  show "\<exists>b. ex_character_oriented skeleton_read skeleton_write A fd1 fd2 after buf = Some (0, chocolate, b)"
    by (rule course.exercise_reads_back [OF assms(5,1) _ assms(2-4)]) (simp add: DATA_LENGTH_def BUFFER_SIZE_def)
  show "\<exists>b. ex_character_oriented sol_read sol_write A fd1 fd2 after buf' = Some (0, chocolate, b)"
    by (rule solution.exercise_reads_back [OF assms(6,1) _ assms(2-4)]) (simp add: DATA_LENGTH_def BUFFER_SZ_def)
qed

theorem sentence_reads_back_witness:
  "(\<exists>b. ex_character_oriented skeleton_read skeleton_write demo_uaccess 3 4 ''ab'' (replicate 300 CHR 0x00) =
      Some (0, chocolate, b)) \<and>
   (\<exists>b. ex_character_oriented sol_read sol_write demo_uaccess 3 4 ''ab'' (replicate 10000 CHR 0x00) =
      Some (0, chocolate, b))"
  by (rule sentence_reads_back) (simp_all add: demo_uaccess_ok BUFFER_SIZE_def BUFFER_SZ_def)

lemma room_left:
  assumes "fio_ok BUFFER_SIZE f" "sint (f_off f) < BUFFER_SIZE"
  defines "len \<equiv> \<lambda>n. min (word_of_int BUFFER_SIZE - f_off f) n"
  shows "uint (len n) \<le> BUFFER_SIZE - sint (f_off f)" "fio_ok BUFFER_SIZE (f\<lparr>f_off := f_off f + len n\<rparr>)"
proof -
  show le: "uint (len n) \<le> BUFFER_SIZE - sint (f_off f)"
    using assms room_word [of "f_off f" BUFFER_SIZE] by (simp add: fio_ok_def BUFFER_SIZE_def uint_min_word)
  have "sint (f_off f + len n) = sint (f_off f) + uint (len n)"
    by (rule moved_word [where c = BUFFER_SIZE]) (use assms(1) le in \<open>simp_all add: fio_ok_def BUFFER_SIZE_def\<close>)
  then show "fio_ok BUFFER_SIZE (f\<lparr>f_off := f_off f + len n\<rparr>)"
    using assms(1) le uint_ge_0 [of "len n"] by (simp add: fio_ok_def del: uint_ge_0)
qed

lemma read_stays:
  assumes f: "fio_ok BUFFER_SIZE f"
  shows "\<exists>r k g. skeleton_read A n f = Some (r, take k (drop (nat (sint (f_off f))) (private_data f)), g) \<and>
    fio_ok BUFFER_SIZE g \<and> private_data g = private_data f"
proof (cases "BUFFER_SIZE \<le> sint (f_off f)")
  case True
  then have "skeleton_read A n f = Some (0, take 0 (drop (nat (sint (f_off f))) (private_data f)), f)"
    by (simp add: skeleton_read_def)
  with f show ?thesis by blast
next
  case False
  let ?len = "min (word_of_int BUFFER_SIZE - f_off f) n"
  let ?d = "drop (nat (sint (f_off f))) (private_data f)"
  have ok: "fio_ok BUFFER_SIZE (f\<lparr>f_off := f_off f + ?len\<rparr>)" by (rule room_left) (use f False in simp_all)
  show ?thesis
  proof (cases "copy_to_user A ?len = 0")
    case True
    then have "skeleton_read A n f = Some (?len, take (unat ?len) ?d, f\<lparr>f_off := f_off f + ?len\<rparr>)"
      using False by (simp add: skeleton_read_exact [OF f] Let_def)
    moreover have "private_data (f\<lparr>f_off := f_off f + ?len\<rparr>) = private_data f" by simp
    ultimately show ?thesis using ok by blast
  next
    case left: False
    then have "skeleton_read A n f =
        Some (word_of_int (- EFAULT), take (min (unat ?len - unat (copy_to_user A ?len)) (unat ?len)) ?d, f)"
      using False by (simp add: skeleton_read_exact [OF f] Let_def)
    with f show ?thesis by blast
  qed
qed

lemma write_stays:
  assumes f: "fio_ok BUFFER_SIZE f" and cp: "\<forall>n d. length (snd (copy_from_user A n d)) \<le> unat n"
  shows "\<exists>r g. skeleton_write A n d f = Some (r, g) \<and> fio_ok BUFFER_SIZE g"
proof (cases "BUFFER_SIZE \<le> sint (f_off f)")
  case True
  with f show ?thesis by (simp add: skeleton_write_def)
next
  case False
  let ?len = "min (word_of_int BUFFER_SIZE - f_off f) n"
  have off: "sint (f_off f) < BUFFER_SIZE" using False by simp
  note room = room_left [OF f off, of n]
  obtain left placed where c: "copy_from_user A ?len d = (left, placed)" by (cases "copy_from_user A ?len d")
  have "length placed \<le> unat ?len" using cp [rule_format, of ?len d] by (simp only: c snd_conv)
  then have "int (length placed) \<le> uint ?len" unfolding uint_nat by (simp only: of_nat_le_iff)
  with room(1) have "int (length placed) \<le> BUFFER_SIZE - sint (f_off f)" by (rule order.trans [rotated])
  from skeleton_write_exact [OF f off c this] obtain b
    where b: "poke (private_data f) (sint (f_off f)) placed = Some b"
      "skeleton_write A n d f = Some (if left \<noteq> 0 then (word_of_int (- EFAULT), f\<lparr>private_data := b\<rparr>)
        else (?len, \<lparr>private_data = b, f_off = f_off f + ?len\<rparr>))" .
  have "fio_ok BUFFER_SIZE (f\<lparr>private_data := b\<rparr>)" "fio_ok BUFFER_SIZE \<lparr>private_data = b, f_off = f_off f + ?len\<rparr>"
    using f room(2) length_poke [OF b(1)] by (simp_all add: fio_ok_def)
  with b(2) show ?thesis by auto
qed

text \<open>
  C28: the driver keeps to its buffer. A read or a write of any length at a position inside the
  buffer makes no access outside it and leaves a position inside a buffer of the
  same size, whatever part of the data could be copied; the bytes that a read delivers are
  those of the buffer from the position on, and a read changes no byte.
\<close>

theorem device_position_stays:
  assumes "fio_ok BUFFER_SIZE f" and "\<forall>n d. length (snd (copy_from_user A n d)) \<le> unat n"
  shows "(\<exists>r k g. skeleton_read A n f = Some (r, take k (drop (nat (sint (f_off f))) (private_data f)), g) \<and>
      fio_ok BUFFER_SIZE g \<and> private_data g = private_data f) \<and>
    (\<exists>r g. skeleton_write A n d f = Some (r, g) \<and> fio_ok BUFFER_SIZE g)"
  using read_stays [OF assms(1)] write_stays [OF assms] by simp

theorem device_position_stays_witness:
  "\<exists>r g. skeleton_write demo_uaccess 1000 ''abc'' \<lparr>private_data = replicate 300 CHR 0x00, f_off = 0\<rparr> = Some (r, g) \<and>
     fio_ok BUFFER_SIZE g"
proof -
  have "fio_ok BUFFER_SIZE \<lparr>private_data = replicate 300 CHR 0x00, f_off = 0\<rparr>"
    by (rule fio_ok_new) (simp add: BUFFER_SIZE_def)
  moreover have "\<forall>n d. length (snd (copy_from_user demo_uaccess n d)) \<le> unat n" by (simp add: demo_uaccess_def)
  ultimately show ?thesis by (rule device_position_stays [THEN conjunct2])
qed

text \<open>
  In the driver of the solutions a write that does not leave a byte free is answered by
  \<open>-EFAULT\<close>, but not before \<open>count = -EIO\<close> has been used as a length: the position moves
  back by 5 and the byte 5 before it becomes 0, which for the first five bytes is an access
  before the buffer (\<open>None\<close>).
\<close>

theorem oversized_write_corrupts:
  assumes "fio_ok BUFFER_SZ f" "uaccess_bounded A" "BUFFER_SZ \<le> sint (f_off f) + uint n"
  shows "sol_write A n d f =
    (if sint (f_off f) < 5 then None
     else Some (word_of_int (- EFAULT),
       \<lparr>private_data = (private_data f)[nat (sint (f_off f)) - 5 := CHR 0x00], f_off = f_off f - 5\<rparr>))"
  by (rule sol_write_full [OF assms])

theorem oversized_write_corrupts_witness:
  "sol_write demo_uaccess 10000 ''abc'' \<lparr>private_data = replicate 10000 CHR 0x00, f_off = 0\<rparr> = None"
proof -
  have "fio_ok BUFFER_SZ \<lparr>private_data = replicate 10000 CHR 0x00, f_off = 0\<rparr>"
    by (rule fio_ok_new) (simp add: BUFFER_SZ_def)
  from oversized_write_corrupts [OF this demo_uaccess_ok(2), of 10000 "''abc''"] show ?thesis
    by (simp add: BUFFER_SZ_def)
qed

text \<open>
  C29: the two processes exchange the messages in order, without a deadlock. In every reachable
  interleaving the reader has printed the messages it has received, each one whole and in
  order, and the run can go on until all five are written and read. The first line alone has
  the rest of the uninitialised buffer after the message (\<open>seen_text\<close>), up to the first NUL
  that happens to be there.
\<close>

theorem messages_in_order:
  assumes "junk_ok junk" and "exchange_step\<^sup>*\<^sup>* (exchange_start junk) s"
  shows "printed s = List.map (\<lambda>i. message_line i (seen_text junk i)) [0..<got s] \<and> got s \<le> written s \<and>
    ((written s = NBR_MSG \<and> got s = NBR_MSG) \<or> (\<exists>t. exchange_step s t))"
  using exchange_reachable_inv [OF assms(2,1)] exchange_progress [OF exchange_reachable_inv [OF assms(2,1)] assms(1)]
  by (auto simp: exchange_inv_def)

text \<open>A buffer that starts with the letter x in its 15th place: the first line ends with it.\<close>

definition demo_junk :: string where
  "demo_junk = replicate 14 CHR 0x00 @ ''x'' @ replicate 85 CHR 0x00"

theorem messages_in_order_witness:
  "\<exists>s. exchange_step\<^sup>*\<^sup>* (exchange_start demo_junk) s \<and> got s = 1 \<and>
     printed s = [message_line 0 (''Hallo, hallo !'' @ ''x'')]"
proof -
  have junk: "junk_ok demo_junk" by (simp add: junk_ok_def demo_junk_def MSG_def)
  let ?s = "write_message (exchange_start demo_junk)"
  have w: "exchange_step (exchange_start demo_junk) ?s"
    by (rule exchange_step.writes) (simp add: exchange_start_def NBR_MSG_def)
  have inv: "exchange_inv demo_junk ?s"
    by (rule write_inv [OF exchange_start_inv]) (simp add: exchange_start_def NBR_MSG_def)
  have "stream ?s \<noteq> []" by (simp add: write_message_def exchange_start_def MSG_def)
  from read_next [OF inv junk this] obtain t where t: "read_message ?s = Some t" "got t = Suc (got ?s)" .
  have "exchange_step ?s t"
    by (rule exchange_step.reads) (use t in \<open>simp_all add: write_message_def exchange_start_def MSG_def NBR_MSG_def\<close>)
  with w have run: "exchange_step\<^sup>*\<^sup>* (exchange_start demo_junk) t" by simp
  have g: "got t = 1" using t by (simp add: write_message_def exchange_start_def)
  have "seen_text demo_junk 0 = ''Hallo, hallo !'' @ ''x''"
    by (simp add: seen_text_def demo_junk_def MSG_def)
  with messages_in_order [OF junk run] g run show ?thesis by auto
qed

lemma ex02_lines:
  assumes "qsort_ok qs"
  shows "ex02_optimized rand qs n passes = ex02_basic rand n passes"
proof -
  have "mset (qs compare_short (generate rand n)) = mset (generate rand n)" using assms by (simp add: qsort_ok_def)
  from big_mset [OF this] show ?thesis by (simp add: ex02_optimized_def ex02_basic_def sum_loops_value)
qed

lemma ex02_exact:
  assumes "\<forall>i. 0 \<le> rand i" "n \<le> ex02_SIZE" "passes \<le> ex02_passes"
  shows "ex02_basic rand n passes = ''sum='' @ show_int (int passes * big (generate rand n)) @ nl"
proof -
  have d: "\<forall>d \<in> set (generate rand n). 0 \<le> sint d \<and> sint d < 512" using generate_range [OF assms(1)] by blast
  note b = big_range [OF d]
  have "int passes * big (generate rand n) \<le> 10000 * (511 * 65536)"
    using assms(2,3) b by (intro mult_mono) (simp_all add: ex02_SIZE_def ex02_passes_def)
  moreover have "0 \<le> int passes * big (generate rand n)" using b(1) by simp
  ultimately have "sint (word_of_int (int passes * big (generate rand n)) :: u64) = int passes * big (generate rand n)"
    by (intro sint_small64) simp_all
  then show ?thesis by (simp add: ex02_basic_def sum_line_def sum_loops_value del: of_int_mult)
qed

text \<open>
  C30: the optimised programs compute what the basic ones do. The two versions of \<open>ex01\<close>
  leave the same array for every size, and the optimised one visits it in the order of its
  addresses; the two versions of \<open>ex02\<close> print the same line, which is the exact sum, and on
  the sorted data the branch of a pass changes its direction at most once.
\<close>

theorem optimised_programs_agree:
  assumes "qsort_ok qs" "\<forall>i. 0 \<le> rand i" "n \<le> ex02_SIZE" "passes \<le> ex02_passes"
  shows "cells (ex01_optimized k m) = cells (ex01_basic k m) \<and>
    offsets k (ex01_optimized k m) = offsets k m @ [0..<k * k] \<and>
    ex02_basic rand n passes = ''sum='' @ show_int (int passes * big (generate rand n)) @ nl \<and>
    ex02_optimized rand qs n passes = ex02_basic rand n passes \<and>
    switches (branch_trace (qs compare_short (generate rand n))) \<le> 1"
  using ex02_exact [OF assms(2-4)] ex02_lines [OF assms(1)]
    switches_sorted [OF sorted_branch_trace [OF qsort_sorted [OF assms(1)]]]
  by (auto simp: fun_eq_iff ex01_basic_cells ex01_optimized_cells ex01_optimized_offsets)

text \<open>A sort for the witness: insertion by any comparison.\<close>

fun insert_by :: "(16 word \<Rightarrow> 16 word \<Rightarrow> i32) \<Rightarrow> 16 word \<Rightarrow> 16 word list \<Rightarrow> 16 word list" where
  "insert_by cmp x [] = [x]"
| "insert_by cmp x (y # ys) = (if sint (cmp x y) \<le> 0 then x # y # ys else y # insert_by cmp x ys)"

definition insertion_sort :: qsort_fn where
  "insertion_sort cmp xs = foldr (insert_by cmp) xs []"

lemma insert_by_mset [simp]: "mset (insert_by cmp x ys) = add_mset x (mset ys)"
  by (induction ys) simp_all

lemma insert_by_sorted:
  assumes "preorder_cmp cmp" "sorted_wrt (\<lambda>a b. sint (cmp a b) \<le> 0) ys"
  shows "sorted_wrt (\<lambda>a b. sint (cmp a b) \<le> 0) (insert_by cmp x ys)"
  using assms(2)
proof (induction ys)
  case (Cons y ys)
  have set: "set (insert_by cmp x ys) = insert x (set ys)" by (metis insert_by_mset set_mset_add_mset_insert set_mset_mset)
  show ?case
  proof (cases "sint (cmp x y) \<le> 0")
    case True
    have "\<forall>z \<in> set ys. sint (cmp x z) \<le> 0"
      using True Cons.prems assms(1) unfolding preorder_cmp_def by (metis sorted_wrt.simps(2))
    with True Cons.prems show ?thesis by simp
  next
    case False
    then have "sint (cmp y x) \<le> 0" using assms(1) unfolding preorder_cmp_def by blast
    with False Cons show ?thesis by (simp add: set)
  qed
qed simp

lemma insertion_sort_ok: "qsort_ok insertion_sort"
proof -
  have "mset (foldr (insert_by cmp) xs []) = mset xs" for cmp xs by (induction xs) simp_all
  moreover have "sorted_wrt (\<lambda>a b. sint (cmp a b) \<le> 0) (foldr (insert_by cmp) xs [])" if "preorder_cmp cmp" for cmp xs
    by (induction xs) (simp_all add: insert_by_sorted [OF that])
  ultimately show ?thesis by (simp add: qsort_ok_def insertion_sort_def)
qed

theorem optimised_programs_agree_witness:
  "ex02_optimized (\<lambda>i. 300 * int i) insertion_sort 2 3 = ''sum='' @ show_int 900 @ nl"
proof -
  have "big (generate (\<lambda>i. 300 * int i) 2) = 300" by (simp add: big_def generate_def numeral_2_eq_2 signed_modulo_int_def)
  with optimised_programs_agree [OF insertion_sort_ok, of "\<lambda>i. 300 * int i" 2 3] show ?thesis
    by (simp add: ex02_SIZE_def ex02_passes_def)
qed

text \<open>
  The fields of \<open>/proc/<pid>/stat\<close> after the state, in the order of the manual page, with
  the names that the program prints, and the form of each: ticks of the clock, hexadecimal
  or decimal.
\<close>

definition stat_labels :: "string list" where
  "stat_labels = [''ppid'', ''pgid'', ''sid'', ''tty_nr'', ''tty_pgrp'', ''flags'', ''min_flt'', ''cmin_flt'',
     ''maj_flt'', ''cmaj_flt'', ''utime'', ''stime'', ''cutime'', ''cstime'', ''priority'', ''nice'',
     ''num_threads'', ''it_real_value'', ''start_time'', ''vsize'', ''rss'', ''rsslim'', ''start_code'', ''end_code'',
     ''start_stack'', ''esp'', ''eip'', ''pending'', ''blocked'', ''sigign'', ''sigcatch'', ''wchan'', ''zero1'',
     ''zero2'', ''exit_signal'', ''cpu'', ''rt_priority'', ''policy'']"

definition saturated :: "int \<Rightarrow> int" where
  "saturated k = max (- (2 ^ 63)) (min (2 ^ 63 - 1) k)"

definition field_form :: "nat \<Rightarrow> field_printer" where
  "field_form i = (if i \<in> set [10, 11, 12, 13, 17] then Printtime
     else if i \<in> set [27, 28, 29, 30, 34] then Printonex else if i = 18 then Printtimediff else Printone)"

definition shown :: "stat_env \<Rightarrow> nat \<Rightarrow> int \<Rightarrow> string" where
  "shown V i k = (case field_form i of
       Printtime \<Rightarrow> fmt_ticks V (word_of_int (saturated k))
     | Printonex \<Rightarrow> hex_digits 16 (unat (word_of_int (saturated k) :: s64))
     | _ \<Rightarrow> show_int (saturated k))"

lemma clamp_long_saturated: "clamp_long k = saturated k"
  by (simp add: clamp_long_def saturated_def)

lemma sint_saturated: "sint (word_of_int (saturated k) :: s64) = saturated k"
  by (simp add: sint_sbintrunc' signed_take_bit_int_eq_self saturated_def)

lemma stat_fields:
  "\<forall>i \<in> set [0..<38]. stat_prints ! (i + 3) = (field_form i, stat_labels ! i, snd (stat_reads ! (i + 3)))"
  "\<forall>i \<in> set [0..<38]. fst (stat_reads ! (i + 3)) = (if i = 18 then Readunsigned else Readone)"
  "\<forall>i \<in> set [0..<3]. stat_prints ! i = ([Printone, Printstr, Printchar] ! i, [''pid'', ''tcomm'', ''state''] ! i,
      snd (stat_reads ! i))"
  "\<forall>i \<in> set [0..<3]. fst (stat_reads ! i) = [Readone, Readstr, Readchar] ! i"
  "length stat_reads = 41" "length stat_prints = 41"
  by code_simp+

lemma stat_numbers_read:
  assumes "length ks = 38"
  shows "list_all2 fits (drop 3 stat_reads) (List.map Number ks)"
proof -
  have "fits (drop 3 stat_reads ! i) (Number (ks ! i))" if "i < 38" for i
    using bspec [OF stat_fields(2), of i] that stat_fields(5)
    by (cases "stat_reads ! (i + 3)") (auto simp: add.commute [of 3] split: if_splits)
  with assms stat_fields(5) show ?thesis by (simp add: list_all2_conv_all_nth)
qed

text \<open>The store after the reads, by the place of a field in the line.\<close>

lemma stat_line_store:
  fixes pid :: int
  assumes nm: "name \<noteq> []" "\<forall>c \<in> set name. \<not> is_space c" "length name < 4096" and st: "\<not> is_space st"
    and ks: "38 \<le> length ks"
  defines "vs \<equiv> [Number pid, Text name, Letter st] @ List.map Number (take 38 ks)"
  shows "\<exists>g rest. run_reads stat_reads (item_line ([Number pid, Text name, Letter st] @ List.map Number ks),
      procstat_statics) = Some (rest, g) \<and> (\<forall>i < 41. g (snd (stat_reads ! i)) = stored (stat_reads ! i) (vs ! i))"
proof -
  have split: "stat_reads = [(Readone, ''pid''), (Readstr, ''tcomm''), (Readchar, ''state'')] @ drop 3 stat_reads"
    by (simp add: stat_reads_def)
  have len: "length vs = 41" using ks by (simp add: vs_def)
  have "list_all2 fits stat_reads vs"
    unfolding vs_def by (subst split) (use nm st ks in \<open>simp add: stat_numbers_read PATH_MAX_def\<close>)
  from run_reads_line [OF this number_line_starts, of "drop 38 ks" procstat_statics]
  have "run_reads stat_reads (item_line (vs @ List.map Number (drop 38 ks)), procstat_statics) =
      Some (item_line (List.map Number (drop 38 ks)), assign (List.map snd stat_reads) (map2 stored stat_reads vs) procstat_statics)" .
  moreover have "vs @ List.map Number (drop 38 ks) = [Number pid, Text name, Letter st] @ List.map Number ks"
    unfolding vs_def by (simp flip: map_append)
  moreover have "assign (List.map snd stat_reads) (map2 stored stat_reads vs) procstat_statics (snd (stat_reads ! i)) =
      stored (stat_reads ! i) (vs ! i)" if "i < 41" for i
    using assign_nth [OF stat_reads_distinct, of i "map2 stored stat_reads vs" procstat_statics] len that stat_fields(5) by simp
  ultimately show ?thesis by metis
qed

text \<open>What is printed for a field, from the store.\<close>

lemma stat_line_prints:
  assumes "\<forall>i < 41. g (snd (stat_reads ! i)) = stored (stat_reads ! i) (vs ! i)"
    and vs: "vs = [Number pid, Text name, Letter st] @ List.map Number ks" and len: "length ks = 38"
  shows "print_all V g ! 0 = pad20 ''pid'' @ '': '' @ show_int (saturated pid) @ nl"
    and "print_all V g ! 1 = pad20 ''tcomm'' @ '': '' @ name @ nl"
    and "print_all V g ! 2 = pad20 ''state'' @ '': '' @ [st] @ nl"
    and "i < 38 \<Longrightarrow> i \<noteq> 18 \<Longrightarrow> print_all V g ! (i + 3) = pad20 (stat_labels ! i) @ '': '' @ shown V i (ks ! i) @ nl"
    and "print_all V g ! 21 = printtimediff V ''start_time'' (word_of_int (clamp_ulong (ks ! 18)))"
proof -
  have first: "print_all V g ! i = print_field V g ([Printone, Printstr, Printchar] ! i, [''pid'', ''tcomm'', ''state''] ! i,
      snd (stat_reads ! i)) \<and> g (snd (stat_reads ! i)) = stored (stat_reads ! i) (vs ! i) \<and>
      fst (stat_reads ! i) = [Readone, Readstr, Readchar] ! i" if "i < 3" for i
    using bspec [OF stat_fields(3), of i] bspec [OF stat_fields(4), of i] assms(1) that stat_fields(6)
    by (simp add: print_all_def)
  have rest: "print_all V g ! (i + 3) = print_field V g (field_form i, stat_labels ! i, snd (stat_reads ! (i + 3))) \<and>
      g (snd (stat_reads ! (i + 3))) = stored (stat_reads ! (i + 3)) (Number (ks ! i)) \<and>
      fst (stat_reads ! (i + 3)) = (if i = 18 then Readunsigned else Readone)" if "i < 38" for i
    using bspec [OF stat_fields(1), of i] bspec [OF stat_fields(2), of i] spec [OF assms(1), of "i + 3"] that stat_fields(6) vs len
    by (simp add: print_all_def nth_append)
  show "print_all V g ! 0 = pad20 ''pid'' @ '': '' @ show_int (saturated pid) @ nl"
    using first [of 0] vs by (cases "stat_reads ! 0") (simp add: as_num_def fmt_lld_def clamp_long_saturated sint_saturated)
  show "print_all V g ! 1 = pad20 ''tcomm'' @ '': '' @ name @ nl"
    using first [of 1] vs by (cases "stat_reads ! 1") (simp add: as_str_def)
  show "print_all V g ! 2 = pad20 ''state'' @ '': '' @ [st] @ nl"
    using first [of 2] vs by (cases "stat_reads ! 2") (simp add: as_str_def numeral_2_eq_2)
  show "print_all V g ! (i + 3) = pad20 (stat_labels ! i) @ '': '' @ shown V i (ks ! i) @ nl" if "i < 38" "i \<noteq> 18"
    using rest [OF that(1)] that(2)
    by (cases "stat_reads ! (i + 3)")
       (auto simp: as_num_def fmt_lld_def clamp_long_saturated sint_saturated shown_def field_form_def)
  show "print_all V g ! 21 = printtimediff V ''start_time'' (word_of_int (clamp_ulong (ks ! 18)))"
    using rest [of 18] by (cases "stat_reads ! 21") (simp add: as_num_def field_form_def stat_labels_def)
qed

text \<open>
  C31: \<open>procstat\<close> shows the line of \<open>/proc/<pid>/stat\<close>, read from the directory of its
  argument or from standard input. Let the name of the command have no white space and less
  than 4096 characters and the state be no white space; the pid and at least 38 numbers, of
  any size, follow, and any further fields are ignored. Then the program returns 0 and prints
  41 lines: the pid, the name, the state, and for each number its name and its value, in
  decimal, hexadecimal or as ticks of the clock; a number outside of \<open>long long\<close> is shown
  as the nearest one inside, so that an unlimited \<open>rsslim\<close>, 18446744073709551615 in the
  file, is shown as 9223372036854775807. Only the start time is read as unsigned.
\<close>

theorem stat_line_read_back:
  assumes "name \<noteq> []" "\<forall>c \<in> set name. \<not> is_space c" "length name < 4096" "\<not> is_space st" "38 \<le> length ks"
    and "P p = Some (item_line ([Number pid, Text name, Letter st] @ List.map Number ks))"
  shows "\<exists>out. procstat_main V P stdin [prog, p] = Some (0, out) \<and>
    procstat_main V P (item_line ([Number pid, Text name, Letter st] @ List.map Number ks)) [prog] = Some (0, out) \<and>
    length out = 41 \<and>
    out ! 0 = pad20 ''pid'' @ '': '' @ show_int (saturated pid) @ nl \<and>
    out ! 1 = pad20 ''tcomm'' @ '': '' @ name @ nl \<and>
    out ! 2 = pad20 ''state'' @ '': '' @ [st] @ nl \<and>
    (\<forall>i < 38. i \<noteq> 18 \<longrightarrow> out ! (i + 3) = pad20 (stat_labels ! i) @ '': '' @ shown V i (ks ! i) @ nl) \<and>
    out ! 21 = printtimediff V ''start_time'' (word_of_int (clamp_ulong (ks ! 18)))"
proof -
  from stat_line_store [OF assms(1-5), of pid] obtain g rest where g:
    "run_reads stat_reads (item_line ([Number pid, Text name, Letter st] @ List.map Number ks), procstat_statics) = Some (rest, g)"
    "\<forall>i < 41. g (snd (stat_reads ! i)) = stored (stat_reads ! i) (([Number pid, Text name, Letter st] @ List.map Number (take 38 ks)) ! i)"
    by blast
  note out = stat_line_prints [OF g(2) refl, where V = V]
  have "procstat_main V P stdin [prog, p] = Some (0, print_all V g)"
    "procstat_main V P (item_line ([Number pid, Text name, Letter st] @ List.map Number ks)) [prog] = Some (0, print_all V g)"
    using assms(6) g(1) by (simp_all add: procstat_main_def)
  moreover have "length (print_all V g) = 41" using stat_fields(6) by (simp add: print_all_def)
  ultimately show ?thesis using out assms(5) by (intro exI [of _ "print_all V g"]) simp
qed

text \<open>
  The line of process 7, \<open>(sh)\<close>, running, with 49 more numbers, of which the limit of the
  resident set is unlimited.
\<close>

definition demo_numbers :: "int list" where
  "demo_numbers = (List.map int [0..<49])[21 := 18446744073709551615]"

definition demo_stat_env :: stat_env where
  "demo_stat_env = \<lparr>tickspersec = 100, fmt_ticks = (\<lambda>x. show_int (sint x div 100)), uptime = (1000, 50),
     now = 2000, fmt_date = fmt_lld\<rparr>"

theorem stat_line_read_back_witness:
  "\<exists>out. procstat_main demo_stat_env (\<lambda>_. Some (item_line ([Number 7, Text ''(sh)'', Letter CHR ''R''] @
      List.map Number demo_numbers))) [] [''procstat'', ''7''] = Some (0, out) \<and>
    out ! 24 = ''              rsslim: '' @ show_int 9223372036854775807 @ nl"
proof -
  have nm: "''(sh)'' \<noteq> []" "\<forall>c \<in> set ''(sh)''. \<not> is_space c" "length ''(sh)'' < 4096" "\<not> is_space CHR ''R''"
    by (simp_all add: is_space_def)
  have "38 \<le> length demo_numbers" by (simp add: demo_numbers_def)
  moreover define P where "P = (\<lambda>_ :: string. Some (item_line ([Number 7, Text ''(sh)'', Letter CHR ''R''] @
      List.map Number demo_numbers)))"
  then have "P ''7'' = Some (item_line ([Number 7, Text ''(sh)'', Letter CHR ''R''] @ List.map Number demo_numbers))"
    by simp
  ultimately obtain out where
    out: "procstat_main demo_stat_env P [] [''procstat'', ''7''] = Some (0, out)"
      "\<forall>i < 38. i \<noteq> 18 \<longrightarrow> out ! (i + 3) = pad20 (stat_labels ! i) @ '': '' @ shown demo_stat_env i (demo_numbers ! i) @ nl"
    using stat_line_read_back [OF nm, of demo_numbers P "''7''" 7 demo_stat_env "[]" "''procstat''"] by blast
  have "pad20 (stat_labels ! 21) @ '': '' = ''              rsslim: ''" by code_simp
  moreover have "shown demo_stat_env 21 (demo_numbers ! 21) = show_int 9223372036854775807"
    by (simp add: shown_def field_form_def demo_numbers_def saturated_def)
  ultimately have "out ! 24 = ''              rsslim: '' @ show_int 9223372036854775807 @ nl"
    using spec [OF out(2), of 21] by (simp only: append_assoc [symmetric]) (simp del: append_assoc)
  with out(1) show ?thesis unfolding P_def by blast
qed

lemma cut_name:
  assumes "w \<noteq> []" "\<forall>x \<in> set w. \<not> is_space x" "length w < PATH_MAX" "stuck rest" "\<not> is_space c"
  shows "run_reads stat_reads (show_int pid @ CHR '' '' # w @ CHR '' '' # c # rest, procstat_statics) =
    Some (rest, (((procstat_statics(''pid'' := Num (word_of_int (clamp_long pid))))(''tcomm'' := Str w))(''state'' := Chr c)))"
proof -
  have sp: "is_space CHR '' ''" by code_simp
  have nd: "nondigit_start (CHR '' '' # x)" for x using digit_not_space sp by auto
  have "dropWhile is_space (w @ CHR '' '' # c # rest) = w @ CHR '' '' # c # rest" using assms(1,2) by (cases w) simp_all
  then have 1: "read_field (Readone, ''pid'') (show_int pid @ CHR '' '' # w @ CHR '' '' # c # rest, g) =
      Some (w @ CHR '' '' # c # rest, g(''pid'' := Num (word_of_int (clamp_long pid))))" for g
    using scan_field_int [OF nd, of pid] sp by simp
  have sw: "starts_word (c # rest)" using assms(5) by (simp add: starts_word_def)
  have 2: "read_field (Readstr, ''tcomm'') (w @ CHR '' '' # c # rest, g) = Some (c # rest, g(''tcomm'' := Str w))" for g
    using read_item [of "(Readstr, ''tcomm'')" "Text w", OF _ sp sw] assms(1-3) by simp
  have "starts_word rest" using assms(4) by (cases rest) (simp_all add: stuck_def starts_word_def)
  then have 3: "read_field (Readchar, ''state'') (c # rest, g) = Some (rest, g(''state'' := Chr c))" for g
    by simp
  have split: "stat_reads = (Readone, ''pid'') # (Readstr, ''tcomm'') # (Readchar, ''state'') # drop 3 stat_reads"
    by (simp add: stat_reads_def)
  show ?thesis
    by (subst split) (simp only: run_reads.simps 1 2 3 Option.bind.bind_lunit run_reads_stuck [OF stat_reads_numbers assms(4)])
qed

text \<open>
  A command whose name contains white space puts \<open>procstat\<close> out of step: the name is
  cut at the white space, the next character is taken for the state, and when a letter follows
  it every number of the process is printed as 0, whatever the line says.
\<close>

theorem spaced_name_reads_zero:
  assumes "w \<noteq> []" "\<forall>x \<in> set w. \<not> is_space x" "length w < PATH_MAX" "stuck rest" "\<not> is_space c"
  shows "\<exists>g. procstat_main V (\<lambda>_. None) (show_int pid @ CHR '' '' # w @ CHR '' '' # c # rest) [prog] = Some (0, print_all V g) \<and>
    g ''tcomm'' = Str w \<and> g ''state'' = Chr c \<and> (\<forall>x. x \<notin> {''pid'', ''tcomm'', ''state''} \<longrightarrow> g x = Num 0)"
proof -
  let ?g = "((procstat_statics(''pid'' := Num (word_of_int (clamp_long pid))))(''tcomm'' := Str w))(''state'' := Chr c)"
  have "procstat_main V (\<lambda>_. None) (show_int pid @ CHR '' '' # w @ CHR '' '' # c # rest) [prog] = Some (0, print_all V ?g)"
    using cut_name [OF assms, of pid] by (simp add: procstat_main_def)
  moreover have "?g ''tcomm'' = Str w" "?g ''state'' = Chr c" by simp_all
  moreover have "\<forall>x. x \<notin> {''pid'', ''tcomm'', ''state''} \<longrightarrow> ?g x = Num 0" by (simp add: procstat_statics_def)
  ultimately show ?thesis by blast
qed

theorem spaced_name_reads_zero_witness:
  "\<exists>g. procstat_main demo_stat_env (\<lambda>_. None)
       (show_int 7 @ CHR '' '' # ''(Web'' @ CHR '' '' # CHR ''C'' # ''ontent) R 1 7 7'' @ nl) [''procstat''] =
       Some (0, print_all demo_stat_env g) \<and>
     g ''state'' = Chr CHR ''C'' \<and> g ''ppid'' = Num 0"
proof -
  have "''(Web'' \<noteq> []" "\<forall>x \<in> set ''(Web''. \<not> is_space x" "length ''(Web'' < PATH_MAX" "\<not> is_space CHR ''C''"
    by code_simp+
  moreover have "stuck (''ontent) R 1 7 7'' @ nl)" by code_simp
  ultimately obtain g where g: "procstat_main demo_stat_env (\<lambda>_. None)
       (show_int 7 @ CHR '' '' # ''(Web'' @ CHR '' '' # CHR ''C'' # ''ontent) R 1 7 7'' @ nl) [''procstat''] =
       Some (0, print_all demo_stat_env g)" "g ''state'' = Chr CHR ''C''"
     "\<forall>x. x \<notin> {''pid'', ''tcomm'', ''state''} \<longrightarrow> g x = Num 0"
    using spaced_name_reads_zero by meson
  from g(3) have "g ''ppid'' = Num 0" by simp
  with g(1,2) show ?thesis by blast
qed

text \<open>
  What is stored in the attribute files is shown again: the integer \<open>val\<close>, over the
  whole range of \<open>int\<close>, and the configuration, whose name and description are words of
  less than 30 characters; storing a configuration text and showing it gives the same text.
\<close>

theorem attributes_read_back:
  assumes "strtol_ok strtol" "- (2 ^ 31) \<le> k" "k < 2 ^ 31" "config_word (cfg_name c)" "config_word (cfg_descr c)"
  shows "result sysfs_show_val (exec (sysfs_store_val strtol (show_int k @ nl)) s) = show_int k @ nl \<and>
    result sysfs_show_cfg (exec (sysfs_store_cfg (config_text c)) s) = config_text c \<and>
    result (sysfs_store_cfg (config_text c)) s = Some (length (config_text c))"
  using store_val_shown [OF assms(1-3)] scan_config_text [OF assms(4,5)]
  by (simp add: sysfs_store_cfg_def sysfs_show_cfg_def result_bind exec_bind)

definition demo_strtol :: "string \<Rightarrow> s64" where
  "demo_strtol s = (case scan_int s of None \<Rightarrow> 0 | Some (neg, n, _) \<Rightarrow> word_of_int (if neg then - int n else int n))"

lemma demo_strtol_ok: "strtol_ok demo_strtol"
  by (auto simp: strtol_ok_def demo_strtol_def scan_int_show)

definition demo_attrmod :: attrmod where
  "demo_attrmod = \<lparr>klog = [], attr_val = 0, attr_cfg = \<lparr>cfg_id = 0, cfg_ref = 0, cfg_name = [], cfg_descr = []\<rparr>,
     attr_class = 0, attr_device = 0, proc_dir = 0\<rparr>"

theorem attributes_read_back_witness:
  "result sysfs_show_val (exec (sysfs_store_val demo_strtol (show_int (- 42) @ nl)) demo_attrmod) = show_int (- 42) @ nl"
proof -
  let ?c = "\<lparr>cfg_id = 1, cfg_ref = 2, cfg_name = ''a'', cfg_descr = ''b''\<rparr>"
  have "config_word (cfg_name ?c)" "config_word (cfg_descr ?c)" by (simp_all add: config_word_def is_space_def)
  from attributes_read_back [OF demo_strtol_ok _ _ this, of "- 42" demo_attrmod] show ?thesis by simp
qed

text \<open>
  The leak of \<open>mem_leaks\<close>. For every allocator that gives unused addresses, the program
  runs to its end without a wild access; at the end exactly 3985 nodes are still allocated,
  they are the list behind \<open>root\<close>, and they hold the attributes 15 to 3999, each number
  halved because the two functions count separately.
\<close>

theorem leak_is_the_list:
  assumes "allocator_ok mal"
  shows "\<exists>s xs. leaks_main mal = Some s \<and> chain (heap s) (root s) xs \<and> dom (heap s) = fst ` set xs \<and>
    card (dom (heap s)) = 3985 \<and> List.map snd xs = drop 15 (attrs 4000)"
proof -
  obtain s xs where "leaks_main mal = Some s" "chain (heap s) (root s) xs" "dom (heap s) = fst ` set xs"
    "List.map snd xs = drop 15 (attrs 4000)" "card (dom (heap s)) = 3985"
    by (rule leaks_main_result [OF assms])
  then show ?thesis by (intro exI conjI)
qed

text \<open>An allocator: the address above all that are in use.\<close>

definition demo_malloc :: "lheap \<Rightarrow> int" where
  "demo_malloc h = 1 + Max (insert 0 (dom h))"

lemma demo_malloc_ok: "allocator_ok demo_malloc"
  unfolding allocator_ok_def
proof (intro allI impI)
  fix h :: lheap
  assume fin: "finite (dom h)"
  then have "0 \<le> Max (insert 0 (dom h))" by simp
  moreover have "a \<le> Max (insert 0 (dom h))" if "a \<in> dom h" for a using fin that by simp
  ultimately show "demo_malloc h \<noteq> 0 \<and> demo_malloc h \<notin> dom h" by (force simp: demo_malloc_def)
qed

theorem leak_is_the_list_witness:
  "\<exists>s. leaks_main demo_malloc = Some s \<and> card (dom (heap s)) = 3985"
  using leak_is_the_list [OF demo_malloc_ok] by meson

text \<open>
  The iterative Fibonacci function, whose loop keeps one number by subtracting it back out
  of the sum, gives what the recursive one does, for every non-negative argument and also when
  the 64-bit sums wrap around.
\<close>

theorem fibonacci_agree:
  assumes "0 \<le> n"
  shows "fibonacci_i n = fibonacci_r n"
  by (rule fibonacci_i_r [OF assms])

theorem fibonacci_agree_witness: "fibonacci_i 10 = fibonacci_r 10 \<and> fibonacci_i 10 = 55"
  using fibonacci_agree [of 10] by (simp add: fibonacci_i_def fib_loop.simps Let_def)

end
