(* ===== verification/ModuleSolutions.thy ===== *)
theory ModuleSolutions
  imports ModuleLabs CharDriver "HOL-Library.Sublist"
begin

section \<open>The kernel modules of the solutions: \<open>02_modules/exercice04\<close> to \<open>exercice08\<close>\<close>

text \<open>
  The solutions of the module exercises: elements that are allocated one by one, the read-out
  of registers, the periodic thread, the thread that kicks another, the three keys. Lemmas:
  the list holds what could be allocated and the exit frees all of it; what an early return
  leaves behind; the thread prints what the one of \<open>ModuleLabs\<close> prints; the counter
  \<open>is_kicked\<close> in every interleaving; the requests of the keys and what a refusal leaves.
\<close>

subsection \<open>\<open>exercice04\<close>: a list of allocated elements\<close>

record list_element =
  ele_addr :: int
  ele_text :: string
  ele_nr :: i32

record listmod = klog + my_list :: "list_element list"

text \<open>\<open>struct element\<close> has \<open>sz\<close> bytes; the allocation that fails leaves its index out.\<close>

fun list_fill :: "kenv \<Rightarrow> nat \<Rightarrow> string \<Rightarrow> nat list \<Rightarrow> ('z listmod_scheme, unit) state" where
  "list_fill E sz msg [] = ret ()"
| "list_fill E sz msg (i # is) = do {
     p \<leftarrow> kapi E (Kcalloc 1 sz);
     only_if (p \<noteq> 0) (modify (\<lambda>s. s\<lparr>my_list := my_list s @
       [\<lparr>ele_addr = p, ele_text = take 99 msg, ele_nr = word_of_nat i\<rparr>]\<rparr>));
     list_fill E sz msg is
   }"

definition list_init :: "kenv \<Rightarrow> nat \<Rightarrow> string \<Rightarrow> i32 \<Rightarrow> ('z listmod_scheme, int) state" where
  "list_init E sz msg elements = do {
     list_fill E sz msg [0..<nat (sint elements)];
     ret 0
   }"

text \<open>The printed lines, each its running number, the element's number and its text; then the frees.\<close>

fun list_free :: "kenv \<Rightarrow> list_element list \<Rightarrow> ('z listmod_scheme, unit) state" where
  "list_free E [] = ret ()"
| "list_free E (e # es) = do {
     modify (\<lambda>s. s\<lparr>my_list := es\<rparr>);
     void (kapi E (Kfree (ele_addr e)));
     list_free E es
   }"

definition list_exit :: "kenv \<Rightarrow> ('z listmod_scheme, (nat \<times> i32 \<times> string) list) state" where
  "list_exit E = do {
     es \<leftarrow> gets my_list;
     list_free E es;
     ret (zip [0..<length es] (List.map (\<lambda>e. (ele_nr e, ele_text e)) es))
   }"

definition elements_owned :: "list_element list \<Rightarrow> kres multiset" where
  "elements_owned es = mset (List.map (\<lambda>e. R_mem (ele_addr e)) es)"

text \<open>The state after one round of the loop.\<close>

definition list_added :: "kenv \<Rightarrow> nat \<Rightarrow> string \<Rightarrow> nat \<Rightarrow> 'z listmod_scheme \<Rightarrow> 'z listmod_scheme" where
  "list_added E sz msg i s = (let p = kret E (klog s) (Kcalloc 1 sz) in
     s\<lparr>klog := klog s @ [(Kcalloc 1 sz, p)], my_list := my_list s @
       (if p = 0 then [] else [\<lparr>ele_addr = p, ele_text = take 99 msg, ele_nr = word_of_nat i\<rparr>])\<rparr>)"

lemma list_fill_step:
  "exec (list_fill E sz msg (i # is)) s = exec (list_fill E sz msg is) (list_added E sz msg i s)"
  by (simp add: run_simps list_added_def Let_def)

definition elements_kept :: "'z listmod_scheme \<Rightarrow> bool" where
  "elements_kept s \<longleftrightarrow> res_state (klog s) = Some (elements_owned (my_list s)) \<and>
     (\<forall>e \<in> set (my_list s). ele_addr e \<noteq> 0)"

lemma list_added_kept: "elements_kept s \<Longrightarrow> elements_kept (list_added E sz msg i s)"
  by (auto simp: elements_kept_def list_added_def Let_def elements_owned_def)

lemma list_fill_kept: "elements_kept s \<Longrightarrow> elements_kept (exec (list_fill E sz msg is) s)"
proof (induction "is" arbitrary: s)
  case (Cons i "is")
  then show ?case unfolding list_fill_step by (intro Cons.IH list_added_kept)
qed simp

text \<open>Which elements there are: a subsequence of the indices, all of them when nothing fails.\<close>

lemma list_fill_numbers:
  "\<exists>js. subseq js is \<and>
     List.map ele_nr (my_list (exec (list_fill E sz msg is) s)) =
       List.map ele_nr (my_list s) @ List.map word_of_nat js \<and>
     ((\<forall>h. kret E h (Kcalloc 1 sz) \<noteq> 0) \<longrightarrow> js = is)"
proof (induction "is" arbitrary: s)
  case Nil
  show ?case by simp
next
  case (Cons i "is")
  define t where "t = list_added E sz msg i s"
  have ex: "exec (list_fill E sz msg (i # is)) s = exec (list_fill E sz msg is) t"
    unfolding t_def by (rule list_fill_step)
  from Cons.IH [of t] obtain js where js: "subseq js is"
    "List.map ele_nr (my_list (exec (list_fill E sz msg is) t)) = List.map ele_nr (my_list t) @ List.map word_of_nat js"
    "(\<forall>h. kret E h (Kcalloc 1 sz) \<noteq> 0) \<longrightarrow> js = is" by blast
  show ?case
  proof (cases "kret E (klog s) (Kcalloc 1 sz) = 0")
    case True
    then have "List.map ele_nr (my_list t) = List.map ele_nr (my_list s)"
      by (simp add: t_def list_added_def)
    then show ?thesis using js True unfolding ex by (intro exI [of _ js]) auto
  next
    case False
    then have "List.map ele_nr (my_list t) = List.map ele_nr (my_list s) @ [word_of_nat i]"
      by (simp add: t_def list_added_def Let_def)
    then show ?thesis using js unfolding ex by (intro exI [of _ "i # js"]) auto
  qed
qed

lemma list_free_owned:
  "res_state (klog s) = Some (elements_owned es + R) \<Longrightarrow> \<forall>e \<in> set es. ele_addr e \<noteq> 0 \<Longrightarrow> my_list s = es \<Longrightarrow>
   res_state (klog (exec (list_free E es) s)) = Some R \<and> my_list (exec (list_free E es) s) = []"
  by (induction es arbitrary: s) (simp_all add: run_simps elements_owned_def)

lemma list_init_exit:
  fixes s :: "'z listmod_scheme" and E :: kenv and sz :: nat and msg :: string and elements :: i32
  assumes "res_state (klog s) = Some {#}" and "my_list s = []"
  defines "t \<equiv> exec (list_init E sz msg elements) s"
  shows "res_state (klog (exec (list_exit E) t)) = Some {#}"
    and "my_list (exec (list_exit E) t) = []"
    and "List.map fst (result (list_exit E) t) = [0..<length (my_list t)]"
    and "\<exists>js. subseq js [0..<nat (sint elements)] \<and> List.map (\<lambda>x. fst (snd x)) (result (list_exit E) t) = List.map word_of_nat js \<and>
      ((\<forall>h. kret E h (Kcalloc 1 sz) \<noteq> 0) \<longrightarrow> js = [0..<nat (sint elements)])"
proof -
  have t: "t = exec (list_fill E sz msg [0..<nat (sint elements)]) s"
    by (simp add: t_def list_init_def exec_bind)
  have "elements_kept s" using assms(1,2) by (simp add: elements_kept_def elements_owned_def)
  then have "elements_kept t" unfolding t by (rule list_fill_kept)
  then have own: "res_state (klog t) = Some (elements_owned (my_list t) + {#})" "\<forall>e \<in> set (my_list t). ele_addr e \<noteq> 0"
    by (simp_all add: elements_kept_def)
  show "res_state (klog (exec (list_exit E) t)) = Some {#}" "my_list (exec (list_exit E) t) = []"
    using list_free_owned [OF own refl, of E] by (simp_all add: list_exit_def exec_bind)
  show "List.map fst (result (list_exit E) t) = [0..<length (my_list t)]"
    by (simp add: list_exit_def result_bind)
  have "List.map (\<lambda>x. fst (snd x)) (result (list_exit E) t) = List.map ele_nr (my_list t)"
    by (intro nth_equalityI) (simp_all add: list_exit_def result_bind)
  moreover have "List.map ele_nr (my_list s) = []" using assms(2) by simp
  ultimately show "\<exists>js. subseq js [0..<nat (sint elements)] \<and> List.map (\<lambda>x. fst (snd x)) (result (list_exit E) t) = List.map word_of_nat js \<and>
      ((\<forall>h. kret E h (Kcalloc 1 sz) \<noteq> 0) \<longrightarrow> js = [0..<nat (sint elements)])"
    using list_fill_numbers [of "[0..<nat (sint elements)]" E sz msg s] unfolding t by (simp only: append_Nil)
qed

subsection \<open>\<open>exercice05\<close>: one region, three mappings\<close>

record sidmod = klog + sid_region :: int  \<comment> \<open>\<open>res[0]\<close>\<close>

text \<open>\<open>Inl\<close>: the error that is returned. The reads in between are those of \<open>ModuleLabs\<close>.\<close>

definition regs_init :: "kenv \<Rightarrow> ('z sidmod_scheme, int + io_values) state" where
  "regs_init E = do {
     res0 \<leftarrow> kapi E (Request_mem_region CHIP_ID_BASE_ADDR 0x1000 ''allwiner h5 sid'');
     modify (\<lambda>s. s\<lparr>sid_region := res0\<rparr>);
     reg0 \<leftarrow> kapi E (Ioremap CHIP_ID_BASE_ADDR 0x1000);
     reg1 \<leftarrow> kapi E (Ioremap TEMPERATURE_SENSOR_BASE_ADDR 0x1000);
     reg2 \<leftarrow> kapi E (Ioremap ETHERNET_CONTROLLER_BASE_ADDR 0x1000);
     if reg0 = 0 \<or> reg1 = 0 \<or> reg2 = 0 then ret (Inl (- EFAULT))
     else do {
       v \<leftarrow> io_readout E reg0 reg1 reg2;
       void (kapi E (Iounmap reg0));
       void (kapi E (Iounmap reg1));
       void (kapi E (Iounmap reg2));
       ret (Inr v)
     }
   }"

definition regs_exit :: "kenv \<Rightarrow> ('z sidmod_scheme, unit) state" where
  "regs_exit E = do {
     res0 \<leftarrow> gets sid_region;
     only_if (res0 \<noteq> 0) (void (kapi E (Release_mem_region CHIP_ID_BASE_ADDR 0x1000)))
   }"

definition mapping_of :: "int \<Rightarrow> kres multiset" where
  "mapping_of p = (if p = 0 then {#} else {#R_mapping p#})"

definition sid_owned :: "int \<Rightarrow> kres multiset" where
  "sid_owned p = (if p = 0 then {#} else {#R_region CHIP_ID_BASE_ADDR#})"

lemma ioread_sid [simp]: "sid_region (exec (ioread E p) s) = sid_region s"
  by (simp add: ioread_def exec_bind)

lemma io_readout_sid [simp]: "sid_region (exec (io_readout E p q r) s) = sid_region s"
  by (simp add: io_readout_def exec_bind)

text \<open>With three mappings all that stays is the region; otherwise the mappings that worked stay too.\<close>

lemma regs_init_resources:
  fixes s :: "'z sidmod_scheme" and E :: kenv
  assumes "res_state (klog s) = Some R"
  defines "m \<equiv> (regs_init E :: ('z sidmod_scheme, int + io_values) state)"
  obtains p0 p1 p2 where
    "res_state (klog (exec m s)) = Some ((if p0 = 0 \<or> p1 = 0 \<or> p2 = 0
        then mapping_of p2 + (mapping_of p1 + mapping_of p0) else {#}) + (sid_owned (sid_region (exec m s)) + R))"
    "(result m s = Inl (- EFAULT)) = (p0 = 0 \<or> p1 = 0 \<or> p2 = 0)"
proof -
  define c0 where "c0 = Request_mem_region CHIP_ID_BASE_ADDR 0x1000 ''allwiner h5 sid''"
  define c1 where "c1 = Ioremap CHIP_ID_BASE_ADDR 0x1000"
  define c2 where "c2 = Ioremap TEMPERATURE_SENSOR_BASE_ADDR 0x1000"
  define c3 where "c3 = Ioremap ETHERNET_CONTROLLER_BASE_ADDR 0x1000"
  define s1 where "s1 = (exec (kapi E c0) s)\<lparr>sid_region := result (kapi E c0) s\<rparr>"
  define s2 where "s2 = exec (kapi E c1) s1"
  define s3 where "s3 = exec (kapi E c2) s2"
  define s4 where "s4 = exec (kapi E c3) s3"
  define p0 where "p0 = result (kapi E c1) s1"
  define p1 where "p1 = result (kapi E c2) s2"
  define p2 where "p2 = result (kapi E c3) s3"
  note calls = c0_def [symmetric] c1_def [symmetric] c2_def [symmetric] c3_def [symmetric]
  note fold = s1_def [symmetric] s2_def [symmetric] s3_def [symmetric] s4_def [symmetric]
    p0_def [symmetric] p1_def [symmetric] p2_def [symmetric]
  have 1: "res_state (klog s1) = Some (sid_owned (sid_region s1) + R)"
    using assms(1) by (simp add: s1_def c0_def sid_owned_def)
  have 4: "res_state (klog s4) = Some (mapping_of p2 + (mapping_of p1 + (mapping_of p0 + (sid_owned (sid_region s1) + R))))"
    using 1 by (simp add: s4_def s3_def s2_def p2_def p1_def p0_def c1_def c2_def c3_def mapping_of_def)
  have sid: "sid_region s4 = sid_region s1" by (simp add: s4_def s3_def s2_def)
  show ?thesis
  proof (cases "p0 = 0 \<or> p1 = 0 \<or> p2 = 0")
    case True
    then have "exec m s = s4" "result m s = Inl (- EFAULT)"
      by (simp_all add: m_def regs_init_def lab_simps calls fold del: exec_kapi result_kapi)
    with True 4 sid show ?thesis by (intro that [of p0 p1 p2]) (simp_all add: ac_simps)
  next
    case False
    then have "res_state (klog (exec m s)) = Some (sid_owned (sid_region (exec m s)) + R)"
      using 4 sid by (simp add: m_def regs_init_def lab_simps calls fold mapping_of_def del: exec_kapi result_kapi)
        (simp add: add_mset_commute)
    moreover have "\<exists>v. result m s = Inr v"
      using False by (simp add: m_def regs_init_def lab_simps calls fold del: exec_kapi result_kapi)
    ultimately show ?thesis using False by (intro that [of p0 p1 p2]) auto
  qed
qed

lemma regs_exit_resources:
  "res_state (klog s) = Some (sid_owned (sid_region s) + R) \<Longrightarrow>
   res_state (klog (exec (regs_exit E) s)) = Some R"
  by (simp add: regs_exit_def sid_owned_def run_simps)

subsection \<open>\<open>exercice06\<close>: the periodic thread\<close>

text \<open>\<open>None\<close>: the loop did not end within the fuel. The thread sleeps before it prints.\<close>

fun skeleton_thread :: "kenv \<Rightarrow> nat \<Rightarrow> ('z ping_scheme, int option) state" where
  "skeleton_thread E 0 = ret None"
| "skeleton_thread E (Suc fuel) = do {
     stop \<leftarrow> kapi E Kthread_should_stop;
     if stop \<noteq> 0 then ret (Some 0)
     else do {
       void (kapi E (Ssleep 5));
       modify (\<lambda>s. s\<lparr>pings_printed := pings_printed s + 1\<rparr>);
       skeleton_thread E fuel
     }
   }"

definition kthread_init :: "kenv \<Rightarrow> ('z ping_scheme, int) state" where
  "kthread_init E = do {
     t \<leftarrow> kapi E (Kthread_run ''s/thread'');
     modify (\<lambda>s. s\<lparr>sample_thread := t\<rparr>);
     ret 0
   }"

definition kthread_exit :: "kenv \<Rightarrow> ('z ping_scheme, unit) state" where
  "kthread_exit E = do {
     t \<leftarrow> gets sample_thread;
     void (kapi E (Kthread_stop t))
   }"

text \<open>The same messages as the thread of the course module, which prints before it sleeps.\<close>

lemma ping_updates:
  "s\<lparr>klog := l, pings_printed := n\<rparr> = s\<lparr>pings_printed := n, klog := l\<rparr>"
  by (cases s) simp

lemma skeleton_thread_eq:
  "result (skeleton_thread E fuel) s = result (thread_skeletonThread E fuel) s \<and>
   exec (skeleton_thread E fuel) s = exec (thread_skeletonThread E fuel) s"
proof (induction fuel arbitrary: s)
  case (Suc fuel)
  then show ?case by (simp add: run_simps DELAY_S_def ping_updates)
qed simp

lemma kthread_init_exit:
  "res_state (klog s) = Some {#} \<Longrightarrow>
   result (kthread_init E) s = 0 \<and> res_state (klog (exec (do { kthread_init E; kthread_exit E }) s)) =
     (if IS_ERR (kret E (klog s) (Kthread_run ''s/thread'')) then None else Some {#})"
  by (simp add: kthread_init_def kthread_exit_def run_simps)

subsection \<open>\<open>exercice07\<close>: a thread that kicks another\<close>

text \<open>
  As in \<open>s02e07-sleeping.c\<close>, one step per statement. The first thread waits until it is
  kicked and takes the kick by \<open>atomic_dec\<close>; a signal ends it (\<open>-ERESTARTSYS\<close>). The second
  one sleeps, sets \<open>is_kicked\<close> and wakes the queue. The exit stops the second thread first.
\<close>

datatype kick_pc1 = KTest1 | KWait1 | KAsleep1 | KDec1 | KDone1
datatype kick_pc2 = KTest2 | KSleep2 | KSet2 | KWake2 | KDone2

record kicking =
  kick_at1 :: kick_pc1
  kick_at2 :: kick_pc2
  is_kicked :: int
  kick_stop1 :: bool
  kick_stop2 :: bool
  kicks_set :: nat
  kicks_taken :: nat

definition kicking_start :: kicking where
  "kicking_start = \<lparr>kick_at1 = KTest1, kick_at2 = KTest2, is_kicked = 0, kick_stop1 = False,
     kick_stop2 = False, kicks_set = 0, kicks_taken = 0\<rparr>"

definition skeleton_thread_1 :: "kicking \<Rightarrow> kicking option" where
  "skeleton_thread_1 s = (case kick_at1 s of
       KTest1 \<Rightarrow> Some (s\<lparr>kick_at1 := if kick_stop1 s then KDone1 else KWait1\<rparr>)
     | KWait1 \<Rightarrow> Some (s\<lparr>kick_at1 := if is_kicked s \<noteq> 0 \<or> kick_stop1 s then KDec1 else KAsleep1\<rparr>)
     | KAsleep1 \<Rightarrow> None
     | KDec1 \<Rightarrow> Some (s\<lparr>is_kicked := is_kicked s - 1, kicks_taken := kicks_taken s + 1, kick_at1 := KTest1\<rparr>)
     | KDone1 \<Rightarrow> None)"

text \<open>A signal that arrives while the first thread waits.\<close>

definition interrupted_1 :: "kicking \<Rightarrow> kicking option" where
  "interrupted_1 s = (if kick_at1 s = KAsleep1 \<or> kick_at1 s = KWait1 \<and> is_kicked s = 0 \<and> \<not> kick_stop1 s
     then Some (s\<lparr>kick_at1 := KDone1\<rparr>) else None)"

definition skeleton_thread_2 :: "kicking \<Rightarrow> kicking option" where
  "skeleton_thread_2 s = (case kick_at2 s of
       KTest2 \<Rightarrow> Some (s\<lparr>kick_at2 := if kick_stop2 s then KDone2 else KSleep2\<rparr>)
     | KSleep2 \<Rightarrow> Some (s\<lparr>kick_at2 := KSet2\<rparr>)
     | KSet2 \<Rightarrow> Some (s\<lparr>is_kicked := 1, kicks_set := kicks_set s + 1, kick_at2 := KWake2\<rparr>)
     | KWake2 \<Rightarrow> Some (s\<lparr>kick_at2 := KTest2, kick_at1 := if kick_at1 s = KAsleep1 then KWait1 else kick_at1 s\<rparr>)
     | KDone2 \<Rightarrow> None)"

definition kicking_exit :: "kicking \<Rightarrow> kicking option" where
  "kicking_exit s =
     (if \<not> kick_stop2 s then Some (s\<lparr>kick_stop2 := True\<rparr>)
      else if kick_at2 s = KDone2 \<and> \<not> kick_stop1 s
      then Some (s\<lparr>kick_stop1 := True, kick_at1 := if kick_at1 s = KAsleep1 then KWait1 else kick_at1 s\<rparr>)
      else None)"

inductive kicking_step :: "kicking \<Rightarrow> kicking \<Rightarrow> bool" where
  kick_1: "skeleton_thread_1 s = Some t \<Longrightarrow> kicking_step s t"
| kick_2: "skeleton_thread_2 s = Some t \<Longrightarrow> kicking_step s t"
| kick_signal: "interrupted_1 s = Some t \<Longrightarrow> kicking_step s t"
| kick_exit: "kicking_exit s = Some t \<Longrightarrow> kicking_step s t"

inductive kicking_reach :: "kicking \<Rightarrow> bool" where
  kicking_init: "kicking_reach kicking_start"
| kicking_next: "kicking_reach s \<Longrightarrow> kicking_step s t \<Longrightarrow> kicking_reach t"

inductive_simps kicking_step_iff: "kicking_step s t"

text \<open>
  Until the first thread is told to stop the counter is 0 or 1, and a kick that is set is
  taken at most once. The stop is taken for a kick: at the end the counter may be \<open>-1\<close>.
\<close>

definition kicking_inv :: "kicking \<Rightarrow> bool" where
  "kicking_inv s \<longleftrightarrow>
     (kick_stop1 s \<longrightarrow> kick_stop2 s \<and> kick_at2 s = KDone2) \<and>
     (kick_at2 s = KDone2 \<longrightarrow> kick_stop2 s) \<and> (kick_at1 s = KAsleep1 \<longrightarrow> \<not> kick_stop1 s) \<and>
     (is_kicked s = 0 \<or> is_kicked s = 1 \<or> is_kicked s = - 1 \<and> kick_stop1 s \<and> kick_at1 s \<in> {KTest1, KDone1}) \<and>
     (kick_at1 s = KDec1 \<longrightarrow> is_kicked s = 1 \<or> kick_stop1 s) \<and>
     (kick_at1 s = KAsleep1 \<longrightarrow> is_kicked s = 0 \<or> kick_at2 s = KWake2) \<and>
     int (kicks_taken s) + is_kicked s \<le> int (kicks_set s)"

lemma kicking_inv_start: "kicking_inv kicking_start"
  by (simp add: kicking_inv_def kicking_start_def)

lemma kicking_inv_1: "skeleton_thread_1 s = Some t \<Longrightarrow> kicking_inv s \<Longrightarrow> kicking_inv t"
  unfolding skeleton_thread_1_def kicking_inv_def
  by (cases "kick_at1 s"; cases "kick_stop1 s"; clarsimp split: if_splits)

lemma kicking_inv_2: "skeleton_thread_2 s = Some t \<Longrightarrow> kicking_inv s \<Longrightarrow> kicking_inv t"
  unfolding skeleton_thread_2_def kicking_inv_def
  by (cases "kick_at2 s"; cases "kick_at1 s"; cases "kick_stop1 s"; clarsimp split: if_splits; elim disjE; simp)

lemma kicking_inv_signal: "interrupted_1 s = Some t \<Longrightarrow> kicking_inv s \<Longrightarrow> kicking_inv t"
  unfolding interrupted_1_def kicking_inv_def
  by (cases "kick_at1 s"; cases "kick_stop1 s"; clarsimp split: if_splits)

lemma kicking_inv_exit: "kicking_exit s = Some t \<Longrightarrow> kicking_inv s \<Longrightarrow> kicking_inv t"
  unfolding kicking_exit_def kicking_inv_def
  by (cases "kick_at2 s"; cases "kick_at1 s"; cases "kick_stop1 s"; clarsimp split: if_splits)

lemma kicking_reach_inv: "kicking_reach s \<Longrightarrow> kicking_inv s"
  by (induction rule: kicking_reach.induct)
    (auto simp: kicking_inv_start kicking_step_iff
      intro: kicking_inv_1 kicking_inv_2 kicking_inv_signal kicking_inv_exit)

lemma kicking_blocked:
  "kicking_inv s \<Longrightarrow> skeleton_thread_1 s = None \<Longrightarrow> skeleton_thread_2 s = None \<Longrightarrow> kicking_exit s = None \<Longrightarrow>
   kick_at1 s = KDone1 \<and> kick_at2 s = KDone2 \<and> kick_stop1 s"
  by (cases "kick_at1 s"; cases "kick_at2 s")
    (auto simp: skeleton_thread_1_def skeleton_thread_2_def kicking_exit_def kicking_inv_def split: if_splits)

lemma kicking_not_stuck:
  assumes "kicking_inv s" "\<And>t. \<not> kicking_step s t"
  shows "kick_at1 s = KDone1 \<and> kick_at2 s = KDone2 \<and> kick_stop1 s"
  using assms(2) by (intro kicking_blocked [OF assms(1)]) (meson kicking_step.intros not_None_eq)+

text \<open>Once stopped, the first thread ends in at most four steps of its own.\<close>

definition steps_left :: "kicking \<Rightarrow> nat" where
  "steps_left s = (case kick_at1 s of KWait1 \<Rightarrow> 3 | KDec1 \<Rightarrow> 2 | KTest1 \<Rightarrow> 1 | _ \<Rightarrow> 0)"

lemma kicking_stop_ends:
  "skeleton_thread_1 s = Some t \<Longrightarrow> kick_stop1 s \<Longrightarrow> steps_left t < steps_left s"
  by (cases "kick_at1 s") (auto simp: skeleton_thread_1_def steps_left_def)

record kickers = klog +
  my_thread0 :: int
  my_thread1 :: int

definition kicking_load :: "kenv \<Rightarrow> ('z kickers_scheme, int) state" where
  "kicking_load E = do {
     t0 \<leftarrow> kapi E (Kthread_run ''s/thread/1'');
     modify (\<lambda>s. s\<lparr>my_thread0 := t0\<rparr>);
     t1 \<leftarrow> kapi E (Kthread_run ''s/thread/2'');
     modify (\<lambda>s. s\<lparr>my_thread1 := t1\<rparr>);
     ret 0
   }"

definition kicking_unload :: "kenv \<Rightarrow> ('z kickers_scheme, unit) state" where
  "kicking_unload E = do {
     t1 \<leftarrow> gets my_thread1;
     void (kapi E (Kthread_stop t1));
     t0 \<leftarrow> gets my_thread0;
     void (kapi E (Kthread_stop t0))
   }"

lemma kicking_load_unload:
  assumes "res_state (klog s) = Some {#}" and "\<forall>h n. \<not> IS_ERR (kret E h (Kthread_run n))"
  shows "res_state (klog (exec (do { kicking_load E; kicking_unload E }) s)) = Some {#}"
  using assms by (simp add: kicking_load_def kicking_unload_def run_simps)

subsection \<open>\<open>exercice08\<close>: three keys\<close>

text \<open>The GPIO, the label of the request, the name and handle of the interrupt.\<close>

type_synonym key = "nat \<times> string \<times> string"

definition key1 :: key where "key1 = (0, ''k1'', ''gpio_a.0-k1'')"
definition key2 :: key where "key2 = (2, ''k2'', ''gpio_a.2-k2'')"
definition key3 :: key where "key3 = (3, ''k3'', ''gpio_a.3-k3'')"

definition gpio_isr :: "string \<Rightarrow> string" where
  "gpio_isr handle = ''interrupt '' @ handle @ '' raised...'' @ [CHR 0x0A]"

text \<open>The two guarded statements for a key; \<open>gpio_to_irq\<close> is a table of the platform.\<close>

definition key_install :: "kenv \<Rightarrow> (nat \<Rightarrow> int) \<Rightarrow> key \<Rightarrow> int \<Rightarrow> ('z klog_scheme, int) state" where
  "key_install E irq k status = (case k of (g, nm, dev) \<Rightarrow> do {
     status \<leftarrow> (if status = 0 then kapi E (Gpio_request g nm) else ret status);
     if status = 0 then kapi E (Request_irq (irq g) dev) else ret status
   })"

definition keys_init :: "kenv \<Rightarrow> (nat \<Rightarrow> int) \<Rightarrow> ('z klog_scheme, int) state" where
  "keys_init E irq = do {
     status \<leftarrow> key_install E irq key1 0;
     status \<leftarrow> key_install E irq key2 status;
     key_install E irq key3 status
   }"

definition key_remove :: "kenv \<Rightarrow> (nat \<Rightarrow> int) \<Rightarrow> key \<Rightarrow> ('z klog_scheme, unit) state" where
  "key_remove E irq k = (case k of (g, nm, dev) \<Rightarrow> do {
     void (kapi E (Gpio_free g));
     void (kapi E (Free_irq (irq g)))
   })"

definition keys_exit :: "kenv \<Rightarrow> (nat \<Rightarrow> int) \<Rightarrow> ('z klog_scheme, unit) state" where
  "keys_exit E irq = do {
     key_remove E irq key1;
     key_remove E irq key2;
     key_remove E irq key3
   }"

definition key_owned :: "(nat \<Rightarrow> int) \<Rightarrow> key \<Rightarrow> kres multiset" where
  "key_owned irq k = {#R_irq (irq (fst k)), R_gpio (fst k)#}"

lemma key_install_status: "status \<noteq> 0 \<Longrightarrow> result (key_install E irq k status) s = status \<and>
    exec (key_install E irq k status) s = s"
  by (simp add: key_install_def result_bind exec_bind result_exec_basic split: prod.split)

text \<open>A key that is refused leaves its GPIO requested when it was the interrupt that failed.\<close>

lemma key_install_resources:
  fixes s :: "'z klog_scheme" and E :: kenv and irq :: "nat \<Rightarrow> int" and k :: key
  assumes "res_state (klog s) = Some R"
  defines "t \<equiv> exec (key_install E irq k 0) s"
  shows "result (key_install E irq k 0) s = 0 \<Longrightarrow> res_state (klog t) = Some (key_owned irq k + R)"
    and "result (key_install E irq k 0) s \<noteq> 0 \<Longrightarrow> res_state (klog t) = Some R \<or>
      res_state (klog t) = Some (add_mset (R_gpio (fst k)) R)"
  using assms(1) unfolding t_def key_owned_def
  by (cases k; auto simp: key_install_def run_simps split: if_splits)+

lemma key_remove_resources:
  "res_state (klog s) = Some (key_owned irq k + R) \<Longrightarrow> res_state (klog (exec (key_remove E irq k) s)) = Some R"
  by (cases k) (simp add: key_remove_def key_owned_def run_simps)

text \<open>
  A load that succeeds owns the three keys and the exit gives them back. One that fails is
  not unloaded by the kernel: whatever it had got up to there stays requested.
\<close>

fun keys_install :: "kenv \<Rightarrow> (nat \<Rightarrow> int) \<Rightarrow> key list \<Rightarrow> int \<Rightarrow> ('z klog_scheme, int) state" where
  "keys_install E irq [] status = ret status"
| "keys_install E irq (k # ks) status = do {
     status \<leftarrow> key_install E irq k status;
     keys_install E irq ks status
   }"

definition keys_owned :: "(nat \<Rightarrow> int) \<Rightarrow> key list \<Rightarrow> kres multiset" where
  "keys_owned irq ks = sum_list (List.map (key_owned irq) ks)"

lemma keys_install_failed:
  "status \<noteq> 0 \<Longrightarrow> result (keys_install E irq ks status) s = status \<and> exec (keys_install E irq ks status) s = s"
  by (induction ks) (simp_all add: result_bind exec_bind key_install_status)

lemma keys_install_resources:
  assumes "res_state (klog s) = Some R"
  shows "result (keys_install E irq ks 0) s = 0 \<Longrightarrow>
      res_state (klog (exec (keys_install E irq ks 0) s)) = Some (keys_owned irq ks + R)"
    and "result (keys_install E irq ks 0) s \<noteq> 0 \<Longrightarrow> \<exists>L. L \<subset># keys_owned irq ks \<and>
      res_state (klog (exec (keys_install E irq ks 0) s)) = Some (L + R)"
  using assms
proof (induction ks arbitrary: s R)
  case Nil
  { case 1 then show ?case by (simp add: keys_owned_def) }
  { case 2 then show ?case by simp }
next
  case (Cons k ks)
  have own: "keys_owned irq (k # ks) = key_owned irq k + keys_owned irq ks" by (simp add: keys_owned_def)
  {
    case (1 s R)
    let ?r = "result (key_install E irq k 0) s" and ?t = "exec (key_install E irq k 0) s"
    have r: "?r = 0"
    proof (rule ccontr)
      assume r: "?r \<noteq> 0"
      have "result (keys_install E irq (k # ks) 0) s = result (keys_install E irq ks ?r) ?t"
        by (simp add: result_bind)
      also have "\<dots> = ?r" by (rule keys_install_failed [OF r, THEN conjunct1])
      finally show False using 1(1) r by argo
    qed
    have "res_state (klog ?t) = Some (key_owned irq k + R)" by (rule key_install_resources(1) [OF 1(2) r])
    from Cons.IH(1) [OF _ this] 1(1) r show ?case by (simp add: result_bind exec_bind own ac_simps)
  next
    case (2 s R)
    let ?r = "result (key_install E irq k 0) s" and ?t = "exec (key_install E irq k 0) s"
    show ?case
    proof (cases "?r = 0")
      case True
      have t: "res_state (klog ?t) = Some (key_owned irq k + R)" by (rule key_install_resources(1) [OF 2(2) True])
      from Cons.IH(2) [OF _ t] 2(1) True obtain L where L: "L \<subset># keys_owned irq ks"
        "res_state (klog (exec (keys_install E irq ks 0) ?t)) = Some (L + (key_owned irq k + R))"
        by (auto simp: result_bind)
      show ?thesis using L True
        by (intro exI [of _ "key_owned irq k + L"]) (simp add: exec_bind own ac_simps)
    next
      case False
      have ex: "exec (keys_install E irq (k # ks) 0) s = ?t"
        using keys_install_failed [OF False, of E irq ks ?t] by (simp add: exec_bind)
      have full: "{#R_gpio (fst k)#} \<subset># keys_owned irq (k # ks)" "{#} \<subset># keys_owned irq (k # ks)"
        by (simp_all add: own key_owned_def subset_mset.less_le)
      from key_install_resources(2) [OF 2(2) False] show ?thesis
      proof
        assume "res_state (klog ?t) = Some R"
        then show ?thesis unfolding ex using full(2) by (intro exI [of _ "{#}"]) simp
      next
        assume "res_state (klog ?t) = Some (add_mset (R_gpio (fst k)) R)"
        then show ?thesis unfolding ex using full(1) by (intro exI [of _ "{#R_gpio (fst k)#}"]) simp
      qed
    qed
  }
qed

lemma keys_init_chain:
  "result (keys_init E irq) s = result (keys_install E irq [key1, key2, key3] 0) s"
  "exec (keys_init E irq) s = exec (keys_install E irq [key1, key2, key3] 0) s"
  by (simp_all add: keys_init_def result_bind exec_bind)

lemma keys_init_exit:
  fixes s :: "'z klog_scheme" and E :: kenv and irq :: "nat \<Rightarrow> int"
  assumes "res_state (klog s) = Some {#}"
  defines "t \<equiv> exec (keys_init E irq) s"
  shows "result (keys_init E irq) s = 0 \<Longrightarrow> res_state (klog (exec (keys_exit E irq) t)) = Some {#}"
    and "result (keys_init E irq) s \<noteq> 0 \<Longrightarrow> \<exists>L. L \<subset># keys_owned irq [key1, key2, key3] \<and> res_state (klog t) = Some L"
proof -
  assume "result (keys_init E irq) s = 0"
  then have t: "res_state (klog t) = Some (key_owned irq key1 + (key_owned irq key2 + (key_owned irq key3 + {#})))"
    using keys_install_resources(1) [OF assms(1), of E irq "[key1, key2, key3]"]
    by (simp add: t_def keys_init_chain keys_owned_def del: keys_install.simps)
  have "exec (keys_exit E irq) t = exec (key_remove E irq key3) (exec (key_remove E irq key2) (exec (key_remove E irq key1) t))"
    by (simp add: keys_exit_def exec_bind)
  then show "res_state (klog (exec (keys_exit E irq) t)) = Some {#}"
    by (simp only: key_remove_resources [OF key_remove_resources [OF key_remove_resources [OF t]]])
next
  assume "result (keys_init E irq) s \<noteq> 0"
  then show "\<exists>L. L \<subset># keys_owned irq [key1, key2, key3] \<and> res_state (klog t) = Some L"
    using keys_install_resources(2) [OF assms(1), of E irq "[key1, key2, key3]"]
    by (simp add: t_def keys_init_chain del: keys_install.simps)
qed

text \<open>A load that fails after the first GPIO was granted keeps that GPIO.\<close>

lemma keys_init_leak:
  fixes s :: "'z klog_scheme" and E :: kenv and irq :: "nat \<Rightarrow> int"
  assumes "res_state (klog s) = Some {#}" and "kret E (klog s) (Gpio_request 0 ''k1'') = 0"
    and "result (keys_init E irq) s \<noteq> 0"
  shows "\<exists>L. res_state (klog (exec (keys_init E irq) s)) = Some L \<and> R_gpio 0 \<in># L"
proof -
  define s1 where "s1 = exec (kapi E (Gpio_request 0 ''k1'')) s"
  define r where "r = kret E (klog s1) (Request_irq (irq 0) ''gpio_a.0-k1'')"
  define s2 where "s2 = exec (kapi E (Request_irq (irq 0) ''gpio_a.0-k1'')) s1"
  have one: "result (key_install E irq key1 0) s = r" "exec (key_install E irq key1 0) s = s2"
    using assms(2) by (simp_all add: key_install_def key1_def run_simps r_def s2_def s1_def)
  have own: "res_state (klog s2) = Some (if r = 0 then {#R_irq (irq 0), R_gpio 0#} else {#R_gpio 0#})"
    using assms(1,2) by (simp add: s2_def s1_def r_def)
  have init: "exec (keys_init E irq) s = exec (keys_install E irq [key2, key3] r) s2"
    "result (keys_init E irq) s = result (keys_install E irq [key2, key3] r) s2"
    by (simp_all add: keys_init_def exec_bind result_bind one)
  show ?thesis
  proof (cases "r = 0")
    case True
    with own have "res_state (klog s2) = Some {#R_irq (irq 0), R_gpio 0#}" by simp
    from keys_install_resources(2) [OF this, of E irq "[key2, key3]"] assms(3) True init show ?thesis
      by (auto simp del: keys_install.simps)
  next
    case False
    from keys_install_failed [OF False, of E irq "[key2, key3]" s2] own False init show ?thesis by simp
  qed
qed

end
