(* ===== verification/DriverVariants.thy ===== *)
theory DriverVariants
  imports CharSolution
begin

section \<open>A device shared by all files: \<open>03_drivers/exercice02\<close> and \<open>exercice04\<close>\<close>

text \<open>
  The driver with one buffer for all files (exercise 2) and the program of exercise 4 that
  fills the device and reads it back. Reading and writing are those of \<open>CharSolution\<close>. Lemmas:
  what one file writes another reads; the program ends, and what it leaves in the buffer and
  prints; what loading and unloading own.
\<close>

subsection \<open>\<open>exercice02\<close>: one buffer for all files\<close>

text \<open>
  Reading and writing are the code of exercise 3 with \<open>s_buffer\<close> in place of
  \<open>private_data\<close>; every open file has its position.
\<close>

record shared_dev =
  s_buffer :: string
  positions :: "nat \<Rightarrow> s64"

definition shared_open :: "nat \<Rightarrow> shared_dev \<Rightarrow> int \<times> shared_dev" where
  "shared_open fd s = (0, s\<lparr>positions := (positions s)(fd := 0)\<rparr>)"

definition shared_read :: "uaccess \<Rightarrow> nat \<Rightarrow> u64 \<Rightarrow> shared_dev \<Rightarrow> (s64 \<times> string \<times> shared_dev) option" where
  "shared_read A fd n s =
     (case sol_read A n \<lparr>private_data = s_buffer s, f_off = positions s fd\<rparr> of
        None \<Rightarrow> None
      | Some (r, d, f) \<Rightarrow> Some (r, d, s\<lparr>positions := (positions s)(fd := f_off f)\<rparr>))"

definition shared_write :: "uaccess \<Rightarrow> nat \<Rightarrow> u64 \<Rightarrow> string \<Rightarrow> shared_dev \<Rightarrow> (s64 \<times> shared_dev) option" where
  "shared_write A fd n d s =
     (case sol_write A n d \<lparr>private_data = s_buffer s, f_off = positions s fd\<rparr> of
        None \<Rightarrow> None
      | Some (r, f) \<Rightarrow> Some (r, \<lparr>s_buffer = private_data f, positions = (positions s)(fd := f_off f)\<rparr>))"

text \<open>What one file writes, another one reads at the same place.\<close>

lemma shared_write_read:
  assumes s: "int (length (s_buffer s)) = BUFFER_SZ" "0 \<le> sint (positions s fd)" and A: "uaccess_ok A"
    and n: "sint (positions s fd) + uint n < BUFFER_SZ" "unat n = length d" "0 < uint n"
    and fd: "fd' \<noteq> fd" "positions s fd' = positions s fd"
  shows "\<exists>t. shared_write A fd n d s = Some (n, t) \<and> shared_read A fd' n t =
    Some (n, d, t\<lparr>positions := (positions t)(fd' := positions t fd)\<rparr>)"
proof -
  let ?f = "\<lparr>private_data = s_buffer s, f_off = positions s fd\<rparr>"
  have ok: "fio_ok BUFFER_SZ ?f" using s n by (simp add: fio_ok_def)
  obtain g where g: "sol_write A n d ?f = Some (n, g)" "sol_read A n (g\<lparr>f_off := f_off ?f\<rparr>) = Some (n, d, g)"
    by (rule solution.written_then_read [OF ok A _ n(2,3)]) (use n(1) in simp)
  show ?thesis
    by (intro exI [of _ "\<lparr>s_buffer = private_data g, positions = (positions s)(fd := f_off g)\<rparr>"])
      (use g fd in \<open>cases g; simp add: shared_write_def shared_read_def fun_upd_def cong: if_cong\<close>)
qed

definition one_cdev_init :: "kenv \<Rightarrow> ('z klog_scheme, int) state" where
  "one_cdev_init E = do {
     status \<leftarrow> kapi E (Alloc_chrdev_region 1 ''mymodule'');
     status \<leftarrow> (if status = 0 then kapi E (Cdev_add 1) else ret status);
     ret status
   }"

definition one_cdev_exit :: "kenv \<Rightarrow> ('z klog_scheme, unit) state" where
  "one_cdev_exit E = do {
     void (kapi E Cdev_del);
     void (kapi E (Unregister_chrdev_region 1))
   }"

text \<open>The status is only logged: the load succeeds whatever the kernel answered.\<close>

definition exercice02_init :: "kenv \<Rightarrow> ('z klog_scheme, int) state" where
  "exercice02_init E = do { status \<leftarrow> one_cdev_init E; ret 0 }"

definition exercice02_exit :: "kenv \<Rightarrow> ('z klog_scheme, unit) state" where
  "exercice02_exit E = one_cdev_exit E"

lemma one_cdev_resources:
  assumes "res_state (klog s) = Some R"
  shows "result (one_cdev_init E) s = 0 \<Longrightarrow> res_state (klog (exec (one_cdev_init E) s)) = Some ({#R_cdev, R_chrdev#} + R)"
    and "result (one_cdev_init E) s \<noteq> 0 \<Longrightarrow> res_state (klog (exec (one_cdev_init E) s)) = Some R \<or>
      res_state (klog (exec (one_cdev_init E) s)) = Some (add_mset R_chrdev R)"
  using assms by (auto simp: one_cdev_init_def run_simps split: if_splits)

lemma one_cdev_exit_resources:
  "res_state (klog s) = Some ({#R_cdev, R_chrdev#} + R) \<Longrightarrow> res_state (klog (exec (one_cdev_exit E) s)) = Some R"
  by (simp add: one_cdev_exit_def run_simps)

lemma one_cdev_exit_misuse:
  "res_state (klog s) = Some R \<Longrightarrow> R_cdev \<notin># R \<Longrightarrow> res_state (klog (exec (one_cdev_exit E) s)) = None"
  by (simp add: one_cdev_exit_def run_simps drop_res_def)

lemma exercice02_init_exit:
  assumes "res_state (klog s) = Some {#}"
  shows "result (exercice02_init E) s = 0"
    and "res_state (klog (exec (exercice02_exit E) (exec (exercice02_init E) s))) =
      (if result (one_cdev_init E) s = 0 then Some {#} else None)"
proof -
  show "result (exercice02_init E) s = 0" by (simp add: exercice02_init_def result_bind)
  show "res_state (klog (exec (exercice02_exit E) (exec (exercice02_init E) s))) =
      (if result (one_cdev_init E) s = 0 then Some {#} else None)"
    using one_cdev_resources [OF assms, of E] one_cdev_exit_resources [of _ "{#}" E]
    by (auto simp: exercice02_init_def exercice02_exit_def exec_bind one_cdev_exit_misuse)
qed

subsection \<open>\<open>exercice04\<close>: filling the device\<close>

text \<open>
  The program writes its texts, then \<open>blabla\<close> until a write fails, and reads everything
  back. \<open>None\<close>: an access outside the device's buffer, or the fuel is used up.
\<close>

definition ex4_text :: string where
  "ex4_text = nl @ ''bonjour le monde'' @ nl @ ''ce mois d'octobre est plutot humide...'' @ nl @
     ''ce n'est qu'un petit texte de test...'' @ nl"

definition ex4_text2 :: string where
  "ex4_text2 = nl @ ''et voici un complement au premier text..'' @ nl @
     ''ce n'est qu'un deuxieme petit texte de test...'' @ nl"

definition ex4_blabla :: string where
  "ex4_blabla = ''blabla blabla blabla blabla blabla blabla blabla'' @ nl"

definition write_string ::
  "(uaccess \<Rightarrow> u64 \<Rightarrow> string \<Rightarrow> fio \<Rightarrow> (s64 \<times> fio) option) \<Rightarrow> uaccess \<Rightarrow> string \<Rightarrow> fio \<Rightarrow> (s64 \<times> fio) option" where
  "write_string dwrite A d f = dwrite A (word_of_nat (length d)) d f"

fun write_until_error ::
  "(uaccess \<Rightarrow> u64 \<Rightarrow> string \<Rightarrow> fio \<Rightarrow> (s64 \<times> fio) option) \<Rightarrow> uaccess \<Rightarrow> nat \<Rightarrow> fio \<Rightarrow> fio option" where
  "write_until_error dwrite A 0 f = None"
| "write_until_error dwrite A (Suc fuel) f =
     (case write_string dwrite A ex4_blabla f of
        None \<Rightarrow> None
      | Some (r, f') \<Rightarrow> if 0 \<le> sint (ucast r :: i32) then write_until_error dwrite A fuel f' else Some f')"

text \<open>The chunks that the reading loop receives, each of at most 99 bytes.\<close>

fun read_until_end ::
  "(uaccess \<Rightarrow> u64 \<Rightarrow> fio \<Rightarrow> (s64 \<times> string \<times> fio) option) \<Rightarrow> uaccess \<Rightarrow> nat \<Rightarrow> fio \<Rightarrow> string list option" where
  "read_until_end dread A 0 f = None"
| "read_until_end dread A (Suc fuel) f =
     (case dread A 99 f of
        None \<Rightarrow> None
      | Some (r, d, f') \<Rightarrow> if sint r \<le> 0 then Some []
          else map_option (Cons d) (read_until_end dread A fuel f'))"

text \<open>What is printed: \<open>buff\<close> up to its first NUL, with the bytes of the chunk before behind the new ones.\<close>

fun prints :: "string \<Rightarrow> string list \<Rightarrow> string list" where
  "prints buff [] = []"
| "prints buff (d # ds) = (let b = (d @ drop (length d) buff)[99 := CHR 0x00]
     in takeWhile (\<lambda>c. c \<noteq> CHR 0x00) b # prints b ds)"

definition ex4_main ::
  "(uaccess \<Rightarrow> u64 \<Rightarrow> fio \<Rightarrow> (s64 \<times> string \<times> fio) option) \<Rightarrow>
   (uaccess \<Rightarrow> u64 \<Rightarrow> string \<Rightarrow> fio \<Rightarrow> (s64 \<times> fio) option) \<Rightarrow>
   uaccess \<Rightarrow> nat \<Rightarrow> string list \<Rightarrow> string \<Rightarrow> string \<Rightarrow> (string list \<times> string) option" where
  "ex4_main dread dwrite A fuel argv buff buf =
     (if length argv \<le> 1 then Some ([], buf)
      else Option.bind (write_string dwrite A (argv ! 1) \<lparr>private_data = buf, f_off = 0\<rparr>) (\<lambda>(_, f).
        Option.bind (write_string dwrite A ex4_text f) (\<lambda>(_, f).
        Option.bind (write_string dwrite A ex4_text2 f) (\<lambda>(_, f).
        Option.bind (write_until_error dwrite A fuel f) (\<lambda>f.
        map_option (\<lambda>ds. (prints buff ds, private_data f))
          (read_until_end dread A fuel (f\<lparr>f_off := 0\<rparr>)))))))"

text \<open>A text that fits is appended at the position.\<close>

lemma ex4_lengths: "length ex4_text = 95" "length ex4_text2 = 89" "length ex4_blabla = 49"
  by (simp_all add: ex4_text_def ex4_text2_def ex4_blabla_def)

definition fio_pos :: "fio \<Rightarrow> nat" where "fio_pos f = nat (sint (f_off f))"

lemma fio_pos_le: "fio_ok BUFFER_SZ f \<Longrightarrow> fio_pos f \<le> 10000" "fio_ok BUFFER_SZ f \<Longrightarrow> length (private_data f) = 10000"
  "fio_ok BUFFER_SZ f \<Longrightarrow> sint (f_off f) = int (fio_pos f)"
  by (auto simp: fio_ok_def fio_pos_def BUFFER_SZ_def)

lemma write_string_fits:
  assumes f: "fio_ok BUFFER_SZ f" and A: "uaccess_ok A" and d: "d \<noteq> []" "fio_pos f + length d < 10000"
  obtains g where "write_string sol_write A d f = Some (word_of_nat (length d), g)" "fio_ok BUFFER_SZ g"
    "fio_pos g = fio_pos f + length d" "take (fio_pos g) (private_data g) = take (fio_pos f) (private_data f) @ d"
proof -
  let ?n = "word_of_nat (length d) :: u64"
  have un: "uint ?n = int (length d)" "unat ?n = length d"
    using d(2) by (simp_all add: unsigned_of_nat take_bit_nat_eq_self)
  have room: "sint (f_off f) + uint ?n < BUFFER_SZ"
    using d(2) f by (simp add: un fio_pos_le BUFFER_SZ_def)
  have pos: "0 < uint ?n" using d(1) by (simp add: un)
  from sol_write_inside [OF f A room un(2) pos] obtain b where
    b: "sol_write A ?n d f = Some (?n, \<lparr>private_data = b, f_off = f_off f + ?n\<rparr>)" "length b = length (private_data f)"
    "take (fio_pos f + length d) b = take (fio_pos f) (private_data f) @ d"
    by (auto simp: fio_pos_def)
  have off: "sint (f_off f + ?n) = int (fio_pos f + length d)"
    using fio_offset(2) [OF f room] f by (simp add: un fio_pos_le)
  show thesis
  proof (rule that [of "\<lparr>private_data = b, f_off = f_off f + ?n\<rparr>"])
    show "fio_pos \<lparr>private_data = b, f_off = f_off f + ?n\<rparr> = fio_pos f + length d"
      unfolding fio_pos_def [of "\<lparr>private_data = b, f_off = f_off f + ?n\<rparr>"] by (simp add: off del: of_nat_add)
    then show "take (fio_pos \<lparr>private_data = b, f_off = f_off f + ?n\<rparr>)
        (private_data \<lparr>private_data = b, f_off = f_off f + ?n\<rparr>) = take (fio_pos f) (private_data f) @ d"
      using b(3) by simp
  qed (use b off f d(2) in \<open>simp_all add: write_string_def fio_ok_def BUFFER_SZ_def\<close>)
qed

text \<open>
  The loop ends: after as many texts as leave a byte free, the next write fails. It is
  that write which puts a NUL five bytes before the end of the text.
\<close>

definition blablas :: "nat \<Rightarrow> nat" where "blablas p = (9999 - p) div 49"

lemma write_until_error_ends:
  assumes A: "uaccess_ok A" "uaccess_bounded A"
  shows "fio_ok BUFFER_SZ f \<Longrightarrow> 5 \<le> fio_pos f \<Longrightarrow> fio_pos f < 10000 \<Longrightarrow> blablas (fio_pos f) < fuel \<Longrightarrow>
    \<exists>g. write_until_error sol_write A fuel f = Some g \<and> length (private_data g) = 10000 \<and>
      (let m = fio_pos f + 49 * blablas (fio_pos f) in take m (private_data g) =
        (take (fio_pos f) (private_data f) @ concat (replicate (blablas (fio_pos f)) ex4_blabla))[m - 5 := CHR 0x00])"
proof (induction fuel arbitrary: f)
  case (Suc fuel)
  show ?case
  proof (cases "fio_pos f + 49 < 10000")
    case True
    have "ex4_blabla \<noteq> []" "fio_pos f + length ex4_blabla < 10000" using True ex4_lengths by auto
    from write_string_fits [OF Suc.prems(1) A(1) this]
    obtain g where g: "write_string sol_write A ex4_blabla f = Some (49, g)" "fio_ok BUFFER_SZ g"
      "fio_pos g = fio_pos f + 49" "take (fio_pos g) (private_data g) = take (fio_pos f) (private_data f) @ ex4_blabla"
      unfolding ex4_lengths by (metis of_nat_numeral)
    have k: "blablas (fio_pos f) = Suc (blablas (fio_pos g))"
      using True by (simp add: g(3) blablas_def le_div_geq)
    have "sint (ucast (49 :: s64) :: i32) = 49" by simp
    then have "write_until_error sol_write A (Suc fuel) f = write_until_error sol_write A fuel g"
      using g(1) by simp
    moreover have "\<exists>h. write_until_error sol_write A fuel g = Some h \<and> length (private_data h) = 10000 \<and>
      (let m = fio_pos g + 49 * blablas (fio_pos g) in take m (private_data h) =
        (take (fio_pos g) (private_data g) @ concat (replicate (blablas (fio_pos g)) ex4_blabla))[m - 5 := CHR 0x00])"
      by (rule Suc.IH [OF g(2)]) (use Suc.prems(2,4) k True in \<open>simp_all only: g(3)\<close>)
    moreover have "fio_pos g + 49 * blablas (fio_pos g) = fio_pos f + 49 * blablas (fio_pos f)"
      unfolding k g(3) by simp
    moreover have "take (fio_pos g) (private_data g) @ concat (replicate (blablas (fio_pos g)) ex4_blabla) =
        take (fio_pos f) (private_data f) @ concat (replicate (blablas (fio_pos f)) ex4_blabla)"
      unfolding k g(4) by simp
    ultimately show ?thesis by (simp only: Let_def)
  next
    case False
    have k: "blablas (fio_pos f) = 0" using False by (simp add: blablas_def)
    have n: "BUFFER_SZ \<le> sint (f_off f) + uint (word_of_nat (length ex4_blabla) :: u64)"
      using False Suc.prems(1) by (simp add: fio_pos_le BUFFER_SZ_def ex4_lengths)
    have "\<not> sint (f_off f) < 5" using Suc.prems(1,2) by (simp add: fio_pos_le)
    with sol_write_full [OF Suc.prems(1) A(2) n]
    have w: "write_string sol_write A ex4_blabla f = Some (word_of_int (- EFAULT),
        \<lparr>private_data = (private_data f)[fio_pos f - 5 := CHR 0x00], f_off = f_off f - 5\<rparr>)"
      by (simp add: write_string_def fio_pos_def)
    have "\<not> 0 \<le> sint (ucast (word_of_int (- EFAULT) :: s64) :: i32)" by (simp add: EFAULT_def)
    with w show ?thesis using Suc.prems(1) k by (simp add: fio_pos_le take_update_swap)
  qed
qed simp

text \<open>The reading loop receives the whole buffer, in chunks.\<close>

fun chunks :: "nat \<Rightarrow> 'a list \<Rightarrow> 'a list list" where
  "chunks n xs = (if xs = [] \<or> n = 0 then [] else take n xs # chunks n (drop n xs))"

declare chunks.simps [simp del]

lemma concat_chunks: "0 < n \<Longrightarrow> concat (chunks n xs) = xs"
  by (induction n xs rule: chunks.induct) (subst chunks.simps, simp)

lemma sol_read_at:
  assumes f: "fio_ok BUFFER_SZ f" and A: "uaccess_ok A" and n: "uint n < 2 ^ 31"
  defines "c \<equiv> min (10000 - int (fio_pos f)) (uint n)"
  shows "\<exists>g. sol_read A n f = Some (word_of_int c, take (nat c) (drop (fio_pos f) (private_data f)), g) \<and>
    fio_ok BUFFER_SZ g \<and> private_data g = private_data f \<and> fio_pos g = fio_pos f + nat c"
proof -
  let ?r = "word_of_int BUFFER_SZ - f_off f :: u64"
  have r: "uint ?r = 10000 - int (fio_pos f)"
    using room_word [of "f_off f" BUFFER_SZ] f by (simp add: fio_ok_def BUFFER_SZ_def fio_pos_def)
  have c: "0 \<le> c" "c \<le> 10000 - int (fio_pos f)" "c < 2 ^ 31"
    using fio_pos_le(1) [OF f] n by (auto simp: c_def)
  have w: "(if ?r < n then ?r else n) = word_of_int c"
  proof (cases "?r < n")
    case True
    then have "c = uint ?r" by (simp add: c_def r word_less_def)
    with True show ?thesis by simp
  next
    case False
    then have "c = uint n" by (simp add: c_def r word_less_def)
    with False show ?thesis by simp
  qed
  have uc: "uint (word_of_int c :: u64) = c" using c by (intro uint_small64) simp_all
  have pk: "peek (private_data f) (sint (f_off f)) c = Some (take (nat c) (drop (fio_pos f) (private_data f)))"
    using c f by (simp add: peek_def fio_pos_le)
  have off: "sint (f_off f + word_of_int c) = int (fio_pos f) + c"
  proof -
    have "0 \<le> sint (f_off f)" using f by (simp add: fio_ok_def)
    moreover have "sint (f_off f) + uint (word_of_int c :: s64) \<le> 10000" unfolding uc fio_pos_le(3) [OF f] using c by simp
    ultimately have "sint (f_off f + word_of_int c) = sint (f_off f) + uint (word_of_int c :: s64)"
      by (rule moved_word) simp
    then show ?thesis unfolding uc fio_pos_le(3) [OF f] .
  qed
  have "copy_to_user A (word_of_int c) = 0" using A c uc by (simp add: uaccess_ok_def)
  then have "sol_read A n f = Some (word_of_int c, take (nat c) (drop (fio_pos f) (private_data f)),
      f\<lparr>f_off := f_off f + word_of_int c\<rparr>)"
    unfolding sol_read_def Let_def w uc pk by simp
  moreover have "fio_ok BUFFER_SZ (f\<lparr>f_off := f_off f + word_of_int c\<rparr>)"
    "fio_pos (f\<lparr>f_off := f_off f + word_of_int c\<rparr>) = fio_pos f + nat c"
    using off c f by (simp_all add: fio_ok_def fio_pos_def [of "f\<lparr>f_off := _\<rparr>"] BUFFER_SZ_def nat_add_distrib)
  ultimately show ?thesis by auto
qed

lemma read_until_end_chunks:
  assumes "uaccess_ok A"
  shows "fio_ok BUFFER_SZ f \<Longrightarrow> 10000 - fio_pos f < fuel \<Longrightarrow>
    read_until_end sol_read A fuel f = Some (chunks 99 (drop (fio_pos f) (private_data f)))"
proof (induction fuel arbitrary: f)
  case (Suc fuel)
  define c where "c = min (10000 - int (fio_pos f)) 99"
  obtain g where g: "sol_read A 99 f = Some (word_of_int c, take (nat c) (drop (fio_pos f) (private_data f)), g)"
    "fio_ok BUFFER_SZ g" "private_data g = private_data f" "fio_pos g = fio_pos f + nat c"
    using sol_read_at [OF Suc.prems(1) assms, of 99] by (auto simp: c_def)
  have le: "fio_pos f \<le> 10000" "length (private_data f) = 10000" using Suc.prems(1) by (simp_all add: fio_pos_le)
  have sc: "sint (word_of_int c :: s64) = c" using le by (intro sint_small64) (simp_all add: c_def)
  show ?case
  proof (cases "fio_pos f = 10000")
    case True
    then show ?thesis using g(1) sc le by (simp add: c_def chunks.simps)
  next
    case False
    have "10000 - fio_pos g < fuel" using False le Suc.prems(2) by (simp add: g(4) c_def)
    from Suc.IH [OF g(2) this] have "read_until_end sol_read A fuel g = Some (chunks 99 (drop (fio_pos g) (private_data f)))"
      by (simp add: g(3))
    moreover have "chunks 99 (drop (fio_pos f) (private_data f)) =
        take (nat c) (drop (fio_pos f) (private_data f)) # chunks 99 (drop (fio_pos g) (private_data f))"
      using False le by (subst chunks.simps) (auto simp: g(4) c_def min_def add.commute)
    moreover have "0 < c" using False le by (simp add: c_def)
    ultimately show ?thesis using g(1) sc by simp
  qed
qed simp

text \<open>The whole program on the device: it ends, and what it leaves in the buffer.\<close>

definition ex4_written :: "string \<Rightarrow> string" where
  "ex4_written nm = (let w = nm @ ex4_text @ ex4_text2; k = blablas (length w)
     in (w @ concat (replicate k ex4_blabla))[length w + 49 * k - 5 := CHR 0x00])"

lemma length_ex4_written: "length (ex4_written nm) = length nm + 184 + 49 * blablas (length nm + 184)"
proof -
  have "length (concat (replicate k ex4_blabla)) = 49 * k" for k
    by (induction k) (simp_all add: ex4_lengths)
  then show ?thesis by (simp add: ex4_written_def Let_def ex4_lengths add.commute)
qed

lemma ex4_main_ends:
  assumes A: "uaccess_ok A" "uaccess_bounded A" and buf: "length buf = 10000"
    and nm: "nm \<noteq> []" "length nm \<le> 4096" and fuel: "10000 < fuel"
  shows "\<exists>buf'. ex4_main sol_read sol_write A fuel (prog # nm # args) buff buf = Some (prints buff (chunks 99 buf'), buf') \<and>
    length buf' = 10000 \<and> take (length (ex4_written nm)) buf' = ex4_written nm"
proof -
  let ?f = "\<lparr>private_data = buf, f_off = 0 :: s64\<rparr>"
  have f: "fio_ok BUFFER_SZ ?f" "fio_pos ?f = 0" using buf by (simp_all add: fio_ok_def fio_pos_def BUFFER_SZ_def)
  have ne: "ex4_text \<noteq> []" "ex4_text2 \<noteq> []" by (simp_all add: ex4_text_def ex4_text2_def)
  obtain g1 where g1: "write_string sol_write A nm ?f = Some (word_of_nat (length nm), g1)" "fio_ok BUFFER_SZ g1"
    "fio_pos g1 = length nm" "take (fio_pos g1) (private_data g1) = nm"
    by (rule write_string_fits [OF f(1) A(1) nm(1)]) (use nm f in simp_all)
  obtain g2 where g2: "write_string sol_write A ex4_text g1 = Some (word_of_nat (length ex4_text), g2)" "fio_ok BUFFER_SZ g2"
    "fio_pos g2 = length nm + 95" "take (fio_pos g2) (private_data g2) = nm @ ex4_text"
    by (rule write_string_fits [OF g1(2) A(1) ne(1)]) (use nm g1 in \<open>simp_all add: ex4_lengths\<close>)
  obtain g3 where g3: "write_string sol_write A ex4_text2 g2 = Some (word_of_nat (length ex4_text2), g3)" "fio_ok BUFFER_SZ g3"
    "fio_pos g3 = length nm + 184" "take (fio_pos g3) (private_data g3) = nm @ ex4_text @ ex4_text2"
    by (rule write_string_fits [OF g2(2) A(1) ne(2)]) (use nm g2 in \<open>simp_all add: ex4_lengths add.commute [of 184]\<close>)
  have "blablas (fio_pos g3) < fuel" using fuel by (simp add: blablas_def)
  from write_until_error_ends [OF A g3(2) _ _ this] nm obtain g where g: "write_until_error sol_write A fuel g3 = Some g"
    "length (private_data g) = 10000"
    "let m = fio_pos g3 + 49 * blablas (fio_pos g3) in take m (private_data g) =
        (take (fio_pos g3) (private_data g3) @ concat (replicate (blablas (fio_pos g3)) ex4_blabla))[m - 5 := CHR 0x00]"
    unfolding g3(3) by auto
  have l3: "length (nm @ ex4_text @ ex4_text2) = fio_pos g3" by (simp add: g3(3) ex4_lengths)
  have l4: "length (ex4_written nm) = fio_pos g3 + 49 * blablas (fio_pos g3)"
    unfolding length_ex4_written g3(3) ..
  have w: "take (length (ex4_written nm)) (private_data g) = ex4_written nm"
    unfolding l4 using g(3) by (simp only: ex4_written_def Let_def l3 g3(4))
  have "fio_ok BUFFER_SZ (g\<lparr>f_off := 0\<rparr>)" "fio_pos (g\<lparr>f_off := 0\<rparr>) = 0"
    using g(2) by (simp_all add: fio_ok_def fio_pos_def BUFFER_SZ_def)
  from read_until_end_chunks [OF A(1) this(1), of fuel] fuel this(2)
  have "read_until_end sol_read A fuel (g\<lparr>f_off := 0\<rparr>) = Some (chunks 99 (private_data g))" by simp
  then have "ex4_main sol_read sol_write A fuel (prog # nm # args) buff buf =
      Some (prints buff (chunks 99 (private_data g)), private_data g)"
    by (simp add: ex4_main_def g1(1) g2(1) g3(1) g(1))
  with g(2) w show ?thesis by blast
qed

end
