(* ===== verification/DriverInterfaces.thy ===== *)
theory DriverInterfaces
  imports DriverVariants AttributeFiles
begin

section \<open>Other interfaces of a driver: exercises 5.1, 7, 8 and 9, samples 5 and 5.1\<close>

text \<open>
  Drivers that offer more than reads and writes: a counter of interrupts behind \<open>poll\<close>
  (exercise 7), a page that is mapped (8), commands by \<open>ioctl\<close> (9), texts as attributes
  (samples 5 and 5.1), attributes next to a device (5.1). Lemmas: every interrupt is reported
  once when the polls do not overlap and one is reported twice when they do, the checks of the mapping, what is written comes back, ownership on loading and
  unloading.
\<close>

subsection \<open>\<open>exercice07\<close>: waiting for interrupts\<close>

text \<open>
  \<open>atomic_read\<close>, \<open>atomic_inc\<close> and \<open>atomic_dec\<close> are one step each. A poll is two steps when the
  counter is not 0: it reads the counter, and then takes one off and returns the mask; it is
  one step, which returns 0, when the counter is 0. Any number of polls, numbered, and the
  handler of the interrupts interleave; the masks that the polls return are logged.
\<close>

definition POLLIN :: u32 where "POLLIN = 0x0001"
definition POLLRDNORM :: u32 where "POLLRDNORM = 0x0040"

datatype poll_pc = Poll_out | Poll_take  \<comment> \<open>not in the driver; before \<open>atomic_dec\<close>\<close>

record polldev =
  nb_of_interrupts :: i32
  poll_at :: "nat \<Rightarrow> poll_pc"
  masks :: "(nat \<times> u32) list"

datatype poll_event = Interrupt | Poll_reads nat | Poll_takes nat

definition poll_start :: polldev where
  "poll_start = \<lparr>nb_of_interrupts = 0, poll_at = (\<lambda>_. Poll_out), masks = []\<rparr>"

definition poll_isr :: "polldev \<Rightarrow> polldev" where
  "poll_isr s = s\<lparr>nb_of_interrupts := nb_of_interrupts s + 1\<rparr>"

definition skeleton_poll_read :: "nat \<Rightarrow> polldev \<Rightarrow> polldev" where
  "skeleton_poll_read p s = (if nb_of_interrupts s \<noteq> 0
     then s\<lparr>poll_at := (poll_at s)(p := Poll_take)\<rparr>
     else s\<lparr>masks := masks s @ [(p, 0)]\<rparr>)"

definition skeleton_poll_take :: "nat \<Rightarrow> polldev \<Rightarrow> polldev" where
  "skeleton_poll_take p s = s\<lparr>nb_of_interrupts := nb_of_interrupts s - 1, poll_at := (poll_at s)(p := Poll_out),
     masks := masks s @ [(p, POLLIN OR POLLRDNORM)]\<rparr>"

text \<open>A step, when the poll is at the point for it.\<close>

fun poll_step :: "poll_event \<Rightarrow> polldev \<Rightarrow> polldev option" where
  "poll_step Interrupt s = Some (poll_isr s)"
| "poll_step (Poll_reads p) s = (if poll_at s p = Poll_out then Some (skeleton_poll_read p s) else None)"
| "poll_step (Poll_takes p) s = (if poll_at s p = Poll_take then Some (skeleton_poll_take p s) else None)"

fun poll_run :: "poll_event list \<Rightarrow> polldev \<Rightarrow> polldev option" where
  "poll_run [] s = Some s"
| "poll_run (e # es) s = Option.bind (poll_step e s) (poll_run es)"

text \<open>The number of polls that reported an interrupt, and of the interrupts raised.\<close>

definition reported :: "polldev \<Rightarrow> nat" where
  "reported s = length (filter (\<lambda>m. snd m \<noteq> 0) (masks s))"

definition raised :: "poll_event list \<Rightarrow> nat" where
  "raised es = length (filter (\<lambda>e. e = Interrupt) es)"

lemma poll_mask_nonzero: "POLLIN OR POLLRDNORM \<noteq> 0"
  by (simp add: POLLIN_def POLLRDNORM_def)

lemma poll_run_append: "poll_run (es @ fs) s = Option.bind (poll_run es s) (poll_run fs)"
  by (induction es arbitrary: s) (simp_all split: bind_splits)

lemma raised_snoc [simp]: "raised [] = 0" "raised (es @ [e]) = raised es + (if e = Interrupt then 1 else 0)"
  by (simp_all add: raised_def)

lemma reported_start [simp]: "reported poll_start = 0" "nb_of_interrupts poll_start = 0"
  by (simp_all add: reported_def poll_start_def)

text \<open>What a step does to the counter and to the reports.\<close>

lemma poll_step_counts:
  assumes "poll_step e s = Some t"
  shows "nb_of_interrupts t = nb_of_interrupts s + (case e of Interrupt \<Rightarrow> 1 | Poll_takes p \<Rightarrow> - 1 | _ \<Rightarrow> 0)"
    and "reported t = reported s + (case e of Poll_takes p \<Rightarrow> 1 | _ \<Rightarrow> 0)"
  using assms poll_mask_nonzero
  by (cases e; auto simp: poll_isr_def skeleton_poll_read_def skeleton_poll_take_def reported_def split: if_splits)+

text \<open>The counter is the interrupts less the reports, modulo \<open>2 ^ 32\<close>, however the polls interleave.\<close>

lemma poll_run_balance:
  "poll_run es poll_start = Some s \<Longrightarrow> nb_of_interrupts s = of_nat (raised es) - of_nat (reported s)"
proof (induction es arbitrary: s rule: rev_induct)
  case (snoc e es)
  then obtain t where t: "poll_run es poll_start = Some t" "poll_step e t = Some s"
    by (auto simp: poll_run_append bind_eq_Some_conv)
  show ?case using snoc.IH [OF t(1)] poll_step_counts [OF t(2)] by (cases e) simp_all
qed auto

text \<open>
  Polls that do not overlap: at every moment of the run at most one is between its read and
  its decrement, as with a single thread that polls.
\<close>

definition polls_apart :: "poll_event list \<Rightarrow> bool" where
  "polls_apart es \<longleftrightarrow> (\<forall>n s p q. poll_run (take n es) poll_start = Some s \<longrightarrow>
     poll_at s p = Poll_take \<longrightarrow> poll_at s q = Poll_take \<longrightarrow> p = q)"

lemma polls_apart_snoc:
  "polls_apart (es @ [e]) \<Longrightarrow> polls_apart es"
  "polls_apart es \<Longrightarrow> poll_run es poll_start = Some s \<Longrightarrow> poll_at s p = Poll_take \<Longrightarrow> poll_at s q = Poll_take \<Longrightarrow> p = q"
proof -
  assume a: "polls_apart (es @ [e])"
  show "polls_apart es"
    unfolding polls_apart_def
  proof (intro allI)
    fix n s p q
    have "take (min n (length es)) (es @ [e]) = take n es" by (cases "n \<le> length es") (simp_all add: min_def)
    then show "poll_run (take n es) poll_start = Some s \<longrightarrow>
        poll_at s p = Poll_take \<longrightarrow> poll_at s q = Poll_take \<longrightarrow> p = q"
      using a unfolding polls_apart_def by metis
  qed
next
  assume "polls_apart es" "poll_run es poll_start = Some s" "poll_at s p = Poll_take" "poll_at s q = Poll_take"
  then show "p = q" unfolding polls_apart_def by (metis order_refl take_all)
qed

lemma single_poller_apart:
  assumes "\<forall>e \<in> set es. e = Interrupt \<or> e = Poll_reads p \<or> e = Poll_takes p"
  shows "polls_apart es"
proof -
  have "poll_run fs poll_start = Some s \<Longrightarrow> set fs \<subseteq> set es \<Longrightarrow> poll_at s q = Poll_take \<Longrightarrow> q = p" for fs s q
  proof (induction fs arbitrary: s rule: rev_induct)
    case Nil
    then show ?case by (auto simp: poll_start_def)
  next
    case (snoc e fs)
    then obtain t where t: "poll_run fs poll_start = Some t" "poll_step e t = Some s"
      by (auto simp: poll_run_append bind_eq_Some_conv)
    have e: "e = Interrupt \<or> e = Poll_reads p \<or> e = Poll_takes p" using assms snoc.prems(2) by auto
    have ih: "poll_at t q = Poll_take \<Longrightarrow> q = p" using snoc.IH [OF t(1)] snoc.prems(2) by simp
    show ?case
    proof (cases "q = p")
      case False
      then have "poll_at s q = poll_at t q"
        using e t(2) by (auto simp: poll_isr_def skeleton_poll_read_def skeleton_poll_take_def split: if_splits)
      with False ih snoc.prems(3) show ?thesis by simp
    qed simp
  qed
  then have "poll_run (take n es) poll_start = Some s \<Longrightarrow> poll_at s q = Poll_take \<Longrightarrow> q = p" for n s q
    using set_take_subset [of n es] by blast
  then show ?thesis unfolding polls_apart_def by blast
qed

text \<open>Then no interrupt is lost and none is invented, as long as they can be counted.\<close>

lemma poll_run_exact:
  "poll_run es poll_start = Some s \<Longrightarrow> polls_apart es \<Longrightarrow> raised es < 2 ^ 32 \<Longrightarrow>
   reported s + unat (nb_of_interrupts s) = raised es \<and> (\<forall>p. poll_at s p = Poll_take \<longrightarrow> nb_of_interrupts s \<noteq> 0)"
proof (induction es arbitrary: s rule: rev_induct)
  case Nil
  then show ?case by (auto simp: poll_start_def reported_def)
next
  case (snoc e es)
  then obtain t where t: "poll_run es poll_start = Some t" "poll_step e t = Some s"
    by (auto simp: poll_run_append bind_eq_Some_conv)
  note apart = polls_apart_snoc(1) [OF snoc.prems(2)]
  have "raised es < 2 ^ 32" using snoc.prems(3) by (simp split: if_splits)
  then have ih: "reported t + unat (nb_of_interrupts t) = raised es" "\<And>p. poll_at t p = Poll_take \<Longrightarrow> nb_of_interrupts t \<noteq> 0"
    using snoc.IH [OF t(1) apart] by blast+
  note counts = poll_step_counts [OF t(2)]
  show ?case
  proof (cases e)
    case Interrupt
    have up: "unat (nb_of_interrupts t + 1) = unat (nb_of_interrupts t) + 1"
      using snoc.prems(3) Interrupt ih(1) unat_add_lem [of "nb_of_interrupts t" 1] by simp
    then have "nb_of_interrupts t + 1 \<noteq> 0" by (metis Suc_eq_plus1 nat.distinct(1) unat_0)
    with up Interrupt counts ih(1) show ?thesis by simp
  next
    case (Poll_reads p)
    then show ?thesis using counts ih t(2)
      by (auto simp: skeleton_poll_read_def split: if_splits)
  next
    case (Poll_takes p)
    have p: "poll_at t p = Poll_take" using t(2) Poll_takes by (simp split: if_splits)
    have "unat (nb_of_interrupts t - 1) = unat (nb_of_interrupts t) - 1" "0 < unat (nb_of_interrupts t)"
      using ih(2) [OF p] by (simp_all add: unat_minus_one unat_gt_0)
    moreover have "poll_at s q \<noteq> Poll_take" for q
      using polls_apart_snoc(2) [OF apart t(1) p, of q] t(2) p Poll_takes by (auto simp: skeleton_poll_take_def split: if_splits)
    ultimately show ?thesis using counts ih(1) Poll_takes by simp
  qed
qed

text \<open>Two polls that overlap report one interrupt twice; the counter is then \<open>-1\<close>, and the next poll reports it once more.\<close>

lemma overlapping_polls:
  assumes "p \<noteq> q"
  shows "\<exists>s. poll_run [Interrupt, Poll_reads p, Poll_reads q, Poll_takes p, Poll_takes q] poll_start = Some s \<and>
    reported s = 2 \<and> nb_of_interrupts s = - 1 \<and>
    (\<exists>t. poll_run [Poll_reads p, Poll_takes p] s = Some t \<and> reported t = 3)"
  using assms poll_mask_nonzero
  by (simp add: poll_isr_def skeleton_poll_read_def skeleton_poll_take_def reported_def poll_start_def)

text \<open>
  Loading: the interrupts are managed by the device, which frees them when it goes. A load
  that fails after \<open>misc_register\<close> leaves the device registered.
\<close>

definition poll_init :: "kenv \<Rightarrow> (nat \<Rightarrow> int) \<Rightarrow> ('z klog_scheme, int) state" where
  "poll_init E irq = do {
     status \<leftarrow> kapi E (Misc_register ''mymodule'');
     status \<leftarrow> (if status = 0 then kapi E (Request_irq (irq 0) ''gpio_a.0-k1'') else ret status);
     status \<leftarrow> (if status = 0 then kapi E (Request_irq (irq 2) ''gpio_a.2-k2'') else ret status);
     (if status = 0 then kapi E (Request_irq (irq 3) ''gpio_a.3-k3'') else ret status)
   }"

definition poll_exit :: "kenv \<Rightarrow> ('z klog_scheme, unit) state" where
  "poll_exit E = void (kapi E (Misc_deregister ''mymodule''))"

lemma poll_init_resources:
  fixes s :: "'z klog_scheme" and E :: kenv and irq :: "nat \<Rightarrow> int"
  assumes "res_state (klog s) = Some {#}"
  defines "t \<equiv> exec (poll_init E irq) s"
  shows "result (poll_init E irq) s = 0 \<Longrightarrow>
      res_state (klog (exec (poll_exit E) t)) = Some {#R_irq (irq 3), R_irq (irq 2), R_irq (irq 0)#}"
    and "kret E (klog s) (Misc_register ''mymodule'') = 0 \<Longrightarrow> result (poll_init E irq) s \<noteq> 0 \<Longrightarrow>
      \<exists>R. res_state (klog t) = Some R \<and> R_misc ''mymodule'' \<in># R"
proof -
  assume "result (poll_init E irq) s = 0"
  then show "res_state (klog (exec (poll_exit E) t)) = Some {#R_irq (irq 3), R_irq (irq 2), R_irq (irq 0)#}"
    using assms by (auto simp: poll_init_def poll_exit_def t_def run_simps split: if_splits)
next
  assume "kret E (klog s) (Misc_register ''mymodule'') = 0" "result (poll_init E irq) s \<noteq> 0"
  then show "\<exists>R. res_state (klog t) = Some R \<and> R_misc ''mymodule'' \<in># R"
    using assms by (auto simp: poll_init_def t_def run_simps split: if_splits)
qed

subsection \<open>\<open>exercice08\<close>: a mapped page\<close>

definition EAGAIN :: int where "EAGAIN = 11"

text \<open>
  \<open>remap\<close> stands for \<open>remap_pfn_range\<close>, a function of the start, the page frame and the size;
  the second result is the new \<open>vm_pgoff\<close>.
\<close>

definition skeleton_mmap :: "kenv \<Rightarrow> nat \<Rightarrow> (u64 \<Rightarrow> u64 \<Rightarrow> u64 \<Rightarrow> int) \<Rightarrow> u64 \<Rightarrow> u64 \<Rightarrow> int \<times> u64" where
  "skeleton_mmap E PAGE_SHIFT remap vm_start vm_end =
     (let siz = vm_end - vm_start;
          status = (if PAGE_SIZE E < unat siz then - EINVAL else 0);
          pgoff = drop_bit PAGE_SHIFT 0x01c14000;
          status = (if status = 0 then remap vm_start pgoff siz else status);
          status = (if status \<noteq> 0 then - EAGAIN else status)
      in (status, pgoff))"

text \<open>At most one page is mapped; every failure is \<open>-EAGAIN\<close>, the \<open>-EINVAL\<close> never gets out.\<close>

lemma skeleton_mmap_result:
  "fst (skeleton_mmap E ps remap a b) =
     (if unat (b - a) \<le> PAGE_SIZE E \<and> remap a (drop_bit ps 0x01c14000) (b - a) = 0 then 0 else - EAGAIN)"
  by (simp add: skeleton_mmap_def Let_def EINVAL_def)

lemma skeleton_mmap_status: "fst (skeleton_mmap E ps remap a b) = 0 \<or> fst (skeleton_mmap E ps remap a b) = - 11"
  by (simp add: skeleton_mmap_result EAGAIN_def)

definition mmap_init :: "kenv \<Rightarrow> ('z klog_scheme, int) state" where
  "mmap_init E = do {
     status \<leftarrow> one_cdev_init E;
     status \<leftarrow> (if status = 0 then kapi E (Platform_device_register ''mymodule'' 0) else ret status);
     ret 0
   }"

definition mmap_exit :: "kenv \<Rightarrow> ('z klog_scheme, unit) state" where
  "mmap_exit E = do {
     void (kapi E (Platform_device_unregister ''mymodule'' 0));
     one_cdev_exit E
   }"

lemma mmap_init_exit:
  assumes "res_state (klog s) = Some {#}" and "\<forall>h k nm. kret E h (Alloc_chrdev_region k nm) = 0"
    and "\<forall>h k. kret E h (Cdev_add k) = 0"
  shows "result (mmap_init E) s = 0"
    and "res_state (klog (exec (mmap_exit E) (exec (mmap_init E) s))) =
      (if kret E (klog (exec (one_cdev_init E) s)) (Platform_device_register ''mymodule'' 0) = 0 then Some {#} else None)"
proof -
  show "result (mmap_init E) s = 0" by (simp add: mmap_init_def result_bind)
  have r: "result (one_cdev_init E) s = 0" using assms(2,3) by (simp add: one_cdev_init_def run_simps)
  note own = one_cdev_resources(1) [OF assms(1) r]
  show "res_state (klog (exec (mmap_exit E) (exec (mmap_init E) s))) =
      (if kret E (klog (exec (one_cdev_init E) s)) (Platform_device_register ''mymodule'' 0) = 0 then Some {#} else None)"
    using own by (simp add: mmap_init_def mmap_exit_def run_simps r one_cdev_exit_def)
qed

subsection \<open>\<open>exercice09\<close>: commands\<close>

text \<open>\<open>_IOC (dir, type, nr, size)\<close> of \<open>linux/ioctl.h\<close>.\<close>

definition IOC :: "u32 \<Rightarrow> u32 \<Rightarrow> u32 \<Rightarrow> u32 \<Rightarrow> u32" where
  "IOC dir typ nr sz = push_bit 30 dir OR push_bit 16 sz OR push_bit 8 typ OR nr"

definition IOC_SIZE :: "u32 \<Rightarrow> u32" where
  "IOC_SIZE cmd = drop_bit 16 cmd AND 0x3fff"

text \<open>An \<open>int\<close>, a \<open>long\<close> and two arrays of 30 characters, padded to 80 bytes.\<close>

definition CONFIG_SIZE :: u32 where "CONFIG_SIZE = 80"

definition SKELETON_IOMAGIC :: u32 where "SKELETON_IOMAGIC = 0x67"  \<comment> \<open>the letter g\<close>
definition SKELETON_IO_RESET :: u32 where "SKELETON_IO_RESET = IOC 0 SKELETON_IOMAGIC 0 0"
definition SKELETON_IO_WR_REF :: u32 where "SKELETON_IO_WR_REF = IOC 1 SKELETON_IOMAGIC 1 CONFIG_SIZE"
definition SKELETON_IO_RD_REF :: u32 where "SKELETON_IO_RD_REF = IOC 2 SKELETON_IOMAGIC 2 CONFIG_SIZE"
definition SKELETON_IO_WR_VAL :: u32 where "SKELETON_IO_WR_VAL = IOC 1 SKELETON_IOMAGIC 3 4"
definition SKELETON_IO_RD_VAL :: u32 where "SKELETON_IO_RD_VAL = IOC 2 SKELETON_IOMAGIC 4 4"

lemmas ioctl_commands = SKELETON_IO_RESET_def SKELETON_IO_WR_REF_def SKELETON_IO_RD_REF_def
  SKELETON_IO_WR_VAL_def SKELETON_IO_RD_VAL_def IOC_def SKELETON_IOMAGIC_def CONFIG_SIZE_def

text \<open>The configuration as its bytes.\<close>

record ioctldev =
  io_config :: string
  io_val :: i32

text \<open>
  \<open>arg\<close> is a number or an address; \<open>user\<close> are the bytes at that address. The result: the
  status that \<open>ioctl\<close> returns, the bytes that are copied to the user, the device.
\<close>

definition skeleton_ioctl :: "uaccess \<Rightarrow> u32 \<Rightarrow> u64 \<Rightarrow> string \<Rightarrow> ioctldev \<Rightarrow> s64 \<times> string \<times> ioctldev" where
  "skeleton_ioctl A cmd arg user s =
     (if cmd = SKELETON_IO_RESET then (0, [], \<lparr>io_config = replicate 80 CHR 0x00, io_val = 0\<rparr>)
      else if cmd = SKELETON_IO_WR_REF then
        (if IOC_SIZE cmd = CONFIG_SIZE then
           (case copy_from_user A (ucast (IOC_SIZE cmd)) user of (left, placed) \<Rightarrow>
              (scast (ucast left :: i32), [], s\<lparr>io_config := placed @ drop (length placed) (io_config s)\<rparr>))
         else (word_of_int (- EFAULT), [], s))
      else if cmd = SKELETON_IO_RD_REF then
        (if IOC_SIZE cmd = CONFIG_SIZE then
           (let left = copy_to_user A (ucast (IOC_SIZE cmd)) in
              (scast (ucast left :: i32), take (unat (IOC_SIZE cmd) - unat left) (io_config s), s))
         else (word_of_int (- EFAULT), [], s))
      else if cmd = SKELETON_IO_WR_VAL then (0, [], s\<lparr>io_val := ucast arg\<rparr>)
      else if cmd = SKELETON_IO_RD_VAL then (scast (io_val s), [], s)
      else (word_of_int (- EFAULT), [], s))"

text \<open>The five commands differ, and the sizes in them are the right ones: the \<open>else\<close> branches are dead.\<close>

lemma ioctl_values:
  "SKELETON_IO_RESET = 0x6700" "SKELETON_IO_WR_REF = 0x40506701" "SKELETON_IO_RD_REF = 0x80506702"
  "SKELETON_IO_WR_VAL = 0x40046703" "SKELETON_IO_RD_VAL = 0x80046704" "CONFIG_SIZE = 80"
  "IOC_SIZE SKELETON_IO_WR_REF = CONFIG_SIZE" "IOC_SIZE SKELETON_IO_RD_REF = CONFIG_SIZE"
  by (simp_all add: ioctl_commands IOC_SIZE_def)

lemma ioctl_config:
  assumes A: "uaccess_ok A" and d: "length d = 80"
  shows "skeleton_ioctl A SKELETON_IO_WR_REF arg d s = (0, [], s\<lparr>io_config := d @ drop 80 (io_config s)\<rparr>)"
    and "length (io_config s) = 80 \<Longrightarrow> skeleton_ioctl A SKELETON_IO_RD_REF arg' x (s\<lparr>io_config := d @ drop 80 (io_config s)\<rparr>) =
      (0, d, s\<lparr>io_config := d\<rparr>)"
proof -
  have "copy_from_user A 80 d = (0, d)" "copy_to_user A 80 = 0" using A d by (simp_all add: uaccess_ok_def)
  then show "skeleton_ioctl A SKELETON_IO_WR_REF arg d s = (0, [], s\<lparr>io_config := d @ drop 80 (io_config s)\<rparr>)"
    and "length (io_config s) = 80 \<Longrightarrow> skeleton_ioctl A SKELETON_IO_RD_REF arg' x (s\<lparr>io_config := d @ drop 80 (io_config s)\<rparr>) =
      (0, d, s\<lparr>io_config := d\<rparr>)"
    using d by (simp_all add: skeleton_ioctl_def ioctl_values IOC_SIZE_def)
qed

lemma ioctl_value:
  "skeleton_ioctl A SKELETON_IO_WR_VAL arg d s = (0, [], s\<lparr>io_val := ucast arg\<rparr>)"
  "skeleton_ioctl A SKELETON_IO_RD_VAL arg' d (s\<lparr>io_val := v\<rparr>) = (scast v, [], s\<lparr>io_val := v\<rparr>)"
  by (simp_all add: skeleton_ioctl_def ioctl_values)

text \<open>
  What the caller of \<open>ioctl\<close> sees: the C library takes the values from \<open>-4095\<close> to \<open>-1\<close> for
  error codes. A stored value in that range cannot be read back.
\<close>

definition libc_result :: "s64 \<Rightarrow> int + int" where
  "libc_result r = (if - 4095 \<le> sint r \<and> sint r \<le> - 1 then Inl (- sint r) else Inr (sint (ucast r :: i32)))"

lemma libc_value:
  assumes "- (2 ^ 31) \<le> k" "k < 2 ^ 31"
  shows "libc_result (scast (word_of_int k :: i32)) = (if - 4095 \<le> k \<and> k \<le> - 1 then Inl (- k) else Inr k)"
proof -
  have s: "sint (word_of_int k :: i32) = k" using assms by (rule sint_of_small)
  have "signed_take_bit 31 k = k" using assms by (simp add: signed_take_bit_int_eq_self)
  then have "(scast (word_of_int k :: i32) :: s64) = word_of_int k" by (simp add: signed_of_int)
  moreover have "sint (word_of_int k :: s64) = k" using assms by (intro sint_small64) simp_all
  moreover have "(ucast (word_of_int k :: s64) :: i32) = word_of_int k" by (rule ucast_int)
  ultimately show ?thesis by (simp add: libc_result_def s)
qed

definition exercice09_init :: "kenv \<Rightarrow> ('z klog_scheme, int) state" where
  "exercice09_init E = do { status \<leftarrow> one_cdev_init E; ret 0 }"

definition exercice09_exit :: "kenv \<Rightarrow> ('z klog_scheme, unit) state" where
  "exercice09_exit E = one_cdev_exit E"

lemma exercice09_eq: "exercice09_init = exercice02_init" "exercice09_exit = exercice02_exit"
  by (auto simp: exercice09_init_def exercice09_exit_def exercice02_init_def exercice02_exit_def)

subsection \<open>\<open>sample05\<close> and \<open>sample05.1\<close>: texts as attributes\<close>

text \<open>
  The buffer of an attribute: \<open>strcpy\<close> and \<open>strlen\<close> read up to the NUL (\<open>None\<close> without
  one), \<open>strncpy\<close> fills with NULs. \<open>cap\<close> is \<open>sizeof\<close> of the buffer.
\<close>

definition strncpy_bytes :: "nat \<Rightarrow> string \<Rightarrow> string" where
  "strncpy_bytes n src = take n (takeWhile (\<lambda>c. c \<noteq> CHR 0x00) src @ replicate n CHR 0x00)"

definition sysfs_show_attr :: "string \<Rightarrow> string option" where
  "sysfs_show_attr b = (if CHR 0x00 \<in> set b then Some (takeWhile (\<lambda>c. c \<noteq> CHR 0x00) b) else None)"

definition sysfs_store_attr :: "nat \<Rightarrow> string \<Rightarrow> u64 \<Rightarrow> string \<Rightarrow> i32 \<times> string" where
  "sysfs_store_attr cap buf n b =
     (let len = word_of_nat cap - 1 :: i32;
          len = (if n < scast len then ucast n else len);
          b = strncpy_bytes (unat len) buf @ drop (unat len) b
      in (len, b[unat len := CHR 0x00]))"

lemma length_strncpy_bytes [simp]: "length (strncpy_bytes n src) = n"
  by (simp add: strncpy_bytes_def)

lemma attr_length:
  assumes "0 < cap" "cap < 2 ^ 31" "length d < 2 ^ 64"
  shows "fst (sysfs_store_attr cap d (word_of_nat (length d)) b) = word_of_nat (min (length d) (cap - 1))"
    and "unat (word_of_nat (min (length d) (cap - 1)) :: i32) = min (length d) (cap - 1)"
proof -
  have c: "word_of_nat cap - 1 = (word_of_nat (cap - 1) :: i32)" using assms(1) by (simp add: of_nat_diff)
  have "(scast (word_of_nat (cap - 1) :: i32) :: u64) = word_of_int (int (cap - 1))"
    using scast_small [of "int (cap - 1)"] assms(1,2) by simp
  then have sc: "unat (scast (word_of_nat (cap - 1) :: i32) :: u64) = cap - 1"
    using assms(2) by (simp add: unsigned_of_nat take_bit_nat_eq_self)
  have un: "unat (word_of_nat (length d) :: u64) = length d"
    using assms(3) by (simp add: unsigned_of_nat take_bit_nat_eq_self)
  have "(ucast (word_of_nat (length d) :: u64) :: i32) = word_of_nat (length d)"
    using ucast_int [of "int (length d)"] by simp
  then show "fst (sysfs_store_attr cap d (word_of_nat (length d)) b) = word_of_nat (min (length d) (cap - 1))"
    unfolding sysfs_store_attr_def Let_def c by (auto simp: word_less_nat_alt sc un min_def simp del: One_nat_def)
  show "unat (word_of_nat (min (length d) (cap - 1)) :: i32) = min (length d) (cap - 1)"
    using assms(2) by (simp add: unsigned_of_nat take_bit_nat_eq_self)
qed

text \<open>A text is shown as it was stored, cut to what the buffer holds.\<close>

lemma attr_store_show:
  assumes cap: "length b = cap" "0 < cap" "cap < 2 ^ 31" and d: "CHR 0x00 \<notin> set d" "length d < 2 ^ 64"
  defines "k \<equiv> min (length d) (cap - 1)"
  shows "\<exists>b'. sysfs_store_attr cap d (word_of_nat (length d)) b = (word_of_nat k, b') \<and> length b' = cap \<and>
    sysfs_show_attr b' = Some (take k d)"
proof -
  note len = attr_length [OF cap(2,3) d(2), folded k_def]
  let ?b = "(strncpy_bytes k d @ drop k b)[k := CHR 0x00]"
  have st: "sysfs_store_attr cap d (word_of_nat (length d)) b = (word_of_nat k, ?b)"
    using len by (simp add: sysfs_store_attr_def Let_def)
  have kb: "k < length b" using cap by (simp add: k_def)
  have tw: "takeWhile (\<lambda>c. c \<noteq> CHR 0x00) d = d" using d(1) by (auto simp: takeWhile_eq_all_conv)
  have "strncpy_bytes k d = take k d" unfolding strncpy_bytes_def tw by (simp add: k_def)
  moreover have "drop k b = b ! k # drop (Suc k) b" using kb by (rule Cons_nth_drop_Suc [symmetric])
  ultimately have b: "?b = take k d @ CHR 0x00 # drop (Suc k) b"
    by (simp add: list_update_append k_def)
  have "\<forall>c \<in> set (take k d). c \<noteq> CHR 0x00" using d(1) by (auto dest: in_set_takeD)
  then have "takeWhile (\<lambda>c. c \<noteq> CHR 0x00) (take k d @ CHR 0x00 # drop (Suc k) b) = take k d" by simp
  then have "sysfs_show_attr ?b = Some (take k d)" unfolding b by (simp add: sysfs_show_attr_def)
  moreover have "length ?b = cap" using kb cap(1) by simp
  ultimately show ?thesis using st by blast
qed

definition sample05_init :: "kenv \<Rightarrow> ('z attrmod_scheme, int) state" where
  "sample05_init E = do {
     c \<leftarrow> kapi E (Class_create ''myclass'');
     modify (\<lambda>s. s\<lparr>attr_class := c\<rparr>);
     d \<leftarrow> kapi E (Device_create c 0 ''mydevice'');
     modify (\<lambda>s. s\<lparr>attr_device := d\<rparr>);
     kapi E (Device_create_file d ''attr'')
   }"

definition sample05_exit :: "kenv \<Rightarrow> ('z attrmod_scheme, unit) state" where
  "sample05_exit E = do {
     d \<leftarrow> gets attr_device;
     void (kapi E (Device_remove_file d ''attr''));
     c \<leftarrow> gets attr_class;
     void (kapi E (Device_destroy c 0));
     void (kapi E (Class_destroy c))
   }"

lemma sample05_init_exit:
  assumes "res_state (klog s) = Some {#}" and "result (sample05_init E) s = 0"
    and "\<forall>h nm. \<not> IS_ERR (kret E h (Class_create nm))" "\<forall>h c g nm. \<not> IS_ERR (kret E h (Device_create c g nm))"
  shows "res_state (klog (exec (sample05_exit E) (exec (sample05_init E) s))) = Some {#}"
  using assms by (simp add: sample05_init_def sample05_exit_def run_simps)

text \<open>Five devices, each with its own text: the buffers of \<open>mydevices\<close>.\<close>

definition multi_show :: "nat \<Rightarrow> string list \<Rightarrow> string option" where
  "multi_show i bs = sysfs_show_attr (bs ! i)"

definition multi_store :: "nat \<Rightarrow> string \<Rightarrow> u64 \<Rightarrow> string list \<Rightarrow> i32 \<times> string list" where
  "multi_store i buf n bs = (case sysfs_store_attr 10000 buf n (bs ! i) of (r, b) \<Rightarrow> (r, bs[i := b]))"

lemma multi_store_others: "j \<noteq> i \<Longrightarrow> multi_show j (snd (multi_store i buf n bs)) = multi_show j bs"
  by (simp add: multi_store_def multi_show_def split_beta)

record multimod = klog +
  multi_class :: int
  multi_devices :: "int list"

fun multi_create :: "kenv \<Rightarrow> int \<Rightarrow> nat list \<Rightarrow> int \<Rightarrow> ('z multimod_scheme, int) state" where
  "multi_create E c [] status = ret status"
| "multi_create E c (i # is) status = do {
     d \<leftarrow> kapi E (Device_create c i (''mydevice.'' @ show_nat i));
     modify (\<lambda>s. s\<lparr>multi_devices := multi_devices s @ [d]\<rparr>);
     status \<leftarrow> kapi E (Device_create_file d ''val'');
     multi_create E c is status
   }"

fun multi_destroy :: "kenv \<Rightarrow> int \<Rightarrow> (nat \<times> int) list \<Rightarrow> ('z multimod_scheme, unit) state" where
  "multi_destroy E c [] = ret ()"
| "multi_destroy E c ((i, d) # ds) = do {
     void (kapi E (Device_remove_file d ''val''));
     void (kapi E (Device_destroy c i));
     multi_destroy E c ds
   }"

definition sample051_init :: "kenv \<Rightarrow> ('z multimod_scheme, int) state" where
  "sample051_init E = do {
     c \<leftarrow> kapi E (Class_create ''myclass'');
     modify (\<lambda>s. s\<lparr>multi_class := c\<rparr>);
     multi_create E c [0..<5] 0
   }"

definition sample051_exit :: "kenv \<Rightarrow> ('z multimod_scheme, unit) state" where
  "sample051_exit E = do {
     c \<leftarrow> gets multi_class;
     ds \<leftarrow> gets multi_devices;
     multi_destroy E c (zip [0..<5] ds);
     void (kapi E (Class_destroy c))
   }"

definition multi_owned :: "nat list \<Rightarrow> kres multiset" where
  "multi_owned is = sum_list (List.map (\<lambda>i. {#R_file ''val'', R_device i#}) is)"

lemma multi_create_resources:
  assumes "\<forall>h c g nm. \<not> IS_ERR (kret E h (Device_create c g nm))" "\<forall>h d nm. kret E h (Device_create_file d nm) = 0"
    and "res_state (klog s) = Some R"
  shows "res_state (klog (exec (multi_create E c is st) s)) = Some (multi_owned is + R)"
    and "multi_class (exec (multi_create E c is st) s) = multi_class s"
    and "length (multi_devices (exec (multi_create E c is st) s)) = length (multi_devices s) + length is"
  using assms(3) by (induction "is" arbitrary: s R st) (simp_all add: run_simps assms(1,2) multi_owned_def)

lemma multi_destroy_resources:
  "res_state (klog s) = Some (multi_owned (List.map fst ds) + R) \<Longrightarrow>
   res_state (klog (exec (multi_destroy E c ds) s)) = Some R"
  by (induction ds arbitrary: s) (auto simp: run_simps multi_owned_def)

text \<open>The status is the one of the last file: a failure before it does not show.\<close>

lemma multi_create_status:
  "result (multi_create E c (is @ [i]) st) s =
     (let t = exec (kapi E (Device_create c i (''mydevice.'' @ show_nat i))) (exec (multi_create E c is st) s)
      in kret E (klog t) (Device_create_file (result (kapi E (Device_create c i (''mydevice.'' @ show_nat i)))
        (exec (multi_create E c is st) s)) ''val''))"
  by (induction "is" arbitrary: st s) (simp_all add: run_simps)

lemma sample051_init_exit:
  fixes s :: "'z multimod_scheme" and E :: kenv
  assumes "res_state (klog s) = Some {#}" and "multi_devices s = []"
    and ok: "\<forall>h nm. \<not> IS_ERR (kret E h (Class_create nm))" "\<forall>h c g nm. \<not> IS_ERR (kret E h (Device_create c g nm))"
      "\<forall>h d nm. kret E h (Device_create_file d nm) = 0"
  shows "res_state (klog (exec (sample051_exit E) (exec (sample051_init E) s))) = Some {#}"
proof -
  define c where "c = kret E (klog s) (Class_create ''myclass'')"
  define s1 where "s1 = (exec (kapi E (Class_create ''myclass'')) s)\<lparr>multi_class := c\<rparr>"
  define t where "t = exec (multi_create E c [0..<5] 0) s1"
  have init: "exec (sample051_init E) s = t"
    by (simp add: sample051_init_def exec_bind result_exec_basic s1_def c_def t_def del: multi_create.simps upt_rec_numeral)
  have "res_state (klog s1) = Some {#R_class c#}" using assms(1) ok(1) by (simp add: s1_def c_def)
  from multi_create_resources [OF ok(2,3) this, of c "[0..<5]" 0] assms(2)
  have t: "res_state (klog t) = Some (multi_owned [0..<5] + {#R_class c#})" "multi_class t = c" "length (multi_devices t) = 5"
    by (simp_all add: t_def [symmetric] del: multi_create.simps upt_rec_numeral) (simp_all add: s1_def)
  have "List.map fst (zip [0..<5] (multi_devices t)) = [0..<5]" using t(3) by simp
  with t(1) have "res_state (klog (exec (multi_destroy E c (zip [0..<5] (multi_devices t))) t)) = Some {#R_class c#}"
    by (intro multi_destroy_resources) simp
  then show ?thesis by (simp add: init sample051_exit_def exec_bind t(2) del: multi_destroy.simps upt_rec_numeral)
qed

subsection \<open>\<open>exercice05.1\<close>: a character device with attributes\<close>

text \<open>
  As it is built, with \<open>CLASS\<close>; \<open>devt\<close> is the number of the device. The reads and writes
  are those of exercise 2, the attributes those of exercise 5.
\<close>

definition exercice051_init :: "kenv \<Rightarrow> nat \<Rightarrow> ('z attrmod_scheme, int) state" where
  "exercice051_init E devt = do {
     status \<leftarrow> one_cdev_init E;
     c \<leftarrow> kapi E (Class_create ''my_sysfs_class'');
     modify (\<lambda>s. s\<lparr>attr_class := c\<rparr>);
     d \<leftarrow> kapi E (Device_create c devt ''my_sysfs_device'');
     modify (\<lambda>s. s\<lparr>attr_device := d\<rparr>);
     status \<leftarrow> create_files E d [''val'', ''cfg''] status;
     ret 0
   }"

definition exercice051_exit :: "kenv \<Rightarrow> ('z attrmod_scheme, unit) state" where
  "exercice051_exit E = do {
     d \<leftarrow> gets attr_device;
     remove_files E d [''val'', ''cfg''];
     c \<leftarrow> gets attr_class;
     void (kapi E (Device_destroy c 0));
     void (kapi E (Class_destroy c));
     one_cdev_exit E
   }"

text \<open>The device is created under its number and destroyed under the number 0, which it never has.\<close>

lemma exercice051_init_exit:
  assumes "res_state (klog s) = Some {#}" and ok: "\<forall>h k nm. kret E h (Alloc_chrdev_region k nm) = 0"
    "\<forall>h k. kret E h (Cdev_add k) = 0" "\<forall>h d f. kret E h (Device_create_file d f) = 0"
    "\<forall>h nm. \<not> IS_ERR (kret E h (Class_create nm))" "\<forall>h c g nm. \<not> IS_ERR (kret E h (Device_create c g nm))"
  shows "result (exercice051_init E devt) s = 0"
    and "res_state (klog (exec (exercice051_exit E) (exec (exercice051_init E devt) s))) =
      (if devt = 0 then Some {#} else None)"
  using assms by (simp_all add: exercice051_init_def exercice051_exit_def one_cdev_init_def one_cdev_exit_def
      run_simps add_mset_commute)

end
