(* ===== verification/PlatformDrivers.thy ===== *)
theory PlatformDrivers
  imports DriverInterfaces "HOL-Library.Sublist"
begin

section \<open>Platform drivers: exercises 6 and 6.1, samples 6.2 and 6.3, the driver of \<open>dts\<close>\<close>

text \<open>
  Drivers that the kernel binds to devices of the device tree. A locale states what the
  driver core relies on: a device that is probed with success and removed leaves nothing
  but managed memory (\<open>devm_kzalloc\<close>), which the core frees itself. Exercises 6 and 6.1 satisfy
  it, sample 6.3 for one child only. The properties that are read from the device tree are
  only logged. Lemmas: ownership after probing, removing, and after a probe that fails.
\<close>

subsection \<open>What the driver core relies on\<close>

definition managed :: "kres multiset \<Rightarrow> bool" where
  "managed M \<longleftrightarrow> (\<forall>x \<in># M. \<exists>p. x = R_mem p)"

lemma managed_simps [simp]:
  "managed {#}" "managed (add_mset (R_mem p) M) = managed M" "managed (M + N) \<longleftrightarrow> managed M \<and> managed N"
  by (auto simp: managed_def)

text \<open>Binding and unbinding \<open>n\<close> times; \<open>False\<close> when a probe fails.\<close>

fun rebind :: "('s, int) state \<Rightarrow> ('s, int) state \<Rightarrow> nat \<Rightarrow> ('s, bool) state" where
  "rebind probe remove 0 = ret True"
| "rebind probe remove (Suc n) = do {
     r \<leftarrow> probe;
     if r \<noteq> 0 then ret False
     else do { r' \<leftarrow> remove; rebind probe remove n }
   }"

locale bindable =
  fixes L :: "'s \<Rightarrow> kevent list"
    and probe :: "('s, int) state"
    and remove :: "('s, int) state"
  assumes unbound: "res_state (L s) = Some R \<Longrightarrow> result probe s = 0 \<Longrightarrow>
    \<exists>M. managed M \<and> res_state (L (exec remove (exec probe s))) = Some (M + R)"
begin

lemma rebind_managed:
  assumes "res_state (L s) = Some R" and "result (rebind probe remove n) s"
  shows "\<exists>M. managed M \<and> res_state (L (exec (rebind probe remove n) s)) = Some (M + R)"
  using assms
proof (induction n arbitrary: s R)
  case 0
  then show ?case by (intro exI [of _ "{#}"]) simp
next
  case (Suc n)
  let ?t = "exec remove (exec probe s)"
  have r: "result probe s = 0" using Suc.prems(2) by (simp add: result_bind split: if_splits)
  from unbound [OF Suc.prems(1) r] obtain M where M: "managed M" "res_state (L ?t) = Some (M + R)" by blast
  have "result (rebind probe remove n) ?t" using Suc.prems(2) r by (simp add: result_bind)
  from Suc.IH [OF M(2) this] obtain N where "managed N"
    "res_state (L (exec (rebind probe remove n) ?t)) = Some (N + (M + R))" by blast
  with M(1) r show ?case by (intro exI [of _ "N + M"]) (simp add: exec_bind ac_simps)
qed

end

subsection \<open>Exercise 6\<close>

lemma drv_probe_unbound:
  assumes "res_state (klog s) = Some R" "result (drv_probe E k nm) s = 0"
  shows "\<exists>M. managed M \<and> res_state (klog (exec (drv_remove E nm) (exec (drv_probe E k nm) s))) = Some (M + R)"
proof -
  have p: "kret E (klog s) (Kcalloc 1 k) \<noteq> 0"
    using assms(2) by (auto simp: drv_probe_def run_simps ENOMEM_def)
  show ?thesis
    by (rule exI [of _ "{#R_mem (kret E (klog s) (Kcalloc 1 k))#}"])
      (use assms p in \<open>auto simp: drv_probe_def drv_remove_def run_simps split: if_splits\<close>)
qed

interpretation single: bindable klog "drv_probe E k nm" "drv_remove E nm" for E k nm
  by unfold_locales (rule drv_probe_unbound)

subsection \<open>Exercise 6.1: a device for each child\<close>

text \<open>
  The driver data is the list of the devices, each the address of its memory and the name of its child;
  \<open>None\<close> is \<open>NULL\<close>, when there is no node.
\<close>

record childdrv = klog +
  drv_list :: "(int \<times> string) list option"

fun probe_children :: "kenv \<Rightarrow> nat \<Rightarrow> string list \<Rightarrow> ('z childdrv_scheme, int) state" where
  "probe_children E sz [] = ret 0"
| "probe_children E sz (nm # nms) = do {
     p \<leftarrow> kapi E (Kcalloc 1 sz);
     if p = 0 then ret (- ENOMEM)
     else do {
       modify (\<lambda>s. s\<lparr>drv_list := map_option (\<lambda>l. l @ [(p, nm)]) (drv_list s)\<rparr>);
       r \<leftarrow> kapi E (Misc_register nm);
       if r \<noteq> 0 then ret r else probe_children E sz nms
     }
   }"

definition children_probe :: "kenv \<Rightarrow> nat \<Rightarrow> nat \<Rightarrow> string list option \<Rightarrow> ('z childdrv_scheme, int) state" where
  "children_probe E list_sz sz node = (case node of
     None \<Rightarrow> ret 0
   | Some nms \<Rightarrow> do {
       l \<leftarrow> kapi E (Kcalloc 1 list_sz);
       if l = 0 then ret (- ENOMEM)
       else do {
         modify (\<lambda>s. s\<lparr>drv_list := Some []\<rparr>);
         probe_children E sz nms
       }
     })"

fun remove_children :: "kenv \<Rightarrow> (int \<times> string) list \<Rightarrow> ('z childdrv_scheme, unit) state" where
  "remove_children E [] = ret ()"
| "remove_children E (d # ds) = do {
     void (kapi E (Misc_deregister (snd d)));
     remove_children E ds
   }"

definition children_remove :: "kenv \<Rightarrow> ('z childdrv_scheme, int) state" where
  "children_remove E = do {
     l \<leftarrow> gets drv_list;
     (case l of
        None \<Rightarrow> void (kapi E (Null_call ''list_for_each_entry''))
      | Some ds \<Rightarrow> remove_children E ds);
     ret 0
   }"

definition misc_owned :: "string list \<Rightarrow> kres multiset" where
  "misc_owned nms = mset (List.map R_misc nms)"

lemma misc_owned_simps [simp]:
  "misc_owned [] = {#}" "misc_owned (nm # nms) = add_mset (R_misc nm) (misc_owned nms)"
  "misc_owned (nms @ nms') = misc_owned nms + misc_owned nms'"
  by (simp_all add: misc_owned_def)

lemma remove_children_resources:
  "res_state (klog s) = Some (misc_owned (List.map snd ds) + R) \<Longrightarrow>
   res_state (klog (exec (remove_children E ds) s)) = Some R"
  by (induction ds arbitrary: s) (simp_all add: run_simps)

text \<open>
  What the children got: all of them their device, or, when one failed, those before it;
  the list has one more device when it is the registration that failed.
\<close>

lemma probe_children_resources:
  assumes "drv_list s = Some ds" and "res_state (klog s) = Some R"
  shows "\<exists>M done ds'. managed M \<and> prefix done nms \<and>
    res_state (klog (exec (probe_children E sz nms) s)) = Some (M + (misc_owned done + R)) \<and>
    drv_list (exec (probe_children E sz nms) s) = Some (ds @ ds') \<and> prefix done (List.map snd ds') \<and>
    (result (probe_children E sz nms) s = 0 \<longrightarrow> done = nms \<and> List.map snd ds' = nms) \<and>
    (result (probe_children E sz nms) s \<noteq> 0 \<longrightarrow> done \<noteq> nms)"
  using assms
proof (induction nms arbitrary: s ds R)
  case Nil
  then show ?case by (intro exI [of _ "{#}"] exI [of _ "[]"]) simp
next
  case (Cons nm nms)
  define p where "p = kret E (klog s) (Kcalloc 1 sz)"
  define s1 where "s1 = exec (kapi E (Kcalloc 1 sz)) s"
  define s2 where "s2 = s1\<lparr>drv_list := Some (ds @ [(p, nm)])\<rparr>"
  define r where "r = kret E (klog s2) (Misc_register nm)"
  define s3 where "s3 = exec (kapi E (Misc_register nm)) s2"
  have step: "exec (probe_children E sz (nm # nms)) s =
      (if p = 0 then s1 else if r \<noteq> 0 then s3 else exec (probe_children E sz nms) s3)"
    "result (probe_children E sz (nm # nms)) s =
      (if p = 0 then - ENOMEM else if r \<noteq> 0 then r else result (probe_children E sz nms) s3)"
    using Cons.prems(1) by (simp_all add: run_simps p_def r_def s1_def s2_def s3_def)
  have own1: "res_state (klog s1) = Some (if p = 0 then R else add_mset (R_mem p) R)" "drv_list s1 = Some ds"
    using Cons.prems by (simp_all add: s1_def p_def)
  have own3: "res_state (klog s3) = Some ((if r = 0 then {#R_misc nm#} else {#}) + (if p = 0 then R else add_mset (R_mem p) R))"
    "drv_list s3 = Some (ds @ [(p, nm)])"
    using own1 by (simp_all add: s3_def s2_def r_def)
  consider "p = 0" | "p \<noteq> 0" "r \<noteq> 0" | "p \<noteq> 0" "r = 0" by blast
  then show ?case
  proof cases
    case 1
    then show ?thesis unfolding step using own1
      by (intro exI [of _ "{#}"] exI [of _ "[]"]) (simp add: ENOMEM_def)
  next
    case 2
    then show ?thesis unfolding step using own3
      by (intro exI [of _ "{#R_mem p#}"] exI [of _ "[]"] exI [of _ "[(p, nm)]"]) simp
  next
    case 3
    from Cons.IH [OF own3(2,1)] obtain M got ds' where got: "managed M" "prefix got nms"
      "res_state (klog (exec (probe_children E sz nms) s3)) = Some (M + (misc_owned got +
         ((if r = 0 then {#R_misc nm#} else {#}) + (if p = 0 then R else add_mset (R_mem p) R))))"
      "drv_list (exec (probe_children E sz nms) s3) = Some ((ds @ [(p, nm)]) @ ds')" "prefix got (List.map snd ds')"
      "result (probe_children E sz nms) s3 = 0 \<longrightarrow> got = nms \<and> List.map snd ds' = nms"
      "result (probe_children E sz nms) s3 \<noteq> 0 \<longrightarrow> got \<noteq> nms" by blast
    then show ?thesis unfolding step using 3
      by (intro exI [of _ "add_mset (R_mem p) M"] exI [of _ "nm # got"] exI [of _ "(p, nm) # ds'"]) (simp add: ac_simps)
  qed
qed

text \<open>A probe that succeeds can be undone; one that fails keeps the devices of the children before.\<close>

lemma children_probe_resources:
  assumes "res_state (klog s) = Some R"
  shows "\<exists>M got. managed M \<and> prefix got nms \<and>
      res_state (klog (exec (children_probe E lsz sz (Some nms)) s)) = Some (misc_owned got + (M + R)) \<and>
      (result (children_probe E lsz sz (Some nms)) s = 0 \<longrightarrow> got = nms \<and>
        (\<exists>ds. drv_list (exec (children_probe E lsz sz (Some nms)) s) = Some ds \<and> List.map snd ds = nms))"
proof -
  define l where "l = kret E (klog s) (Kcalloc 1 lsz)"
  define s1 where "s1 = exec (kapi E (Kcalloc 1 lsz)) s"
  define s2 where "s2 = s1\<lparr>drv_list := Some []\<rparr>"
  have step: "exec (children_probe E lsz sz (Some nms)) s = (if l = 0 then s1 else exec (probe_children E sz nms) s2)"
    "result (children_probe E lsz sz (Some nms)) s = (if l = 0 then - ENOMEM else result (probe_children E sz nms) s2)"
    by (simp_all add: children_probe_def run_simps l_def s1_def s2_def)
  show ?thesis
  proof (cases "l = 0")
    case True
    then have "res_state (klog s1) = Some R" using assms by (simp add: s1_def l_def)
    with True show ?thesis unfolding step by (intro exI [of _ "{#}"] exI [of _ "[]"]) (simp add: ENOMEM_def)
  next
    case False
    then have own: "drv_list s2 = Some []" "res_state (klog s2) = Some (add_mset (R_mem l) R)"
      using assms by (simp_all add: s2_def s1_def l_def)
    from probe_children_resources [OF own, of nms E sz] obtain M got ds where "managed M" "prefix got nms"
      "res_state (klog (exec (probe_children E sz nms) s2)) = Some (M + (misc_owned got + add_mset (R_mem l) R))"
      "drv_list (exec (probe_children E sz nms) s2) = Some ds"
      "result (probe_children E sz nms) s2 = 0 \<longrightarrow> got = nms \<and> List.map snd ds = nms" by auto
    with False show ?thesis unfolding step
      by (intro exI [of _ "add_mset (R_mem l) M"] exI [of _ got]) (simp add: ac_simps)
  qed
qed

lemma children_unbound:
  assumes "res_state (klog s) = Some R" "result (children_probe E lsz sz (Some nms)) s = 0"
  shows "\<exists>M. managed M \<and> res_state (klog (exec (children_remove E) (exec (children_probe E lsz sz (Some nms)) s))) = Some (M + R)"
proof -
  let ?t = "exec (children_probe E lsz sz (Some nms)) s"
  from children_probe_resources [OF assms(1), of nms E lsz sz] assms(2) obtain M ds where M: "managed M"
    "res_state (klog ?t) = Some (misc_owned (List.map snd ds) + (M + R))" "drv_list ?t = Some ds" by auto
  from remove_children_resources [OF M(2)] M(1,3) show ?thesis
    by (intro exI [of _ M]) (simp add: children_remove_def exec_bind result_exec_basic)
qed

interpretation children: bindable klog "children_probe E lsz sz (Some nms)" "children_remove E" for E lsz sz nms
  by unfold_locales (rule children_unbound)

text \<open>Without a node the driver data stays \<open>NULL\<close>, and the removal walks through it.\<close>

lemma children_no_node:
  "drv_list s = None \<Longrightarrow> res_state (klog s) = Some R \<Longrightarrow> result (children_probe E lsz sz None) s = 0 \<and>
   res_state (klog (exec (children_remove E) (exec (children_probe E lsz sz None) s))) = None"
  by (simp add: children_probe_def children_remove_def run_simps)

text \<open>Loading: the result of the registration is only kept in \<open>status\<close>.\<close>

definition sysfs_driver_init :: "kenv \<Rightarrow> ('z klog_scheme, int) state" where
  "sysfs_driver_init E = do { status \<leftarrow> kapi E (Platform_driver_register ''mydriver''); ret 0 }"

definition sysfs_driver_exit :: "kenv \<Rightarrow> ('z klog_scheme, unit) state" where
  "sysfs_driver_exit E = void (kapi E (Platform_driver_unregister ''mydriver''))"

lemma sysfs_driver_init_exit:
  assumes "res_state (klog s) = Some {#}"
  shows "result (sysfs_driver_init E) s = 0"
    and "res_state (klog (exec (sysfs_driver_exit E) (exec (sysfs_driver_init E) s))) =
      (if kret E (klog s) (Platform_driver_register ''mydriver'') = 0 then Some {#} else None)"
  using assms by (simp_all add: sysfs_driver_init_def sysfs_driver_exit_def run_simps)

subsection \<open>Sample 6.3: the last child only\<close>

text \<open>
  Every child has a device with the attribute \<open>val\<close>; the driver data is the device of the last child
  that was probed.
\<close>

record lastdrv = klog +
  drv_last :: "(int \<times> string) option"

fun probe_attr_children :: "kenv \<Rightarrow> nat \<Rightarrow> string list \<Rightarrow> ('z lastdrv_scheme, int) state" where
  "probe_attr_children E sz [] = ret 0"
| "probe_attr_children E sz (nm # nms) = do {
     p \<leftarrow> kapi E (Kcalloc 1 sz);
     if p = 0 then ret (- ENOMEM)
     else do {
       modify (\<lambda>s. s\<lparr>drv_last := Some (p, nm)\<rparr>);
       r \<leftarrow> kapi E (Misc_register nm);
       if r \<noteq> 0 then ret r
       else do {
         r \<leftarrow> kapi E (Device_create_file p ''val'');
         if r \<noteq> 0 then ret r else probe_attr_children E sz nms
       }
     }
   }"

definition last_probe :: "kenv \<Rightarrow> nat \<Rightarrow> string list option \<Rightarrow> ('z lastdrv_scheme, int) state" where
  "last_probe E sz node = (case node of None \<Rightarrow> ret 0 | Some nms \<Rightarrow> probe_attr_children E sz nms)"

definition last_remove :: "kenv \<Rightarrow> ('z lastdrv_scheme, int) state" where
  "last_remove E = do {
     d \<leftarrow> gets drv_last;
     (case d of
        None \<Rightarrow> void (kapi E (Null_call ''misc_deregister''))
      | Some (p, nm) \<Rightarrow> void (kapi E (Misc_deregister nm)));
     ret 0
   }"

text \<open>The files of the attributes are left to the removal of their devices.\<close>

definition val_files :: "string list \<Rightarrow> kres multiset" where
  "val_files nms = mset (List.map (\<lambda>_. R_file ''val'') nms)"

lemma val_files_simps [simp]: "val_files [] = {#}" "val_files (nm # nms) = add_mset (R_file ''val'') (val_files nms)"
  by (simp_all add: val_files_def)

lemma probe_attr_children_resources:
  assumes "res_state (klog s) = Some R" "result (probe_attr_children E sz nms) s = 0"
  shows "\<exists>M. managed M \<and>
    res_state (klog (exec (probe_attr_children E sz nms) s)) = Some (misc_owned nms + (val_files nms + (M + R))) \<and>
    map_option snd (drv_last (exec (probe_attr_children E sz nms) s)) =
      (if nms = [] then map_option snd (drv_last s) else Some (last nms))"
  using assms
proof (induction nms arbitrary: s R)
  case Nil
  then show ?case by (intro exI [of _ "{#}"]) simp
next
  case (Cons nm nms)
  define p where "p = kret E (klog s) (Kcalloc 1 sz)"
  define s2 where "s2 = (exec (kapi E (Kcalloc 1 sz)) s)\<lparr>drv_last := Some (p, nm)\<rparr>"
  define r where "r = kret E (klog s2) (Misc_register nm)"
  define s3 where "s3 = exec (kapi E (Misc_register nm)) s2"
  define q where "q = kret E (klog s3) (Device_create_file p ''val'')"
  define s4 where "s4 = exec (kapi E (Device_create_file p ''val'')) s3"
  have ok: "p \<noteq> 0" "r = 0" "q = 0" "result (probe_attr_children E sz nms) s4 = 0"
    using Cons.prems(2)
    by (auto simp: run_simps p_def r_def q_def s2_def s3_def s4_def ENOMEM_def split: if_splits)
  have step: "exec (probe_attr_children E sz (nm # nms)) s = exec (probe_attr_children E sz nms) s4"
    using ok(1-3) by (simp add: run_simps p_def r_def q_def s2_def s3_def s4_def)
  have own: "res_state (klog s4) = Some ({#R_file ''val'', R_misc nm, R_mem p#} + R)" "drv_last s4 = Some (p, nm)"
    using Cons.prems(1) ok(1-3) by (simp_all add: s4_def s3_def s2_def p_def r_def q_def)
  from Cons.IH [OF own(1) ok(4)] obtain M where "managed M"
    "res_state (klog (exec (probe_attr_children E sz nms) s4)) =
       Some (misc_owned nms + (val_files nms + (M + ({#R_file ''val'', R_misc nm, R_mem p#} + R))))"
    "map_option snd (drv_last (exec (probe_attr_children E sz nms) s4)) = (if nms = [] then map_option snd (drv_last s4) else Some (last nms))"
    by blast
  then show ?case unfolding step using own(2) by (intro exI [of _ "add_mset (R_mem p) M"]) (simp add: ac_simps)
qed

text \<open>After the removal every device but the last is still registered, in memory that is about to be freed.\<close>

lemma last_remove_resources:
  assumes "res_state (klog s) = Some R" "result (last_probe E sz (Some (nms @ [nm]))) s = 0"
  shows "\<exists>M. managed M \<and> res_state (klog (exec (last_remove E) (exec (last_probe E sz (Some (nms @ [nm]))) s))) =
    Some (misc_owned nms + (val_files (nms @ [nm]) + (M + R)))"
proof -
  let ?t = "exec (probe_attr_children E sz (nms @ [nm])) s"
  from probe_attr_children_resources [OF assms(1), of E sz "nms @ [nm]"] assms(2) obtain M where M: "managed M"
    "res_state (klog ?t) = Some (misc_owned (nms @ [nm]) + (val_files (nms @ [nm]) + (M + R)))"
    "map_option snd (drv_last ?t) = Some nm" by (auto simp: last_probe_def)
  from M(3) obtain p where "drv_last ?t = Some (p, nm)" by auto
  with M(1,2) show ?thesis
    by (intro exI [of _ M]) (simp add: last_probe_def last_remove_def run_simps)
qed

text \<open>Without a node or without a child the driver data stays \<open>NULL\<close>, and the removal reads through it.\<close>

lemma last_no_child:
  "drv_last s = None \<Longrightarrow> res_state (klog s) = Some R \<Longrightarrow> node = None \<or> node = Some [] \<Longrightarrow>
   result (last_probe E sz node) s = 0 \<and> res_state (klog (exec (last_remove E) (exec (last_probe E sz node) s))) = None"
  by (auto simp: last_probe_def last_remove_def run_simps)

text \<open>The attribute \<open>val\<close>; \<open>kstrtol\<close> is a parameter, an error code or a number.\<close>

definition long_show :: "s64 \<Rightarrow> string" where
  "long_show v = fmt_lld v @ nl"

definition long_store :: "(string \<Rightarrow> int + s64) \<Rightarrow> string \<Rightarrow> s64 \<Rightarrow> int \<times> s64" where
  "long_store kstrtol buf v = (case kstrtol buf of Inl e \<Rightarrow> (e, v) | Inr v' \<Rightarrow> (int (length buf), v'))"

definition kstrtol_ok :: "(string \<Rightarrow> int + s64) \<Rightarrow> bool" where
  "kstrtol_ok f \<longleftrightarrow> (\<forall>k. - (2 ^ 63) \<le> k \<longrightarrow> k < 2 ^ 63 \<longrightarrow> f (show_int k @ nl) = Inr (word_of_int k))"

lemma long_store_show:
  assumes "kstrtol_ok f" "- (2 ^ 63) \<le> k" "k < 2 ^ 63"
  shows "long_store f (show_int k @ nl) v = (int (length (show_int k @ nl)), word_of_int k) \<and>
    long_show (snd (long_store f (show_int k @ nl) v)) = show_int k @ nl"
  using assms sint_small64 [of k] by (simp add: long_store_def long_show_def fmt_lld_def kstrtol_ok_def)

subsection \<open>Sample 6.2: three instances\<close>

definition INSTANCES :: nat where "INSTANCES = 3"

text \<open>The values and numbers of the attributes.\<close>

definition skeleton_attrs :: "(s64 \<times> i32) list" where
  "skeleton_attrs = [(10, 0), (11, 1), (12, 2)]"

text \<open>
  The file points to a row of the array of buffers, here its number. The number of the instance is
  checked only for files that are opened neither for reading nor for writing. \<open>None\<close>: a row behind the
  last one.
\<close>

definition inst_open :: "bool \<Rightarrow> u32 \<Rightarrow> (int + nat) option" where
  "inst_open rw iminor =
     (if \<not> rw \<and> INSTANCES \<le> unat iminor then Some (Inl (- EFAULT))
      else if unat iminor < INSTANCES then Some (Inr (unat iminor)) else None)"

lemma inst_open_exact:
  "inst_open rw i = (if unat i < INSTANCES then Some (Inr (unat i)) else if rw then None else Some (Inl (- EFAULT)))"
  by (auto simp: inst_open_def)

fun inst_register :: "kenv \<Rightarrow> nat list \<Rightarrow> int \<Rightarrow> ('z klog_scheme, int) state" where
  "inst_register E [] status = ret status"
| "inst_register E (i # is) status = do {
     status \<leftarrow> (if status = 0 then kapi E (Platform_device_register ''mymodule'' i) else ret status);
     status \<leftarrow> (if status = 0 then kapi E (Device_create_file (int i) ''val'') else ret status);
     inst_register E is status
   }"

fun inst_unregister :: "kenv \<Rightarrow> nat list \<Rightarrow> ('z klog_scheme, unit) state" where
  "inst_unregister E [] = ret ()"
| "inst_unregister E (i # is) = do {
     void (kapi E (Device_remove_file (int i) ''val''));
     void (kapi E (Platform_device_unregister ''mymodule'' i));
     inst_unregister E is
   }"

definition inst_init :: "kenv \<Rightarrow> ('z klog_scheme, int) state" where
  "inst_init E = do {
     status \<leftarrow> kapi E (Alloc_chrdev_region INSTANCES ''mymodule'');
     status \<leftarrow> (if status = 0 then kapi E (Cdev_add INSTANCES) else ret status);
     inst_register E [0..<INSTANCES] status
   }"

definition inst_exit :: "kenv \<Rightarrow> ('z klog_scheme, unit) state" where
  "inst_exit E = do {
     inst_unregister E [0..<INSTANCES];
     void (kapi E Cdev_del);
     void (kapi E (Unregister_chrdev_region INSTANCES))
   }"

definition inst_owned :: "nat list \<Rightarrow> kres multiset" where
  "inst_owned is = sum_list (List.map (\<lambda>i. {#R_file ''val'', R_platform ''mymodule'' i#}) is)"

lemma inst_register_failed:
  "status \<noteq> 0 \<Longrightarrow> result (inst_register E is status) s = status \<and> exec (inst_register E is status) s = s"
  by (induction "is") (simp_all add: result_bind exec_bind result_exec_basic)

lemma inst_register_resources:
  assumes "res_state (klog s) = Some R" "result (inst_register E is 0) s = 0"
  shows "res_state (klog (exec (inst_register E is 0) s)) = Some (inst_owned is + R)"
  using assms
proof (induction "is" arbitrary: s R)
  case (Cons i "is")
  define r where "r = kret E (klog s) (Platform_device_register ''mymodule'' i)"
  define s1 where "s1 = exec (kapi E (Platform_device_register ''mymodule'' i)) s"
  define q where "q = kret E (klog s1) (Device_create_file (int i) ''val'')"
  define s2 where "s2 = exec (kapi E (Device_create_file (int i) ''val'')) s1"
  have step: "result (inst_register E (i # is) 0) s =
      (if r \<noteq> 0 then r else if q \<noteq> 0 then q else result (inst_register E is 0) s2)"
    "r = 0 \<Longrightarrow> q = 0 \<Longrightarrow> exec (inst_register E (i # is) 0) s = exec (inst_register E is 0) s2"
    by (simp_all add: run_simps inst_register_failed r_def s1_def q_def s2_def)
  then have ok: "r = 0" "q = 0" "result (inst_register E is 0) s2 = 0" using Cons.prems(2) by (simp_all split: if_splits)
  have own: "res_state (klog s2) = Some ({#R_file ''val'', R_platform ''mymodule'' i#} + R)"
    using Cons.prems(1) ok by (simp add: s2_def s1_def r_def q_def)
  show ?case unfolding step(2) [OF ok(1,2)] using Cons.IH [OF own ok(3)] by (simp add: inst_owned_def ac_simps)
qed (simp add: inst_owned_def)

lemma inst_unregister_resources:
  "res_state (klog s) = Some (inst_owned is + R) \<Longrightarrow> res_state (klog (exec (inst_unregister E is) s)) = Some R"
  by (induction "is" arbitrary: s) (simp_all add: run_simps inst_owned_def)

text \<open>A load that succeeds has everything, and the exit gives it back.\<close>

lemma inst_init_exit:
  assumes "res_state (klog s) = Some {#}" and "result (inst_init E) s = 0"
  shows "res_state (klog (exec (inst_init E) s)) = Some (inst_owned [0..<INSTANCES] + {#R_cdev, R_chrdev#})"
    and "res_state (klog (exec (inst_exit E) (exec (inst_init E) s))) = Some {#}"
proof -
  define r where "r = kret E (klog s) (Alloc_chrdev_region INSTANCES ''mymodule'')"
  define s1 where "s1 = exec (kapi E (Alloc_chrdev_region INSTANCES ''mymodule'')) s"
  define q where "q = kret E (klog s1) (Cdev_add INSTANCES)"
  define s2 where "s2 = exec (kapi E (Cdev_add INSTANCES)) s1"
  have step: "result (inst_init E) s = (if r \<noteq> 0 then r else if q \<noteq> 0 then q else result (inst_register E [0..<INSTANCES] 0) s2)"
    "r = 0 \<Longrightarrow> q = 0 \<Longrightarrow> exec (inst_init E) s = exec (inst_register E [0..<INSTANCES] 0) s2"
    by (simp_all add: inst_init_def run_simps inst_register_failed r_def s1_def q_def s2_def del: inst_register.simps)
  then have ok: "r = 0" "q = 0" "result (inst_register E [0..<INSTANCES] 0) s2 = 0"
    using assms(2) by (simp_all split: if_splits)
  have own: "res_state (klog s2) = Some {#R_cdev, R_chrdev#}"
    using assms(1) ok(1,2) by (simp add: s2_def s1_def r_def q_def)
  note t = inst_register_resources [OF own ok(3)]
  show "res_state (klog (exec (inst_init E) s)) = Some (inst_owned [0..<INSTANCES] + {#R_cdev, R_chrdev#})"
    unfolding step(2) [OF ok(1,2)] by (rule t)
  have "res_state (klog (exec (inst_unregister E [0..<INSTANCES]) (exec (inst_init E) s))) = Some {#R_cdev, R_chrdev#}"
    unfolding step(2) [OF ok(1,2)] by (rule inst_unregister_resources [OF t])
  then show "res_state (klog (exec (inst_exit E) (exec (inst_init E) s))) = Some {#}"
    by (simp add: inst_exit_def exec_bind exec_void del: inst_unregister.simps)
qed

subsection \<open>The driver of \<open>dts\<close>\<close>

definition dts_read :: "u64 \<Rightarrow> s64" where "dts_read n = 0"
definition dts_write :: "u64 \<Rightarrow> s64" where "dts_write n = n"

text \<open>The result of the registration is overwritten or lost: the probe always succeeds.\<close>

definition dts_probe :: "kenv \<Rightarrow> ('z klog_scheme, int) state" where
  "dts_probe E = do { r \<leftarrow> kapi E (Misc_register ''mydevice''); ret 0 }"

definition dts_remove :: "kenv \<Rightarrow> ('z klog_scheme, int) state" where
  "dts_remove E = do { void (kapi E (Misc_deregister ''mydevice'')); ret 0 }"

definition dts_init :: "kenv \<Rightarrow> ('z klog_scheme, int) state" where
  "dts_init E = kapi E (Platform_driver_register ''mydriver'')"

definition dts_exit :: "kenv \<Rightarrow> ('z klog_scheme, unit) state" where
  "dts_exit E = void (kapi E (Platform_driver_unregister ''mydriver''))"

lemma dts_probe_remove:
  assumes "res_state (klog s) = Some R"
  shows "result (dts_probe E) s = 0"
    and "R_misc ''mydevice'' \<notin># R \<Longrightarrow> res_state (klog (exec (dts_remove E) (exec (dts_probe E) s))) =
      (if kret E (klog s) (Misc_register ''mydevice'') = 0 then Some R else None)"
  using assms by (simp_all add: dts_probe_def dts_remove_def run_simps drop_res_def)

lemma dts_init_exit:
  "res_state (klog s) = Some {#} \<Longrightarrow> result (dts_init E) s = 0 \<Longrightarrow>
   res_state (klog (exec (dts_exit E) (exec (dts_init E) s))) = Some {#}"
  by (simp add: dts_init_def dts_exit_def run_simps)

end
