(* ===== verification/DeviceFamilies.thy ===== *)
theory DeviceFamilies
  imports PlatformDrivers
begin

section \<open>Several devices of one driver: samples 6.2 and 6.3, exercise 6.1\<close>

text \<open>
  One driver serves several devices, each with a buffer that holds a text and, in the
  samples, a number as an attribute; any number of files can be open on each device. A file of sample 6.2
  points through \<open>private_data\<close> to a row of one array, in which an access beyond the row reaches the
  device next to it; one of sample 6.3 and of exercise 6.1 points to the
  miscdevice inside the data of a child of the device tree, a block of memory of its own. A locale states
  what isolates the devices from each other; the three drivers interpret it, sample 6.2 for
  the runs whose accesses stay in their rows. Lemmas: in these runs a buffer stays a text
  with its NUL; what a read gives before, at and behind the end of the text; a refused write and a
  write behind the device change the device before and after it.
\<close>

subsection \<open>The text in a buffer\<close>

definition text_ok :: "string \<Rightarrow> bool" where
  "text_ok b \<longleftrightarrow> length b = 10000 \<and> b ! 9999 = CHR 0x00"

definition text_of :: "string \<Rightarrow> string" where
  "text_of b = takeWhile (\<lambda>c. c \<noteq> CHR 0x00) b"

text \<open>The copy places at most the bytes it was asked for, and none when no address range has so many.\<close>

definition uaccess_exact :: "uaccess \<Rightarrow> bool" where
  "uaccess_exact A \<longleftrightarrow> uaccess_bounded A \<and> (\<forall>n d. length (snd (copy_from_user A n d)) \<le> unat n)"

lemma text_ok_strlen:
  assumes "text_ok b"
  shows "strlen b = Some (length (text_of b))" and "length (text_of b) < 10000"
    and "take (length (text_of b)) b = text_of b"
proof -
  have nul: "\<not> (b ! 9999 \<noteq> CHR 0x00)" "9999 < length b" using assms by (auto simp: text_ok_def)
  then have "CHR 0x00 \<in> set b" by (metis nth_mem)
  then show "strlen b = Some (length (text_of b))" by (simp add: strlen_def text_of_def)
  show "length (text_of b) < 10000"
  proof (rule ccontr)
    assume "\<not> length (text_of b) < 10000"
    then have "9999 < length (takeWhile (\<lambda>c. c \<noteq> CHR 0x00) b)" by (simp add: text_of_def)
    from takeWhile_nth [OF this] nth_mem [OF this] set_takeWhileD nul(1) show False by metis
  qed
  show "take (length (text_of b)) b = text_of b" unfolding text_of_def by (rule takeWhile_eq_take [symmetric])
qed

lemma text_ok_zero: "text_ok (replicate 10000 CHR 0x00)"
  by (simp add: text_ok_def)

lemma poke_last:
  assumes "poke b i d = Some c" "length b = 10000" "0 < length d \<longrightarrow> i + int (length d) < 10000"
  shows "length c = 10000 \<and> c ! 9999 = b ! 9999"
proof (cases "d = []")
  case False
  then have i: "0 \<le> i" "nat i + length d \<le> 9999" "c = take (nat i) b @ d @ drop (nat i + length d) b"
    using assms by (auto simp: poke_def split: if_splits)
  have "b ! 9999 = drop (nat i + length d) b ! (9999 - (nat i + length d))" using i(2) assms(2) by simp
  moreover have "\<not> 9999 - nat i < length d" using i(2) by simp
  ultimately show ?thesis using i assms(2) by (simp add: nth_append)
qed (use assms in \<open>simp add: poke_def\<close>)

lemma poke_nul:
  assumes "poke b i [CHR 0x00] = Some c" "text_ok b"
  shows "text_ok c" "0 \<le> i" "i \<le> 9999"
proof -
  show "0 \<le> i" "i \<le> 9999" using assms by (auto simp: poke_def text_ok_def split: if_splits)
  then have c: "c = b[nat i := CHR 0x00]" using assms
    by (auto simp: poke_def text_ok_def upd_conv_take_nth_drop Suc_nat_eq_nat_zadd1 split: if_splits)
  show "text_ok c"
  proof (cases "9999 = nat i")
    case True
    then have "nat i < length b" using assms(2) by (simp add: text_ok_def)
    then show ?thesis unfolding text_ok_def c True using assms(2) by (simp add: text_ok_def)
  next
    case False
    then show ?thesis using assms(2) unfolding text_ok_def c by simp
  qed
qed

lemma signed_sum:
  assumes "0 \<le> sint (w + n)" "0 \<le> sint (w :: 64 word)" "uint n < 2 ^ 63"
  shows "sint (w + n) = sint w + uint n"
proof (cases "sint w + uint n < 2 ^ 63")
  case True
  have eq: "w + n = word_of_int (sint w + uint n)" unfolding wi_hom_add [symmetric] by simp
  show ?thesis unfolding eq by (rule sint_small64) (use True assms(2) uint_ge_0 [of n] in \<open>linarith+\<close>)
next
  case False
  have lt: "sint w < 2 ^ 63" using sint_lt [of w] by simp
  have eq: "w + n = word_of_int (sint w + uint n - 2 ^ 64)"
    unfolding wi_hom_sub [symmetric] wi_hom_add [symmetric] by simp
  have "sint (w + n) = sint w + uint n - 2 ^ 64"
    unfolding eq by (rule sint_small64) (use False assms lt in simp_all)
  then show ?thesis using assms lt by simp
qed

text \<open>Whatever is written at whatever position, the buffer stays a text, or the access leaves it.\<close>

lemma misc_write_text:
  assumes A: "uaccess_exact A" and b: "text_ok (private_data f)" and w: "misc_write A n d f = Some (r, g)"
  shows "text_ok (private_data g)"
proof -
  define cnt where "cnt = (if word_of_int BUFFER_SZ - f_off f \<le> n then word_of_int (- EIO) else n)"
  obtain left placed where cp: "copy_from_user A cnt d = (left, placed)" by fastforce
  show ?thesis
  proof (cases "cnt = 0")
    case True
    then show ?thesis using w b unfolding misc_write_def Let_def cnt_def [symmetric] by auto
  next
    case False
    with w obtain b1 b2 where b1: "poke (private_data f) (sint (f_off f + cnt)) [CHR 0x00] = Some b1"
      and b2: "poke b1 (sint (f_off f)) placed = Some b2" "private_data g = b2"
      unfolding misc_write_def Let_def cnt_def [symmetric] by (auto simp: cp split: option.splits)
    note p = poke_nul [OF b1 b]
    have "0 < length placed \<longrightarrow> sint (f_off f) + int (length placed) < 10000"
    proof
      assume pl: "0 < length placed"
      then have "uint cnt < 2 ^ 63" using A cp by (auto simp: uaccess_exact_def uaccess_bounded_def not_less [symmetric])
      moreover have "0 \<le> sint (f_off f)" using b2(1) pl by (auto simp: poke_def split: if_splits)
      ultimately have "sint (f_off f + cnt) = sint (f_off f) + uint cnt" using p(2) by (intro signed_sum)
      moreover have "length placed \<le> unat cnt" using A cp unfolding uaccess_exact_def by (metis snd_conv)
      ultimately show "sint (f_off f) + int (length placed) < 10000" using p(3) by (simp only: uint_nat)
    qed
    from poke_last [OF b2(1) _ this] p(1) b2(2) show ?thesis by (simp add: text_ok_def)
  qed
qed

text \<open>A read up to the end of the text gives what is left of it.\<close>

lemma misc_read_inside:
  assumes A: "uaccess_ok A" and b: "text_ok (private_data f)" and off: "0 \<le> sint (f_off f)"
    and n: "uint n < 2 ^ 31" and le: "sint (f_off f) \<le> int (length (text_of (private_data f)))"
  defines "c \<equiv> min (int (length (text_of (private_data f))) - sint (f_off f)) (uint n)"
  shows "misc_read A n f = Some (word_of_int c, take (nat c) (drop (nat (sint (f_off f))) (text_of (private_data f))),
      f\<lparr>f_off := f_off f + word_of_int c\<rparr>)"
proof -
  define len where "len = length (text_of (private_data f))"
  note t = text_ok_strlen [OF b, folded len_def]
  have c: "0 \<le> c" "c \<le> int len - sint (f_off f)" "c < 2 ^ 31"
    using le n by (auto simp: c_def len_def)
  have rem: "word_of_nat len - f_off f = word_of_int (int len - sint (f_off f))"
    unfolding wi_hom_sub [symmetric] by simp
  have w: "(if (word_of_int (int len - sint (f_off f)) :: u64) < n then word_of_int (int len - sint (f_off f)) else n) = word_of_int c"
    unfolding c_def len_def [symmetric] by (rule word_min_int) (use c(1,2) t(2) off in linarith, use t(2) off in simp)
  have uc: "uint (word_of_int c :: u64) = c" using c by (intro uint_small64) simp_all
  have "length (private_data f) = 10000" using b by (simp add: text_ok_def)
  then have pk: "peek (private_data f) (sint (f_off f)) c = Some (take (nat c) (drop (nat (sint (f_off f))) (private_data f)))"
    using c t(2) off by (simp add: peek_def)
  have "take (nat c) (drop (nat (sint (f_off f))) (private_data f)) = take (nat c) (drop (nat (sint (f_off f))) (take len (private_data f)))"
    using c(2) off by (simp add: drop_take min_absorb1 nat_le_iff)
  moreover have "copy_to_user A (word_of_int c) = 0" using A c uc by (simp add: uaccess_ok_def)
  ultimately show ?thesis
    unfolding misc_read_def t(1) bind.simps Let_def rem w uc pk by (simp add: t(3))
qed

subsection \<open>What isolates the devices\<close>

text \<open>
  A driver runs a sequence of operations; \<open>None\<close>: one of them leaves the memory that is modelled. Each
  operation is about one device, or about none. The part that a device has in a run are its
  operations with their answers.
\<close>

fun run_ops :: "('o \<Rightarrow> 's \<Rightarrow> ('r \<times> 's) option) \<Rightarrow> 'o list \<Rightarrow> 's \<Rightarrow> ('r list \<times> 's) option" where
  "run_ops step [] s = Some ([], s)"
| "run_ops step (x # xs) s = Option.bind (step x s) (\<lambda>(r, t). map_option (\<lambda>(rs, u). (r # rs, u)) (run_ops step xs t))"

fun own_part :: "('o \<Rightarrow> 's \<Rightarrow> nat option) \<Rightarrow> ('o \<Rightarrow> 's \<Rightarrow> ('r \<times> 's) option) \<Rightarrow> nat \<Rightarrow> 'o list \<Rightarrow> 's \<Rightarrow> ('o \<times> 'r) list" where
  "own_part dev_of step i [] s = []"
| "own_part dev_of step i (x # xs) s = (case step x s of None \<Rightarrow> []
    | Some (r, t) \<Rightarrow> (if dev_of x s = Some i then [(x, r)] else []) @ own_part dev_of step i xs t)"

locale device_family =
  fixes dev_of :: "'o \<Rightarrow> 's \<Rightarrow> nat option"
    and step :: "'o \<Rightarrow> 's \<Rightarrow> ('r \<times> 's) option"
    and good :: "'s \<Rightarrow> bool"
    and rel :: "nat \<Rightarrow> 's \<Rightarrow> 's \<Rightarrow> bool"
  assumes start: "good s \<Longrightarrow> rel i s s"
    and others: "rel i s s' \<Longrightarrow> step x s = Some (r, t) \<Longrightarrow> dev_of x s \<noteq> Some i \<Longrightarrow> rel i t s'"
    and same: "rel i s s' \<Longrightarrow> step x s = Some (r, t) \<Longrightarrow> dev_of x s = Some i \<Longrightarrow> \<exists>t'. step x s' = Some (r, t') \<and> rel i t t'"
begin

lemma own_part_runs:
  assumes "run_ops step xs s = Some (rs, t)" and "rel i s s'"
  shows "\<exists>t'. run_ops step (List.map fst (own_part dev_of step i xs s)) s' =
    Some (List.map snd (own_part dev_of step i xs s), t') \<and> rel i t t'"
  using assms
proof (induction xs arbitrary: s s' rs)
  case (Cons x xs)
  then obtain r u rs' where u: "step x s = Some (r, u)" "run_ops step xs u = Some (rs', t)"
    by (auto simp: bind_eq_Some_conv)
  show ?case
  proof (cases "dev_of x s = Some i")
    case True
    from same [OF Cons.prems(2) u(1) True] obtain u' where "step x s' = Some (r, u')" "rel i u u'" by blast
    with Cons.IH [OF u(2), of u'] u(1) True show ?thesis by auto
  next
    case False
    from Cons.IH [OF u(2) others [OF Cons.prems(2) u(1) False]] u(1) False show ?thesis by simp
  qed
qed simp

text \<open>What the users of one device see does not depend on the others.\<close>

lemma isolated:
  assumes "run_ops step xs s = Some (rs, t)" and "good s"
  shows "\<exists>t'. run_ops step (List.map fst (own_part dev_of step i xs s)) s =
    Some (List.map snd (own_part dev_of step i xs s), t') \<and> rel i t t'"
  by (rule own_part_runs [OF assms(1) start [OF assms(2)]])

end

lemma run_ops_invariant:
  assumes "run_ops step xs s = Some (rs, t)" "P s"
    and "\<And>x s r t. step x s = Some (r, t) \<Longrightarrow> P s \<Longrightarrow> P t"
  shows "P t"
  using assms(1,2) by (induction xs arbitrary: s rs) (auto simp: bind_eq_Some_conv intro: assms(3))

subsection \<open>Open files\<close>

text \<open>
  A \<open>struct file\<close> has a number of its own, which is not used again; it points to a device and has a
  position. Opening for reading or writing is the flag of \<open>D_open\<close>. \<open>D_pread\<close> and
  \<open>D_pwrite\<close> come with a position of their own.
\<close>

type_synonym open_files = "nat \<Rightarrow> (nat \<times> s64) option"

datatype dev_op =
    D_open nat bool u32
  | D_release nat
  | D_read nat u64
  | D_write nat u64 string
  | D_pread nat u64 s64
  | D_pwrite nat u64 string s64
  | D_show nat
  | D_store nat string

datatype dev_answer =
    Status int
  | Bytes s64 string
  | Written s64
  | Shown string

fun op_device :: "open_files \<Rightarrow> dev_op \<Rightarrow> nat option" where
  "op_device F (D_open fd rw m) = Some (unat m)"
| "op_device F (D_release fd) = map_option fst (F fd)"
| "op_device F (D_read fd n) = map_option fst (F fd)"
| "op_device F (D_write fd n d) = map_option fst (F fd)"
| "op_device F (D_pread fd n pos) = map_option fst (F fd)"
| "op_device F (D_pwrite fd n d pos) = map_option fst (F fd)"
| "op_device F (D_show i) = Some i"
| "op_device F (D_store i buf) = Some i"

text \<open>The files of device \<open>i\<close> are the same; others may be missing.\<close>

definition files_rel :: "nat \<Rightarrow> open_files \<Rightarrow> open_files \<Rightarrow> bool" where
  "files_rel i F F' \<longleftrightarrow> (\<forall>fd off. F fd = Some (i, off) \<longleftrightarrow> F' fd = Some (i, off)) \<and> (\<forall>fd. F fd = None \<longrightarrow> F' fd = None)"

lemma files_rel_refl [simp]: "files_rel i F F"
  by (simp add: files_rel_def)

lemma files_rel_other:
  "files_rel i F F' \<Longrightarrow> j \<noteq> i \<Longrightarrow> (\<And>k off. F fd = Some (k, off) \<Longrightarrow> k = j) \<Longrightarrow> files_rel i (F(fd \<mapsto> (j, p))) F'"
proof -
  assume rel: "files_rel i F F'" "j \<noteq> i" and own: "\<And>k off. F fd = Some (k, off) \<Longrightarrow> k = j"
  have "F' fd \<noteq> Some (i, off)" for off using rel own [of i off] by (auto simp: files_rel_def)
  with rel show ?thesis by (auto simp: files_rel_def)
qed

lemma files_rel_same: "files_rel i F F' \<Longrightarrow> files_rel i (F(fd \<mapsto> (i, p))) (F'(fd \<mapsto> (i, p)))"
  by (simp add: files_rel_def)

lemma files_rel_none: "files_rel i F F' \<Longrightarrow> F fd = None \<Longrightarrow> F' fd = None"
  by (simp add: files_rel_def)

lemma files_rel_some: "files_rel i F F' \<Longrightarrow> F fd = Some (i, off) \<Longrightarrow> F' fd = Some (i, off)"
  by (simp add: files_rel_def)

definition files_below :: "nat \<Rightarrow> open_files \<Rightarrow> bool" where
  "files_below n F \<longleftrightarrow> (\<forall>fd i off. F fd = Some (i, off) \<longrightarrow> i < n)"

lemma files_belowD: "files_below n F \<Longrightarrow> F fd = Some (i, off) \<Longrightarrow> i < n"
  by (auto simp: files_below_def)

lemma files_below_simps [simp]:
  "files_below n (\<lambda>_. None)" "i < n \<Longrightarrow> files_below n F \<Longrightarrow> files_below n (F(fd \<mapsto> (i, off)))"
  by (auto simp: files_below_def)

subsection \<open>Sample 6.2: the reads, the writes and the attributes of its three instances\<close>

text \<open>The three buffers are the rows of one array: an access that leaves a row is an access to another one.\<close>

record instances =
  inst_mem :: string
  inst_attrs :: "(s64 \<times> i32) list"
  inst_files :: open_files

definition inst_start :: instances where
  "inst_start = \<lparr>inst_mem = replicate (INSTANCES * 10000) CHR 0x00,
     inst_attrs = skeleton_attrs, inst_files = (\<lambda>_. None)\<rparr>"

definition row :: "nat \<Rightarrow> string \<Rightarrow> string" where
  "row i m = take 10000 (drop (i * 10000) m)"

definition inst_fopen :: "nat \<Rightarrow> bool \<Rightarrow> u32 \<Rightarrow> instances \<Rightarrow> (int \<times> instances) option" where
  "inst_fopen fd rw iminor s = (if inst_files s fd \<noteq> None then None
     else (case inst_open rw iminor of
       None \<Rightarrow> None
     | Some (Inl e) \<Rightarrow> Some (e, s)
     | Some (Inr i) \<Rightarrow> Some (0, s\<lparr>inst_files := (inst_files s)(fd \<mapsto> (i, 0))\<rparr>)))"

definition inst_release :: "nat \<Rightarrow> instances \<Rightarrow> (int \<times> instances) option" where
  "inst_release fd s = (if inst_files s fd = None then None else Some (0, s))"

text \<open>
  A read and a write of a file on row \<open>i\<close>, at the position \<open>off\<close>; \<open>None\<close> is an access outside of
  the array. The result: the count, the bytes for the user, the new position.
\<close>

definition inst_read :: "uaccess \<Rightarrow> nat \<Rightarrow> u64 \<Rightarrow> s64 \<Rightarrow> instances \<Rightarrow> (s64 \<times> string \<times> s64) option" where
  "inst_read A i n off s = Option.bind (strlen (drop (i * 10000) (inst_mem s))) (\<lambda>len.
     let remaining = word_of_nat len - off;
         cnt = if remaining < n then remaining else n;
         off' = off + cnt
     in case peek (inst_mem s) (int (i * 10000) + sint off) (uint cnt) of
          None \<Rightarrow> None
        | Some d \<Rightarrow> let left = copy_to_user A cnt in
            if left \<noteq> 0 then Some (word_of_int (- EFAULT), take (unat cnt - unat left) d, off')
            else Some (cnt, d, off'))"

definition inst_write :: "uaccess \<Rightarrow> nat \<Rightarrow> u64 \<Rightarrow> string \<Rightarrow> s64 \<Rightarrow> instances \<Rightarrow> (s64 \<times> s64 \<times> instances) option" where
  "inst_write A i n d off s =
     (let remaining = word_of_int BUFFER_SZ - off;
          off' = off + n;
          cnt = if remaining \<le> n then word_of_int (- EIO) else n
      in if cnt = 0 then Some (cnt, off', s)
         else case poke (inst_mem s) (int (i * 10000) + sint (off + cnt)) [CHR 0x00] of
           None \<Rightarrow> None
         | Some b \<Rightarrow> (case copy_from_user A cnt d of (left, placed) \<Rightarrow>
             (case poke b (int (i * 10000) + sint off) placed of
               None \<Rightarrow> None
             | Some b' \<Rightarrow> Some (if left \<noteq> 0 then word_of_int (- EFAULT) else cnt, off', s\<lparr>inst_mem := b'\<rparr>))))"

definition inst_show :: "nat \<Rightarrow> instances \<Rightarrow> string option" where
  "inst_show i s = (if i < length (inst_attrs s) then Some (long_show (fst (inst_attrs s ! i))) else None)"

definition inst_store :: "(string \<Rightarrow> int + s64) \<Rightarrow> nat \<Rightarrow> string \<Rightarrow> instances \<Rightarrow> (int \<times> instances) option" where
  "inst_store kstrtol i buf s = (if i < length (inst_attrs s)
     then case long_store kstrtol buf (fst (inst_attrs s ! i)) of (r, v) \<Rightarrow>
       Some (r, s\<lparr>inst_attrs := (inst_attrs s)[i := (v, snd (inst_attrs s ! i))]\<rparr>)
     else None)"

fun inst_step :: "uaccess \<Rightarrow> (string \<Rightarrow> int + s64) \<Rightarrow> dev_op \<Rightarrow> instances \<Rightarrow> (dev_answer \<times> instances) option" where
  "inst_step A k (D_open fd rw m) s = map_option (apfst Status) (inst_fopen fd rw m s)"
| "inst_step A k (D_release fd) s = map_option (apfst Status) (inst_release fd s)"
| "inst_step A k (D_read fd n) s = Option.bind (inst_files s fd) (\<lambda>(i, off).
     map_option (\<lambda>(r, d, off'). (Bytes r d, s\<lparr>inst_files := (inst_files s)(fd \<mapsto> (i, off'))\<rparr>)) (inst_read A i n off s))"
| "inst_step A k (D_write fd n d) s = Option.bind (inst_files s fd) (\<lambda>(i, off).
     map_option (\<lambda>(r, off', t). (Written r, t\<lparr>inst_files := (inst_files s)(fd \<mapsto> (i, off'))\<rparr>)) (inst_write A i n d off s))"
| "inst_step A k (D_pread fd n pos) s = Option.bind (inst_files s fd) (\<lambda>(i, off).
     map_option (\<lambda>(r, d, off'). (Bytes r d, s)) (inst_read A i n pos s))"
| "inst_step A k (D_pwrite fd n d pos) s = Option.bind (inst_files s fd) (\<lambda>(i, off).
     map_option (\<lambda>(r, off', t). (Written r, t)) (inst_write A i n d pos s))"
| "inst_step A k (D_show i) s = map_option (\<lambda>x. (Shown x, s)) (inst_show i s)"
| "inst_step A k (D_store i buf) s = map_option (apfst Status) (inst_store k i buf s)"

definition inst_dev :: "dev_op \<Rightarrow> instances \<Rightarrow> nat option" where
  "inst_dev x s = op_device (inst_files s) x"

subsection \<open>Rows\<close>

text \<open>An access inside the middle of three parts.\<close>

lemma peek_mid: "peek r i n = Some d \<Longrightarrow> peek (a @ r @ b) (int (length a) + i) n = Some d"
  by (auto simp: peek_def nat_add_distrib split: if_splits)

lemma poke_mid: "poke r i d = Some r' \<Longrightarrow> poke (a @ r @ b) (int (length a) + i) d = Some (a @ r' @ b)"
  by (auto simp: poke_def nat_add_distrib split: if_splits)

lemma strlen_append: "strlen r = Some n \<Longrightarrow> strlen (r @ b) = Some n"
  by (auto simp: strlen_def takeWhile_append1 split: if_splits)

definition put_row :: "nat \<Rightarrow> string \<Rightarrow> string \<Rightarrow> string" where
  "put_row i r m = take (i * 10000) m @ r @ drop (Suc i * 10000) m"

lemma put_row_row: "put_row i (row i m) m = m"
proof -
  have "drop (Suc i * 10000) m = drop 10000 (drop (i * 10000) m)" by (simp add: add.commute)
  then show ?thesis by (simp only: put_row_def row_def append_take_drop_id)
qed

lemma row_parts:
  assumes "length m = INSTANCES * 10000" "i < INSTANCES"
  shows "length (row i m) = 10000" "length (take (i * 10000) m) = i * 10000"
  using assms by (simp_all add: row_def INSTANCES_def)

lemma length_put_row:
  assumes "length m = INSTANCES * 10000" "i < INSTANCES" "length r = 10000"
  shows "length (put_row i r m) = INSTANCES * 10000"
  using assms by (simp add: put_row_def INSTANCES_def)

lemma row_put_row:
  assumes m: "length m = INSTANCES * 10000" and i: "i < INSTANCES" and r: "length r = 10000"
  shows "row j (put_row i r m) = (if j = i then r else row j m)"
proof -
  consider "j = i" | "j < i" | "i < j" by linarith
  then show ?thesis
  proof cases
    case 1
    then show ?thesis using assms by (simp add: put_row_def row_def INSTANCES_def)
  next
    case 2
    then have "Suc j * 10000 \<le> i * 10000" by simp
    then have "take (Suc j * 10000) (put_row i r m) = take (Suc j * 10000) m"
      using row_parts(2) [OF m i] by (simp add: put_row_def min_absorb1)
    moreover have "row j x = drop (j * 10000) (take (Suc j * 10000) x)" for x by (simp add: row_def take_drop add.commute)
    ultimately show ?thesis using 2 by simp
  next
    case 3
    then obtain k where k: "j * 10000 = Suc i * 10000 + k" by (metis Suc_leI mult_le_mono1 nat_le_iff_add)
    have "drop (Suc i * 10000) (put_row i r m) = drop (Suc i * 10000) m"
      using row_parts(2) [OF m i] r by (simp add: put_row_def)
    then have "drop (j * 10000) (put_row i r m) = drop (j * 10000) m"
      unfolding k by (metis add.commute drop_drop)
    with 3 show ?thesis by (simp add: row_def)
  qed
qed

text \<open>An access that stays in the row is the one of exercise 6 on a buffer of its own (\<open>CharSolution\<close>).\<close>

lemma inst_read_row:
  assumes m: "length (inst_mem s) = INSTANCES * 10000" and i: "i < INSTANCES"
    and r: "misc_read A n \<lparr>private_data = row i (inst_mem s), f_off = off\<rparr> = Some (v, d, f)"
  shows "inst_read A i n off s = Some (v, d, f_off f)"
proof -
  let ?m = "inst_mem s"
  obtain len where len: "strlen (row i ?m) = Some len" using r by (auto simp: misc_read_def bind_eq_Some_conv)
  have "drop (i * 10000) ?m = row i ?m @ drop (Suc i * 10000) ?m"
    by (metis append_take_drop_id drop_drop mult_Suc row_def)
  with strlen_append [OF len] have sl: "strlen (drop (i * 10000) ?m) = Some len" by simp
  have pk: "peek ?m (int (i * 10000) + sint off) c = Some x" if "peek (row i ?m) (sint off) c = Some x" for c x
    using peek_mid [OF that, of "take (i * 10000) ?m" "drop (Suc i * 10000) ?m"] row_parts(2) [OF m i]
      put_row_row [of i ?m] by (simp only: put_row_def)
  define cnt where "cnt = (if word_of_nat len - off < n then word_of_nat len - off else n)"
  obtain x where x: "peek (row i ?m) (sint off) (uint cnt) = Some x"
    using r len unfolding misc_read_def Let_def fio.simps by (auto simp: cnt_def [symmetric] split: option.splits)
  show ?thesis
    using r unfolding misc_read_def inst_read_def Let_def fio.simps len sl bind.simps cnt_def [symmetric] x pk [OF x]
    by (cases "copy_to_user A cnt = 0") auto
qed

lemma inst_write_row:
  assumes m: "length (inst_mem s) = INSTANCES * 10000" and i: "i < INSTANCES"
    and w: "misc_write A n d \<lparr>private_data = row i (inst_mem s), f_off = off\<rparr> = Some (v, f)"
  shows "inst_write A i n d off s = Some (v, f_off f, s\<lparr>inst_mem := put_row i (private_data f) (inst_mem s)\<rparr>)"
    and "length (private_data f) = 10000"
proof -
  let ?m = "inst_mem s"
  define cnt where "cnt = (if word_of_int BUFFER_SZ - off \<le> n then word_of_int (- EIO) else n)"
  have pk: "poke (put_row i b ?m) (int (i * 10000) + j) x = Some (put_row i b' ?m)" if "poke b j x = Some b'" for b b' j x
    using poke_mid [OF that, of "take (i * 10000) ?m" "drop (Suc i * 10000) ?m"] row_parts(2) [OF m i]
    by (simp only: put_row_def)
  obtain left placed where cp: "copy_from_user A cnt d = (left, placed)" by fastforce
  have "inst_write A i n d off s = Some (v, f_off f, s\<lparr>inst_mem := put_row i (private_data f) (inst_mem s)\<rparr>) \<and>
      length (private_data f) = 10000"
  proof (cases "cnt = 0")
    case True
    then have "v = 0" "f = \<lparr>private_data = row i ?m, f_off = off + n\<rparr>"
      using w unfolding misc_write_def Let_def fio.simps cnt_def [symmetric] by simp_all
    then show ?thesis using True row_parts(1) [OF m i]
      unfolding inst_write_def Let_def cnt_def [symmetric] by (simp add: put_row_row)
  next
    case False
    with w obtain b b' where b: "poke (row i ?m) (sint (off + cnt)) [CHR 0x00] = Some b" "poke b (sint off) placed = Some b'"
      and v: "v = (if left \<noteq> 0 then word_of_int (- EFAULT) else cnt)" "f = \<lparr>private_data = b', f_off = off + n\<rparr>"
      unfolding misc_write_def Let_def fio.simps cnt_def [symmetric] by (auto simp: cp split: option.splits)
    have "poke ?m (int (i * 10000) + sint (off + cnt)) [CHR 0x00] = Some (put_row i b ?m)"
      using pk [OF b(1)] by (simp only: put_row_row)
    with pk [OF b(2)] have "inst_write A i n d off s = Some (v, off + n, s\<lparr>inst_mem := put_row i b' ?m\<rparr>)"
      unfolding inst_write_def Let_def cnt_def [symmetric] using False by (simp add: cp v(1))
    moreover have "length b' = 10000" using b length_poke row_parts(1) [OF m i] by metis
    ultimately show ?thesis using v(2) by simp
  qed
  then show "inst_write A i n d off s = Some (v, f_off f, s\<lparr>inst_mem := put_row i (private_data f) (inst_mem s)\<rparr>)"
    "length (private_data f) = 10000" by simp_all
qed

subsection \<open>The accesses that stay in a row\<close>

text \<open>An operation whose accesses stay in the buffer of its device: the same operation on that buffer alone does not leave it.\<close>

definition inst_inside :: "uaccess \<Rightarrow> dev_op \<Rightarrow> instances \<Rightarrow> bool" where
  "inst_inside A x s = (case x of
     D_read fd n \<Rightarrow> (case inst_files s fd of None \<Rightarrow> True
       | Some (i, off) \<Rightarrow> misc_read A n \<lparr>private_data = row i (inst_mem s), f_off = off\<rparr> \<noteq> None)
   | D_write fd n d \<Rightarrow> (case inst_files s fd of None \<Rightarrow> True
       | Some (i, off) \<Rightarrow> misc_write A n d \<lparr>private_data = row i (inst_mem s), f_off = off\<rparr> \<noteq> None)
   | D_pread fd n pos \<Rightarrow> (case inst_files s fd of None \<Rightarrow> True
       | Some (i, off) \<Rightarrow> misc_read A n \<lparr>private_data = row i (inst_mem s), f_off = pos\<rparr> \<noteq> None)
   | D_pwrite fd n d pos \<Rightarrow> (case inst_files s fd of None \<Rightarrow> True
       | Some (i, off) \<Rightarrow> misc_write A n d \<lparr>private_data = row i (inst_mem s), f_off = pos\<rparr> \<noteq> None)
   | _ \<Rightarrow> True)"

fun stays_inside :: "uaccess \<Rightarrow> (string \<Rightarrow> int + s64) \<Rightarrow> dev_op list \<Rightarrow> instances \<Rightarrow> bool" where
  "stays_inside A k [] s = True"
| "stays_inside A k (x # xs) s = (inst_inside A x s \<and> (case inst_step A k x s of None \<Rightarrow> True | Some (r, t) \<Rightarrow> stays_inside A k xs t))"

definition row_step :: "uaccess \<Rightarrow> (string \<Rightarrow> int + s64) \<Rightarrow> dev_op \<Rightarrow> instances \<Rightarrow> (dev_answer \<times> instances) option" where
  "row_step A k x s = (if inst_inside A x s then inst_step A k x s else None)"

lemma stays_inside_run:
  "stays_inside A k xs s \<Longrightarrow> run_ops (inst_step A k) xs s = Some (rs, t) \<Longrightarrow> run_ops (row_step A k) xs s = Some (rs, t)"
  "stays_inside A k xs s \<Longrightarrow> run_ops (inst_step A k) xs s = Some (rs, t) \<Longrightarrow>
     own_part inst_dev (row_step A k) i xs s = own_part inst_dev (inst_step A k) i xs s"
  by (induction xs arbitrary: s rs) (auto simp: row_step_def bind_eq_Some_conv)

lemma row_run: "run_ops (row_step A k) xs s = Some (rs, t) \<Longrightarrow> run_ops (inst_step A k) xs s = Some (rs, t)"
  by (induction xs arbitrary: s rs) (auto simp: row_step_def bind_eq_Some_conv split: if_splits)

text \<open>The array is whole and the files point to its rows.\<close>

definition inst_wf :: "instances \<Rightarrow> bool" where
  "inst_wf s \<longleftrightarrow> length (inst_mem s) = INSTANCES * 10000 \<and> files_below INSTANCES (inst_files s)"

lemma inst_wfD:
  "inst_wf s \<Longrightarrow> inst_files s fd = Some (i, off) \<Longrightarrow> i < INSTANCES" "inst_wf s \<Longrightarrow> length (inst_mem s) = INSTANCES * 10000"
  by (auto simp: inst_wf_def dest: files_belowD)

definition inst_rel :: "nat \<Rightarrow> instances \<Rightarrow> instances \<Rightarrow> bool" where
  "inst_rel i s s' \<longleftrightarrow> inst_wf s \<and> inst_wf s' \<and> row i (inst_mem s) = row i (inst_mem s') \<and> inst_attrs s ! i = inst_attrs s' ! i \<and>
     length (inst_attrs s) = length (inst_attrs s') \<and> files_rel i (inst_files s) (inst_files s')"

text \<open>On such a state the operations that stay in a row are those of exercise 6 on the rows.\<close>

lemma row_step_file:
  assumes "inst_wf s"
  shows "row_step A k (D_read fd n) s = Option.bind (inst_files s fd) (\<lambda>(i, off).
      map_option (\<lambda>(v, d, f). (Bytes v d, s\<lparr>inst_files := (inst_files s)(fd \<mapsto> (i, f_off f))\<rparr>))
        (misc_read A n \<lparr>private_data = row i (inst_mem s), f_off = off\<rparr>))"
    and "row_step A k (D_pread fd n pos) s = Option.bind (inst_files s fd) (\<lambda>(i, off).
      map_option (\<lambda>(v, d, f). (Bytes v d, s)) (misc_read A n \<lparr>private_data = row i (inst_mem s), f_off = pos\<rparr>))"
    and "row_step A k (D_write fd n d) s = Option.bind (inst_files s fd) (\<lambda>(i, off).
      map_option (\<lambda>(v, f). (Written v, s\<lparr>inst_mem := put_row i (private_data f) (inst_mem s),
          inst_files := (inst_files s)(fd \<mapsto> (i, f_off f))\<rparr>))
        (misc_write A n d \<lparr>private_data = row i (inst_mem s), f_off = off\<rparr>))"
    and "row_step A k (D_pwrite fd n d pos) s = Option.bind (inst_files s fd) (\<lambda>(i, off).
      map_option (\<lambda>(v, f). (Written v, s\<lparr>inst_mem := put_row i (private_data f) (inst_mem s)\<rparr>))
        (misc_write A n d \<lparr>private_data = row i (inst_mem s), f_off = pos\<rparr>))"
proof -
  note rd = inst_read_row [OF inst_wfD(2) [OF assms] inst_wfD(1) [OF assms]]
    and wr = inst_write_row(1) [OF inst_wfD(2) [OF assms] inst_wfD(1) [OF assms]]
  show "row_step A k (D_read fd n) s = Option.bind (inst_files s fd) (\<lambda>(i, off).
      map_option (\<lambda>(v, d, f). (Bytes v d, s\<lparr>inst_files := (inst_files s)(fd \<mapsto> (i, f_off f))\<rparr>))
        (misc_read A n \<lparr>private_data = row i (inst_mem s), f_off = off\<rparr>))"
    by (cases "inst_files s fd") (auto simp: row_step_def inst_inside_def rd not_None_eq [symmetric] simp del: not_None_eq split: option.splits)
  show "row_step A k (D_pread fd n pos) s = Option.bind (inst_files s fd) (\<lambda>(i, off).
      map_option (\<lambda>(v, d, f). (Bytes v d, s)) (misc_read A n \<lparr>private_data = row i (inst_mem s), f_off = pos\<rparr>))"
    by (cases "inst_files s fd") (auto simp: row_step_def inst_inside_def rd not_None_eq [symmetric] simp del: not_None_eq split: option.splits)
  show "row_step A k (D_write fd n d) s = Option.bind (inst_files s fd) (\<lambda>(i, off).
      map_option (\<lambda>(v, f). (Written v, s\<lparr>inst_mem := put_row i (private_data f) (inst_mem s),
          inst_files := (inst_files s)(fd \<mapsto> (i, f_off f))\<rparr>))
        (misc_write A n d \<lparr>private_data = row i (inst_mem s), f_off = off\<rparr>))"
    by (cases "inst_files s fd") (auto simp: row_step_def inst_inside_def wr not_None_eq [symmetric] simp del: not_None_eq split: option.splits)
  show "row_step A k (D_pwrite fd n d pos) s = Option.bind (inst_files s fd) (\<lambda>(i, off).
      map_option (\<lambda>(v, f). (Written v, s\<lparr>inst_mem := put_row i (private_data f) (inst_mem s)\<rparr>))
        (misc_write A n d \<lparr>private_data = row i (inst_mem s), f_off = pos\<rparr>))"
    by (cases "inst_files s fd") (auto simp: row_step_def inst_inside_def wr not_None_eq [symmetric] simp del: not_None_eq split: option.splits)
qed

lemma row_step_other:
  "row_step A k (D_open fd rw m) s = inst_step A k (D_open fd rw m) s"
  "row_step A k (D_release fd) s = inst_step A k (D_release fd) s"
  "row_step A k (D_show i) s = inst_step A k (D_show i) s"
  "row_step A k (D_store i buf) s = inst_step A k (D_store i buf) s"
  by (simp_all add: row_step_def inst_inside_def)

lemma length_misc_write:
  "misc_write A n d f = Some (v, g) \<Longrightarrow> length (private_data g) = length (private_data f)"
  by (auto simp: misc_write_def Let_def dest!: length_poke split: option.splits prod.splits if_splits)

lemmas inst_ops = inst_fopen_def inst_open_def inst_release_def inst_show_def inst_store_def row_step_other

lemma row_step_wf:
  assumes "row_step A k x s = Some (r, t)" "inst_wf s"
  shows "inst_wf t"
  using assms
  by (cases x) (auto simp: row_step_file [OF assms(2)] inst_ops inst_wf_def bind_eq_Some_conv row_parts length_put_row
      dest!: length_misc_write dest: files_belowD intro!: files_below_simps(2) split: if_splits prod.splits)

lemma row_written:
  assumes "inst_wf s" "inst_files s fd = Some (i, off0)"
    and "misc_write A n d \<lparr>private_data = row i (inst_mem s), f_off = off\<rparr> = Some (v, f)"
  shows "row j (put_row i (private_data f) (inst_mem s)) = (if j = i then private_data f else row j (inst_mem s))"
  using row_put_row [OF inst_wfD(2) [OF assms(1)] inst_wfD(1) [OF assms(1,2)]] length_misc_write [OF assms(3)]
    row_parts(1) [OF inst_wfD(2) [OF assms(1)] inst_wfD(1) [OF assms(1,2)]] by simp

lemma row_others:
  assumes "inst_rel i s s'" "row_step A k x s = Some (r, t)" "inst_dev x s \<noteq> Some i"
  shows "inst_rel i t s'"
proof -
  have wf: "inst_wf s" using assms(1) by (simp add: inst_rel_def)
  with row_step_wf [OF assms(2)] assms show ?thesis
    by (cases x) (auto simp: row_step_file [OF wf] row_written [OF wf] inst_ops inst_rel_def inst_dev_def bind_eq_Some_conv
        intro!: files_rel_other split: if_splits prod.splits)
qed

lemma row_same:
  assumes "inst_rel i s s'" "row_step A k x s = Some (r, t)" "inst_dev x s = Some i"
  shows "\<exists>t'. row_step A k x s' = Some (r, t') \<and> inst_rel i t t'"
proof -
  have wf: "inst_wf s" "inst_wf s'" "inst_wf t"
    using assms(1) row_step_wf [OF assms(2)] by (simp_all add: inst_rel_def)
  have F: "inst_files s' fd = Some (i, off)" if "inst_files s fd = Some (i, off)" for fd off
    using assms(1) that by (auto simp: inst_rel_def intro: files_rel_some)
  have "\<exists>t'. row_step A k x s' = Some (r, t') \<and> (inst_wf t' \<longrightarrow> inst_rel i t t')"
  proof (cases x)
    case (D_open fd rw m)
    have "inst_files s fd = None" using assms(2) D_open by (cases "inst_files s fd") (simp_all add: inst_ops)
    then have "inst_files s' fd = None" using assms(1) by (auto simp: inst_rel_def dest: files_rel_none)
    with assms D_open wf(3) show ?thesis
      by (auto simp: inst_ops inst_rel_def inst_dev_def intro: files_rel_same split: if_splits)
  next
    case (D_read fd n)
    then obtain off where f: "inst_files s fd = Some (i, off)" using assms(3) by (auto simp: inst_dev_def)
    with F [OF f] assms D_read wf show ?thesis
      by (auto simp: row_step_file inst_rel_def intro!: files_rel_same)
  next
    case (D_pread fd n pos)
    then obtain off where f: "inst_files s fd = Some (i, off)" using assms(3) by (auto simp: inst_dev_def)
    with F [OF f] assms D_pread wf show ?thesis by (auto simp: row_step_file inst_rel_def)
  next
    case (D_write fd n d)
    then obtain off where f: "inst_files s fd = Some (i, off)" using assms(3) by (auto simp: inst_dev_def)
    with F [OF f] assms D_write wf show ?thesis
      by (auto simp: row_step_file row_written [OF wf(1) f] row_written [OF wf(2) F [OF f]] inst_rel_def intro!: files_rel_same)
  next
    case (D_pwrite fd n d pos)
    then obtain off where f: "inst_files s fd = Some (i, off)" using assms(3) by (auto simp: inst_dev_def)
    with F [OF f] assms D_pwrite wf show ?thesis
      by (auto simp: row_step_file row_written [OF wf(1) f] row_written [OF wf(2) F [OF f]] inst_rel_def)
  next
    case (D_release fd)
    with assms wf(3) show ?thesis
      by (auto simp: inst_ops inst_rel_def inst_dev_def dest: files_rel_some split: if_splits)
  qed (use assms wf(3) in \<open>auto simp: inst_ops inst_rel_def inst_dev_def split: if_splits prod.splits\<close>)
  with row_step_wf [OF _ wf(2)] show ?thesis by blast
qed

interpretation sample062: device_family inst_dev "row_step A k" inst_wf inst_rel for A k
proof unfold_locales
  show "inst_wf s \<Longrightarrow> inst_rel i s s" for i s by (simp add: inst_rel_def)
qed (rule row_others row_same; assumption)+

subsection \<open>The texts of sample 6.2\<close>

definition inst_ok :: "instances \<Rightarrow> bool" where
  "inst_ok s \<longleftrightarrow> inst_wf s \<and> (\<forall>i < INSTANCES. text_ok (row i (inst_mem s)))"

lemma row_step_ok:
  assumes "row_step A k x s = Some (r, t)" "inst_ok s" "uaccess_exact A"
  shows "inst_ok t"
proof -
  have wf: "inst_wf s" "inst_wf t" using assms(2) row_step_wf [OF assms(1)] by (simp_all add: inst_ok_def)
  have tx: "text_ok (private_data f)"
    if "inst_files s fd = Some (i, off0)" "misc_write A n d \<lparr>private_data = row i (inst_mem s), f_off = off\<rparr> = Some (v, f)" for fd i off0 off n d v f
    using misc_write_text [OF assms(3) _ that(2)] assms(2) inst_wfD(1) [OF wf(1) that(1)] by (simp add: inst_ok_def)
  have "\<forall>i < INSTANCES. text_ok (row i (inst_mem t))"
  proof (cases x)
    case (D_write fd n d)
    with assms(1) wf obtain j off v f where w: "inst_files s fd = Some (j, off)"
      "misc_write A n d \<lparr>private_data = row j (inst_mem s), f_off = off\<rparr> = Some (v, f)"
      "inst_mem t = put_row j (private_data f) (inst_mem s)" by (auto simp: row_step_file bind_eq_Some_conv)
    from tx [OF w(1,2)] row_written [OF wf(1) w(1,2)] assms(2) show ?thesis by (simp add: w(3) inst_ok_def)
  next
    case (D_pwrite fd n d pos)
    with assms(1) wf obtain j off v f where w: "inst_files s fd = Some (j, off)"
      "misc_write A n d \<lparr>private_data = row j (inst_mem s), f_off = pos\<rparr> = Some (v, f)"
      "inst_mem t = put_row j (private_data f) (inst_mem s)" by (auto simp: row_step_file bind_eq_Some_conv)
    from tx [OF w(1,2)] row_written [OF wf(1) w(1,2)] assms(2) show ?thesis by (simp add: w(3) inst_ok_def)
  qed (use assms wf in \<open>auto simp: row_step_file inst_ops inst_ok_def bind_eq_Some_conv split: if_splits prod.splits\<close>)
  with wf(2) show ?thesis by (simp add: inst_ok_def)
qed

lemma row_replicate: "i < INSTANCES \<Longrightarrow> row i (replicate (INSTANCES * 10000) c) = replicate 10000 c"
  by (simp add: row_def INSTANCES_def)

text \<open>After any run from the load in which every access stays in a row, the three rows are texts.\<close>

lemma inst_run_ok:
  assumes "uaccess_exact A" "run_ops (inst_step A k) xs inst_start = Some (rs, t)" "stays_inside A k xs inst_start"
  shows "inst_ok t"
proof -
  have "length (inst_mem inst_start) = INSTANCES * 10000" by (simp only: inst_start_def instances.simps length_replicate)
  moreover have "text_ok (row i (inst_mem inst_start))" if "i < INSTANCES" for i
    using row_replicate [OF that] text_ok_zero by (simp only: inst_start_def instances.simps)
  ultimately have "inst_ok inst_start" by (simp add: inst_ok_def inst_wf_def) (simp add: inst_start_def)
  from run_ops_invariant [where P = inst_ok, OF stays_inside_run(1) [OF assms(3,2)] this] show ?thesis
    using row_step_ok [OF _ _ assms(1)] by blast
qed

text \<open>
  A read at a position behind the text gets the bytes that are there: stale ones of the row, or
  those of the rows behind it.
\<close>

lemma inst_read_behind:
  assumes A: "uaccess_ok A" and m: "length (inst_mem s) = INSTANCES * 10000" and i: "i < INSTANCES"
    and b: "text_ok (row i (inst_mem s))" and n: "uint n < 2 ^ 31"
    and gt: "int (length (text_of (row i (inst_mem s)))) < sint off"
  shows "inst_read A i n off s = (if int (i * 10000) + sint off + uint n \<le> int (INSTANCES * 10000)
    then Some (n, take (unat n) (drop (i * 10000 + nat (sint off)) (inst_mem s)), off + n) else None)"
proof -
  define len where "len = length (text_of (row i (inst_mem s)))"
  have "drop (i * 10000) (inst_mem s) = row i (inst_mem s) @ drop (Suc i * 10000) (inst_mem s)"
    by (metis append_take_drop_id drop_drop mult_Suc row_def)
  then have sl: "strlen (drop (i * 10000) (inst_mem s)) = Some len"
    using strlen_append [OF text_ok_strlen(1) [OF b]] by (simp add: len_def)
  have lt: "sint off < 2 ^ 63" using sint_lt [of off] by simp
  have rem: "word_of_nat len - off = word_of_int (2 ^ 64 + int len - sint off)"
    unfolding wi_hom_sub [symmetric] wi_hom_add [symmetric] by simp
  have "uint (word_of_int (2 ^ 64 + int len - sint off) :: u64) = 2 ^ 64 + int len - sint off"
    by (rule uint_small64) (use lt gt in \<open>simp_all add: len_def\<close>)
  then have w: "(if word_of_int (2 ^ 64 + int len - sint off) < n then word_of_int (2 ^ 64 + int len - sint off) else n) = n"
    using n lt by (simp add: word_less_def)
  have "nat (int (i * 10000) + sint off) = i * 10000 + nat (sint off)" using gt by (simp add: nat_add_distrib)
  then have "peek (inst_mem s) (int (i * 10000) + sint off) (uint n) =
      (if int (i * 10000) + sint off + uint n \<le> int (INSTANCES * 10000)
       then Some (take (unat n) (drop (i * 10000 + nat (sint off)) (inst_mem s))) else None)"
    using gt m by (simp only: peek_def unat_eq_nat_uint) simp
  moreover have "copy_to_user A n = 0" using A n by (simp add: uaccess_ok_def)
  ultimately show ?thesis
    unfolding inst_read_def sl bind.simps Let_def rem w by simp
qed

subsection \<open>The accesses that leave a row\<close>

lemma row_update:
  "k < 10000 \<Longrightarrow> row i (m[i * 10000 + k := c]) = (row i m)[k := c]"
  by (simp add: row_def drop_update_swap take_update_swap)

text \<open>A write that is refused within the first five bytes of a device puts a NUL into the device before it.\<close>

lemma inst_write_refused:
  assumes wf: "inst_wf s" and i: "Suc i < INSTANCES" and A: "uaccess_bounded A"
    and off: "0 \<le> sint off" "sint off < 5" and n: "10000 \<le> sint off + uint n"
  shows "\<exists>t. inst_write A (Suc i) n d off s = Some (word_of_int (- EFAULT), off + n, t) \<and>
    row i (inst_mem t) = (row i (inst_mem s))[9995 + nat (sint off) := CHR 0x00]"
proof -
  define k where "k = 9995 + nat (sint off)"
  have "uint (word_of_int BUFFER_SZ - off) = BUFFER_SZ - sint off"
    using off by (intro room_word) (simp_all add: BUFFER_SZ_def)
  then have big: "word_of_int BUFFER_SZ - off \<le> n" using n by (simp add: word_le_def BUFFER_SZ_def)
  have "copy_from_user A (word_of_int (- EIO)) d = (word_of_int (- EIO), [])" using A by (simp add: uaccess_bounded_def EIO_def)
  moreover have "sint (off + word_of_int (- EIO)) = sint off - 5"
  proof -
    have "off + word_of_int (- EIO) = word_of_int (sint off - 5)" by (simp add: EIO_def)
    moreover have "sint (word_of_int (sint off - 5) :: s64) = sint off - 5" using off by (intro sint_small64) simp_all
    ultimately show ?thesis by simp
  qed
  moreover have at: "int (Suc i * 10000) + (sint off - 5) = int (i * 10000 + k)" using off by (simp add: k_def)
  have lt: "i * 10000 + k < length (inst_mem s)" using wf i off by (simp add: inst_wf_def k_def INSTANCES_def)
  have "poke (inst_mem s) (int (i * 10000 + k)) [CHR 0x00] = Some ((inst_mem s)[i * 10000 + k := CHR 0x00])"
    using lt by (simp del: of_nat_add add: poke_def upd_conv_take_nth_drop)
  moreover have "(word_of_int (- EIO) :: u64) \<noteq> 0" by (simp add: EIO_def)
  ultimately have "inst_write A (Suc i) n d off s =
      Some (word_of_int (- EFAULT), off + n, s\<lparr>inst_mem := (inst_mem s)[i * 10000 + k := CHR 0x00]\<rparr>)"
    unfolding inst_write_def Let_def using big by (simp only: if_True if_False at prod.case option.case) (simp add: poke_def)
  moreover have "k < 10000" using off by (simp add: k_def)
  ultimately show ?thesis by (simp add: row_update k_def)
qed

text \<open>
  A write at a position behind a device is not refused: \<open>remaining\<close> is negative, which the
  comparison takes for a huge number. Three bytes at 19997 of the first device end in the
  second one, whose last byte was its NUL.
\<close>

lemma inst_write_behind:
  assumes wf: "inst_wf s" and A: "uaccess_ok A" and d: "length d = 3"
  shows "\<exists>t. inst_write A 0 3 d 19997 s = Some (3, 20000, t) \<and> row 1 (inst_mem t) ! 9999 = d ! 2"
proof -
  define m where "m = inst_mem s"
  have lm: "length m = 30000" using wf by (simp add: m_def inst_wf_def INSTANCES_def)
  define m1 where "m1 = take 20000 m @ CHR 0x00 # drop 20001 m"
  define m2 where "m2 = take 19997 m1 @ d @ drop 20000 m1"
  have "poke m 20000 [CHR 0x00] = Some m1" using lm by (simp add: poke_def m1_def)
  moreover have "length m1 = 30000" using lm by (simp add: m1_def)
  then have "poke m1 19997 d = Some m2" using d by (auto simp: poke_def m2_def)
  moreover have "copy_from_user A 3 d = (0, d)" using A d by (simp add: uaccess_ok_def)
  moreover have "\<not> (word_of_int BUFFER_SZ - 19997 :: u64) \<le> 3" by (simp add: BUFFER_SZ_def word_le_def)
  ultimately have "inst_write A 0 3 d 19997 s = Some (3, 20000, s\<lparr>inst_mem := m2\<rparr>)"
    by (simp add: inst_write_def m_def [symmetric])
  moreover have "row 1 m2 ! 9999 = m2 ! 19999" using lm d by (simp add: row_def m2_def m1_def nth_append)
  moreover have "m2 ! 19999 = d ! 2" using lm d by (simp add: m2_def m1_def nth_append)
  ultimately show ?thesis by simp
qed

subsection \<open>Sample 6.3: the devices of the children\<close>

text \<open>
  The data of the children's devices after a probe that succeeds (\<open>last_probe\<close> has the failures).
  \<open>reg\<close> is declared outside the loop: a child without the property \<open>reg\<close> gets the number of the
  child before it.
\<close>

record mydata =
  ch_buffer :: string

record attrdata = mydata +
  ch_val :: s64
  ch_id :: i32

definition attr_instance :: "u64 \<Rightarrow> attrdata" where
  "attr_instance reg = \<lparr>ch_buffer = replicate 10000 CHR 0x00, ch_val = reg, ch_id = ucast reg\<rparr>"

fun probed_data :: "u64 \<Rightarrow> u64 option list \<Rightarrow> attrdata list" where
  "probed_data reg [] = []"
| "probed_data reg (p # ps) = (let reg = (case p of None \<Rightarrow> reg | Some v \<Rightarrow> v) in attr_instance reg # probed_data reg ps)"

lemma probed_data_inherits: "probed_data reg (Some v # None # ps) = attr_instance v # attr_instance v # probed_data v ps"
  by simp

text \<open>
  The misc core opens registered devices only and points \<open>private_data\<close> to the miscdevice. Each child has
  a block of its own; \<open>None\<close> is an access that leaves the buffer at its start: what follows the
  buffer in the block, and what is before the block, is not modelled.
\<close>

record 'd children =
  ch_data :: "'d list"
  ch_files :: open_files

definition child_open :: "nat \<Rightarrow> u32 \<Rightarrow> 'd children \<Rightarrow> (int \<times> 'd children) option" where
  "child_open fd m s = (if ch_files s fd = None \<and> unat m < length (ch_data s)
     then Some (0, s\<lparr>ch_files := (ch_files s)(fd \<mapsto> (unat m, 0))\<rparr>) else None)"

definition child_release :: "nat \<Rightarrow> 'd children \<Rightarrow> (int \<times> 'd children) option" where
  "child_release fd s = (if ch_files s fd = None then None else Some (0, s))"

definition child_read :: "uaccess \<Rightarrow> nat \<Rightarrow> u64 \<Rightarrow> s64 \<Rightarrow> 'z mydata_scheme children \<Rightarrow> (s64 \<times> string \<times> s64) option" where
  "child_read A i n off s =
     map_option (\<lambda>(r, d, f). (r, d, f_off f)) (misc_read A n \<lparr>private_data = ch_buffer (ch_data s ! i), f_off = off\<rparr>)"

definition child_write :: "uaccess \<Rightarrow> nat \<Rightarrow> u64 \<Rightarrow> string \<Rightarrow> s64 \<Rightarrow> 'z mydata_scheme children \<Rightarrow> (s64 \<times> s64 \<times> 'z mydata_scheme children) option" where
  "child_write A i n d off s =
     map_option (\<lambda>(r, f). (r, f_off f, s\<lparr>ch_data := (ch_data s)[i := (ch_data s ! i)\<lparr>ch_buffer := private_data f\<rparr>]\<rparr>))
       (misc_write A n d \<lparr>private_data = ch_buffer (ch_data s ! i), f_off = off\<rparr>)"

fun child_fop :: "uaccess \<Rightarrow> dev_op \<Rightarrow> 'z mydata_scheme children \<Rightarrow> (dev_answer \<times> 'z mydata_scheme children) option" where
  "child_fop A (D_open fd rw m) s = map_option (apfst Status) (child_open fd m s)"
| "child_fop A (D_release fd) s = map_option (apfst Status) (child_release fd s)"
| "child_fop A (D_read fd n) s = Option.bind (ch_files s fd) (\<lambda>(i, off).
     map_option (\<lambda>(r, d, off'). (Bytes r d, s\<lparr>ch_files := (ch_files s)(fd \<mapsto> (i, off'))\<rparr>)) (child_read A i n off s))"
| "child_fop A (D_write fd n d) s = Option.bind (ch_files s fd) (\<lambda>(i, off).
     map_option (\<lambda>(r, off', t). (Written r, t\<lparr>ch_files := (ch_files s)(fd \<mapsto> (i, off'))\<rparr>)) (child_write A i n d off s))"
| "child_fop A (D_pread fd n pos) s = Option.bind (ch_files s fd) (\<lambda>(i, off).
     map_option (\<lambda>(r, d, off'). (Bytes r d, s)) (child_read A i n pos s))"
| "child_fop A (D_pwrite fd n d pos) s = Option.bind (ch_files s fd) (\<lambda>(i, off).
     map_option (\<lambda>(r, off', t). (Written r, t)) (child_write A i n d pos s))"
| "child_fop A _ s = None"

definition child_show :: "nat \<Rightarrow> attrdata children \<Rightarrow> string option" where
  "child_show i s = (if i < length (ch_data s) then Some (long_show (ch_val (ch_data s ! i))) else None)"

definition child_store :: "(string \<Rightarrow> int + s64) \<Rightarrow> nat \<Rightarrow> string \<Rightarrow> attrdata children \<Rightarrow> (int \<times> attrdata children) option" where
  "child_store kstrtol i buf s = (if i < length (ch_data s)
     then case long_store kstrtol buf (ch_val (ch_data s ! i)) of (r, v) \<Rightarrow>
       Some (r, s\<lparr>ch_data := (ch_data s)[i := (ch_data s ! i)\<lparr>ch_val := v\<rparr>]\<rparr>)
     else None)"

definition child_step :: "uaccess \<Rightarrow> (string \<Rightarrow> int + s64) \<Rightarrow> dev_op \<Rightarrow> attrdata children \<Rightarrow> (dev_answer \<times> attrdata children) option" where
  "child_step A k x s = (case x of
     D_show i \<Rightarrow> map_option (\<lambda>y. (Shown y, s)) (child_show i s)
   | D_store i buf \<Rightarrow> map_option (apfst Status) (child_store k i buf s)
   | _ \<Rightarrow> child_fop A x s)"

definition child_dev :: "dev_op \<Rightarrow> 'd children \<Rightarrow> nat option" where
  "child_dev x s = op_device (ch_files s) x"

definition child_rel :: "nat \<Rightarrow> 'd children \<Rightarrow> 'd children \<Rightarrow> bool" where
  "child_rel i s s' \<longleftrightarrow> ch_data s ! i = ch_data s' ! i \<and> length (ch_data s) = length (ch_data s') \<and>
     files_rel i (ch_files s) (ch_files s')"

lemmas child_ops = child_open_def child_release_def child_read_def child_write_def child_show_def child_store_def

lemma child_fop_others:
  assumes "child_rel i s s'" "child_fop A x s = Some (r, t)" "child_dev x s \<noteq> Some i"
  shows "child_rel i t s'"
  using assms
  by (cases x) (auto simp: child_ops child_rel_def child_dev_def bind_eq_Some_conv intro!: files_rel_other split: if_splits)

lemma child_fop_same:
  assumes "child_rel i s s'" "child_fop A x s = Some (r, t)" "child_dev x s = Some i"
  shows "\<exists>t'. child_fop A x s' = Some (r, t') \<and> child_rel i t t'"
proof (cases x)
  case (D_open fd rw m)
  have "ch_files s fd = None" using assms(2) D_open by (cases "ch_files s fd") (simp_all add: child_open_def)
  then have "ch_files s' fd = None" using assms(1) by (auto simp: child_rel_def dest: files_rel_none)
  with assms D_open show ?thesis
    by (auto simp: child_ops child_rel_def child_dev_def intro: files_rel_same split: if_splits)
next
  case (D_read fd n)
  then obtain off where F: "ch_files s fd = Some (i, off)" using assms(3) by (auto simp: child_dev_def)
  then have "ch_files s' fd = Some (i, off)" using assms(1) by (auto simp: child_rel_def intro: files_rel_some)
  with F assms D_read show ?thesis
    by (auto simp: child_ops child_rel_def intro!: files_rel_same)
next
  case (D_pread fd n pos)
  then obtain off where F: "ch_files s fd = Some (i, off)" using assms(3) by (auto simp: child_dev_def)
  then have "ch_files s' fd = Some (i, off)" using assms(1) by (auto simp: child_rel_def intro: files_rel_some)
  with F assms D_pread show ?thesis by (auto simp: child_ops child_rel_def)
next
  case (D_write fd n d)
  then obtain off where F: "ch_files s fd = Some (i, off)" using assms(3) by (auto simp: child_dev_def)
  then have "ch_files s' fd = Some (i, off)" using assms(1) by (auto simp: child_rel_def intro: files_rel_some)
  with F assms D_write show ?thesis
    by (cases "i < length (ch_data s)") (auto simp: list_update_beyond not_less child_ops child_rel_def intro!: files_rel_same)
next
  case (D_pwrite fd n d pos)
  then obtain off where F: "ch_files s fd = Some (i, off)" using assms(3) by (auto simp: child_dev_def)
  then have "ch_files s' fd = Some (i, off)" using assms(1) by (auto simp: child_rel_def intro: files_rel_some)
  with F assms D_pwrite show ?thesis
    by (cases "i < length (ch_data s)") (auto simp: list_update_beyond not_less child_ops child_rel_def)
next
  case (D_release fd)
  with assms show ?thesis
    by (auto simp: child_ops child_rel_def child_dev_def dest: files_rel_some split: if_splits)
qed (use assms in simp_all)

lemma child_others:
  assumes "child_rel i s s'" "child_step A k x s = Some (r, t)" "child_dev x s \<noteq> Some i"
  shows "child_rel i t s'"
  using assms child_fop_others [OF assms(1) _ assms(3), of A r t]
  by (cases x) (auto simp: child_step_def child_ops child_rel_def child_dev_def split: if_splits prod.splits)

lemma child_same:
  assumes "child_rel i s s'" "child_step A k x s = Some (r, t)" "child_dev x s = Some i"
  shows "\<exists>t'. child_step A k x s' = Some (r, t') \<and> child_rel i t t'"
proof (cases x)
  case (D_store j buf)
  with assms show ?thesis
    by (auto simp: child_step_def child_ops child_rel_def child_dev_def split: if_splits prod.splits)
next
  case (D_show j)
  with assms show ?thesis
    by (auto simp: child_step_def child_ops child_rel_def child_dev_def split: if_splits)
qed (use assms child_fop_same [OF assms(1) _ assms(3), of A r t] in \<open>simp_all add: child_step_def\<close>)

interpretation sample063: device_family child_dev "child_step A k" "\<lambda>_. True" child_rel for A k
proof unfold_locales
  show "child_rel i s s" for i and s :: "attrdata children" by (simp add: child_rel_def)
qed (rule child_others child_same; assumption)+

subsection \<open>Exercise 6.1\<close>

text \<open>The same four functions, and no attribute.\<close>

definition listed_fop :: "uaccess \<Rightarrow> dev_op \<Rightarrow> mydata children \<Rightarrow> (dev_answer \<times> mydata children) option" where
  "listed_fop = child_fop"

interpretation exercice061: device_family child_dev "listed_fop A" "\<lambda>_. True" child_rel for A
proof unfold_locales
  show "child_rel i s s" for i and s :: "mydata children" by (simp add: child_rel_def)
qed (unfold listed_fop_def, (rule child_fop_others child_fop_same; assumption)+)

end
