(* ===== verification/AttributeVariants.thy ===== *)
theory AttributeVariants
  imports DriverInterfaces
begin

section \<open>The builds of exercises 5 and 5.1\<close>

text \<open>
  The macros \<open>MISC\<close>, \<open>PLATFORM\<close> and \<open>CLASS\<close> of exercise 5 choose under which devices the attributes
  \<open>val\<close> and \<open>cfg\<close> appear; the file as it stands defines \<open>CLASS\<close> (\<open>AttributeFiles\<close>). Exercise
  5.1 adds a character device with one buffer. Lemmas: the build of the file, what loading
  and unloading own in the other two, and the device beside its attributes.
\<close>

subsection \<open>Exercise 5\<close>

record sysfs_build =
  with_misc :: bool
  with_platform :: bool
  with_class :: bool

text \<open>The parts between \<open>#ifdef\<close> and \<open>#endif\<close>; the device \<open>dev\<close> is the address of its structure.\<close>

definition misc_part :: "kenv \<Rightarrow> int \<Rightarrow> int \<Rightarrow> ('z attrmod_scheme, int) state" where
  "misc_part E dev status = do {
     status \<leftarrow> (if status = 0 then kapi E (Misc_register ''mymodule'') else ret status);
     create_files E dev [''val'', ''cfg''] status
   }"

text \<open>The number of the platform device is -1: none.\<close>

definition platform_part :: "kenv \<Rightarrow> string \<Rightarrow> int \<Rightarrow> int \<Rightarrow> ('z attrmod_scheme, int) state" where
  "platform_part E name dev status = do {
     status \<leftarrow> (if status = 0 then kapi E (Platform_device_register name (unat (- 1 :: u32))) else ret status);
     create_files E dev [''val'', ''cfg''] status
   }"

definition class_part :: "kenv \<Rightarrow> nat \<Rightarrow> int \<Rightarrow> ('z attrmod_scheme, int) state" where
  "class_part E devt status = do {
     c \<leftarrow> kapi E (Class_create ''my_sysfs_class'');
     modify (\<lambda>s. s\<lparr>attr_class := c\<rparr>);
     d \<leftarrow> kapi E (Device_create c devt ''my_sysfs_device'');
     modify (\<lambda>s. s\<lparr>attr_device := d\<rparr>);
     create_files E d [''val'', ''cfg''] status
   }"

definition variant_init :: "kenv \<Rightarrow> sysfs_build \<Rightarrow> int \<Rightarrow> int \<Rightarrow> ('z attrmod_scheme, int) state" where
  "variant_init E v misc_dev pdev = do {
     status \<leftarrow> (if with_misc v then misc_part E misc_dev 0 else ret 0);
     status \<leftarrow> (if with_platform v then platform_part E ''mymodule'' pdev status else ret status);
     status \<leftarrow> (if with_class v then class_part E 0 status else ret status);
     ret 0
   }"

definition platform_exit :: "kenv \<Rightarrow> string \<Rightarrow> int \<Rightarrow> ('z attrmod_scheme, unit) state" where
  "platform_exit E name dev = do {
     void (kapi E (Device_remove_file dev ''cfg''));
     void (kapi E (Device_remove_file dev ''val''));
     void (kapi E (Platform_device_unregister name (unat (- 1 :: u32))))
   }"

definition variant_exit :: "kenv \<Rightarrow> sysfs_build \<Rightarrow> int \<Rightarrow> ('z attrmod_scheme, unit) state" where
  "variant_exit E v pdev = do {
     only_if (with_misc v) (void (kapi E (Misc_deregister ''mymodule'')));
     only_if (with_platform v) (platform_exit E ''mymodule'' pdev);
     only_if (with_class v) (class_exit E [''val'', ''cfg''])
   }"

text \<open>The load succeeds in every build, whatever the kernel answers.\<close>

lemma variant_init_result: "result (variant_init E v m p) s = 0"
  by (simp add: variant_init_def result_bind)

lemma variant_as_built:
  defines "v \<equiv> \<lparr>with_misc = False, with_platform = False, with_class = True\<rparr>"
  shows "exec (variant_init E v m p) s = exec (exercice05_init E) s"
    and "exec (variant_exit E v p) s = exec (exercice05_exit E) s"
  by (simp_all add: v_def variant_init_def variant_exit_def class_part_def exercice05_init_def exercice05_exit_def
      class_init_def exec_bind result_bind del: create_files.simps)

text \<open>With \<open>PLATFORM\<close> the exit gives everything back if the registration and the files were granted, and misuses the kernel if not.\<close>

lemma variant_platform:
  assumes "res_state (klog s) = Some {#}" and files: "\<forall>h d f. kret E h (Device_create_file d f) = 0"
  defines "v \<equiv> \<lparr>with_misc = False, with_platform = True, with_class = False\<rparr>"
  shows "res_state (klog (exec (variant_exit E v p) (exec (variant_init E v m p) s))) =
    (if kret E (klog s) (Platform_device_register ''mymodule'' (unat (- 1 :: u32))) = 0 then Some {#} else None)"
  using assms(1) files
  by (simp add: v_def variant_init_def variant_exit_def platform_part_def platform_exit_def run_simps drop_res_def)

text \<open>With \<open>MISC\<close> the files are left to the removal of their device.\<close>

lemma variant_misc:
  assumes "res_state (klog s) = Some {#}" and files: "\<forall>h d f. kret E h (Device_create_file d f) = 0"
  defines "v \<equiv> \<lparr>with_misc = True, with_platform = False, with_class = False\<rparr>"
  shows "res_state (klog (exec (variant_exit E v p) (exec (variant_init E v m p) s))) =
    (if kret E (klog s) (Misc_register ''mymodule'') = 0 then Some (file_res [''cfg'', ''val'']) else None)"
  using assms(1) files
  by (simp add: v_def variant_init_def variant_exit_def misc_part_def run_simps drop_res_def file_res_def)

subsection \<open>Exercise 5.1\<close>

text \<open>
  The builds without \<open>MISC\<close> (with it the file does not compile: \<open>.fops = &fops\<close> lacks its comma). The
  device \<open>devt\<close> of the character device is the one of the class device too.
\<close>

definition exercice051_variant_init :: "kenv \<Rightarrow> sysfs_build \<Rightarrow> int \<Rightarrow> nat \<Rightarrow> ('z attrmod_scheme, int) state" where
  "exercice051_variant_init E v pdev devt = do {
     status \<leftarrow> one_cdev_init E;
     status \<leftarrow> (if with_platform v then platform_part E ''my_platform_module'' pdev status else ret status);
     status \<leftarrow> (if with_class v then class_part E devt status else ret status);
     ret 0
   }"

definition exercice051_variant_exit :: "kenv \<Rightarrow> sysfs_build \<Rightarrow> int \<Rightarrow> ('z attrmod_scheme, unit) state" where
  "exercice051_variant_exit E v pdev = do {
     only_if (with_platform v) (platform_exit E ''my_platform_module'' pdev);
     only_if (with_class v) (class_exit E [''val'', ''cfg'']);
     one_cdev_exit E
   }"

lemma exercice051_as_built:
  defines "v \<equiv> \<lparr>with_misc = False, with_platform = False, with_class = True\<rparr>"
  shows "exec (exercice051_variant_init E v p devt) s = exec (exercice051_init E devt) s"
    and "exec (exercice051_variant_exit E v p) s = exec (exercice051_exit E) s"
  by (simp_all add: v_def exercice051_variant_init_def exercice051_variant_exit_def class_part_def exercice051_init_def
      exercice051_exit_def class_exit_def exec_bind result_bind only_if_def del: create_files.simps remove_files.simps)

text \<open>Built for the platform device the module gives back what it has.\<close>

lemma exercice051_platform:
  assumes "res_state (klog s) = Some {#}" and files: "\<forall>h d f. kret E h (Device_create_file d f) = 0"
    and "\<forall>h k nm. kret E h (Alloc_chrdev_region k nm) = 0" "\<forall>h k. kret E h (Cdev_add k) = 0"
      "\<forall>h nm k. kret E h (Platform_device_register nm k) = 0"
  defines "v \<equiv> \<lparr>with_misc = False, with_platform = True, with_class = False\<rparr>"
  shows "res_state (klog (exec (exercice051_variant_exit E v p) (exec (exercice051_variant_init E v p devt) s))) = Some {#}"
  using assms(1-5)
  by (simp add: v_def exercice051_variant_init_def exercice051_variant_exit_def platform_part_def platform_exit_def
      one_cdev_init_def one_cdev_exit_def run_simps)

text \<open>The device with its attributes: the buffer of exercise 2, the variables of exercise 5.\<close>

record classdev =
  cd_dev :: shared_dev
  cd_val :: i32
  cd_cfg :: skeleton_config

definition classdev_open :: "nat \<Rightarrow> classdev \<Rightarrow> int \<times> classdev" where
  "classdev_open fd s = (case shared_open fd (cd_dev s) of (r, d) \<Rightarrow> (r, s\<lparr>cd_dev := d\<rparr>))"

definition classdev_release :: "nat \<Rightarrow> classdev \<Rightarrow> int \<times> classdev" where
  "classdev_release fd s = (0, s)"

definition classdev_read :: "uaccess \<Rightarrow> nat \<Rightarrow> u64 \<Rightarrow> classdev \<Rightarrow> (s64 \<times> string \<times> classdev) option" where
  "classdev_read A fd n s = map_option (\<lambda>(r, d, t). (r, d, s\<lparr>cd_dev := t\<rparr>)) (shared_read A fd n (cd_dev s))"

definition classdev_write :: "uaccess \<Rightarrow> nat \<Rightarrow> u64 \<Rightarrow> string \<Rightarrow> classdev \<Rightarrow> (s64 \<times> classdev) option" where
  "classdev_write A fd n d s = map_option (\<lambda>(r, t). (r, s\<lparr>cd_dev := t\<rparr>)) (shared_write A fd n d (cd_dev s))"

definition classdev_show_val :: "classdev \<Rightarrow> string" where
  "classdev_show_val s = fmt_d (cd_val s) @ nl"

definition classdev_store_val :: "(string \<Rightarrow> s64) \<Rightarrow> string \<Rightarrow> classdev \<Rightarrow> nat \<times> classdev" where
  "classdev_store_val strtol buf s = (length buf, s\<lparr>cd_val := ucast (strtol buf)\<rparr>)"

definition classdev_show_cfg :: "classdev \<Rightarrow> string" where
  "classdev_show_cfg s = config_text (cd_cfg s)"

definition classdev_store_cfg :: "string \<Rightarrow> classdev \<Rightarrow> (nat \<times> classdev) option" where
  "classdev_store_cfg buf s = map_option (\<lambda>c. (length buf, s\<lparr>cd_cfg := c\<rparr>)) (scan_config buf (cd_cfg s))"

text \<open>
  A configuration is shown as it was stored and a text is read as it was written, with the
  write between the two and the reading file another one.
\<close>

lemma classdev_both:
  assumes c: "config_word (cfg_name c)" "config_word (cfg_descr c)" and A: "uaccess_ok A"
    and s: "int (length (s_buffer (cd_dev s))) = BUFFER_SZ" "0 \<le> sint (positions (cd_dev s) fd)"
    and n: "sint (positions (cd_dev s) fd) + uint n < BUFFER_SZ" "unat n = length d" "0 < uint n"
    and fd: "fd' \<noteq> fd" "positions (cd_dev s) fd' = positions (cd_dev s) fd"
  obtains t u where "classdev_store_cfg (config_text c) s = Some (length (config_text c), t)"
    and "classdev_write A fd n d t = Some (n, u)"
    and "classdev_show_cfg u = config_text c" and "cd_val u = cd_val s"
    and "\<exists>w. classdev_read A fd' n u = Some (n, d, w)"
proof -
  let ?t = "s\<lparr>cd_cfg := c\<rparr>"
  obtain g where g: "shared_write A fd n d (cd_dev s) = Some (n, g)"
    "shared_read A fd' n g = Some (n, d, g\<lparr>positions := (positions g)(fd' := positions g fd)\<rparr>)"
    using shared_write_read [OF s A n fd] by blast
  show thesis
    by (rule that [of ?t "?t\<lparr>cd_dev := g\<rparr>"])
      (use g scan_config_text [OF c] in \<open>simp_all add: classdev_store_cfg_def classdev_write_def classdev_show_cfg_def classdev_read_def\<close>)
qed

end
