(* ===== verification/DaemonSkeleton.thy ===== *)
theory DaemonSkeleton
  imports CFormat
begin

section \<open>The daemon skeletons: \<open>01_environment/daemon\<close> and \<open>process\<close>\<close>

text \<open>
  The program that turns itself into a daemon, and the one that is started by \<open>inittab\<close>, which
  leaves out the first three steps. The system calls are a parameter, as in \<open>UserApi\<close>: a
  call is answered with an integer as a function of the calls before and is logged; a call
  may be accompanied by signals, each of which runs the handler, which writes to the log of
  the system and counts. The answer to \<open>openlog\<close> and \<open>syslog\<close> is the descriptor
  that the library opens for its connection, negative when it opens none. Folds over a log say which
  descriptors are open, what the process may do and in which session it is. Lemmas: when
  the system grants the calls and gives out descriptors as POSIX says, the program gets to its
  end, its sleep included, and what holds there.
\<close>

datatype pcall =
    Fork
  | Setsid
  | Sigaction string
  | Umask nat
  | Chdir string
  | Sysconf_open_max
  | Fd_close int
  | Fd_open string
  | Dup2 int int
  | Openlog
  | Log_message string
  | Getpwnam string
  | Chroot string
  | Setegid int
  | Seteuid int
  | Sleep int
  | Closelog
  | Process_exit int

type_synonym pevent = "pcall \<times> int"

text \<open>\<open>passwd\<close> is the entry of the user \<open>daemon\<close>: group and user, when there is one.\<close>

record penv =
  pret :: "pevent list \<Rightarrow> pcall \<Rightarrow> int"
  psignals :: "pevent list \<Rightarrow> pcall \<Rightarrow> nat"
  passwd :: "(int \<times> int) option"

record daemon =
  plog :: "pevent list"
  signal_catched :: nat

definition syscall :: "penv \<Rightarrow> pcall \<Rightarrow> (daemon, int) state" where
  "syscall E c = State (\<lambda>s. let r = pret E (plog s) c in (r, s\<lparr>plog := plog s @ [(c, r)]\<rparr>))"

text \<open>The handler writes to the log of the system and counts; the number of the signal is left out of the text.\<close>

definition catch_signal_daemon :: "penv \<Rightarrow> (daemon, unit) state" where
  "catch_signal_daemon E = do {
     r \<leftarrow> syscall E (Log_message ''signal catched'');
     modify (\<lambda>s. s\<lparr>signal_catched := signal_catched s + 1\<rparr>)
   }"

fun catch_signals :: "penv \<Rightarrow> nat \<Rightarrow> (daemon, unit) state" where
  "catch_signals E 0 = ret ()"
| "catch_signals E (Suc n) = do { catch_signal_daemon E; catch_signals E n }"

definition papi :: "penv \<Rightarrow> pcall \<Rightarrow> (daemon, int) state" where
  "papi E c = do {
     h \<leftarrow> gets plog;
     r \<leftarrow> syscall E c;
     catch_signals E (psignals E h c);
     ret r
   }"

lemma result_syscall [simp]: "result (syscall E c) s = pret E (plog s) c"
  by (simp add: syscall_def result_def Let_def)

lemma plog_syscall [simp]: "plog (exec (syscall E c) s) = plog s @ [(c, pret E (plog s) c)]"
  by (simp add: syscall_def exec_def Let_def)

lemma result_papi [simp]: "result (papi E c) s = pret E (plog s) c"
  by (simp add: papi_def result_bind)

lemma exec_papi: "exec (papi E c) s = exec (catch_signals E (psignals E (plog s) c)) (exec (syscall E c) s)"
  by (simp add: papi_def exec_bind)

subsection \<open>The programs\<close>

text \<open>
  \<open>if (call fails) { syslog (\<dots>); exit (1); }\<close> and what follows. The result of a program is its
  exit status, \<open>None\<close> when it still sleeps at the end of the fuel.
\<close>

definition leave :: "penv \<Rightarrow> int \<Rightarrow> (daemon, int option) state" where
  "leave E code = do { r \<leftarrow> papi E (Process_exit code); ret (Some code) }"

definition or_exit ::
  "penv \<Rightarrow> string \<Rightarrow> pcall \<Rightarrow> (int \<Rightarrow> bool) \<Rightarrow> (daemon, int option) state \<Rightarrow> (daemon, int option) state" where
  "or_exit E msg c bad k = do {
     r \<leftarrow> papi E c;
     if bad r then do { r' \<leftarrow> papi E (Log_message msg); leave E 1 } else k
   }"

fun capture_signals :: "penv \<Rightarrow> string list \<Rightarrow> (daemon, unit) state" where
  "capture_signals E [] = ret ()"
| "capture_signals E (sg # sgs) = do { r \<leftarrow> papi E (Sigaction sg); capture_signals E sgs }"

definition captured :: "string list" where
  "captured = [''SIGHUP'', ''SIGINT'', ''SIGQUIT'', ''SIGABRT'', ''SIGTERM'', ''SIGTSTP'']"

text \<open>The descriptors below \<open>n\<close>, from the last to the first.\<close>

fun close_all :: "penv \<Rightarrow> nat \<Rightarrow> (daemon, unit) state" where
  "close_all E 0 = ret ()"
| "close_all E (Suc n) = do { r \<leftarrow> papi E (Fd_close (int n)); close_all E n }"

fun sleep_loop :: "penv \<Rightarrow> nat \<Rightarrow> int \<Rightarrow> (daemon, bool) state" where
  "sleep_loop E 0 t = ret False"
| "sleep_loop E (Suc fuel) t = do {
     t' \<leftarrow> papi E (Sleep t);
     if 0 < t' then sleep_loop E fuel t' else ret True
   }"

text \<open>Steps 10 to 13.\<close>

definition privileged_end :: "penv \<Rightarrow> nat \<Rightarrow> (daemon, int option) state" where
  "privileged_end E fuel = do {
     r \<leftarrow> papi E (Getpwnam ''daemon'');
     (case passwd E of
        None \<Rightarrow> do {
          r' \<leftarrow> papi E (Log_message ''ERROR while reading daemon password file entry'');
          leave E 1 }
      | Some (gid, uid) \<Rightarrow>
          or_exit E ''ERROR while changing to new root directory'' (Chroot ''.'') (\<lambda>r. r = - 1)
         (or_exit E ''ERROR while setting new effective group id'' (Setegid gid) (\<lambda>r. r = - 1)
         (or_exit E ''ERROR while setting new effective user id'' (Seteuid uid) (\<lambda>r. r = - 1)
         (do {
            ok \<leftarrow> sleep_loop E fuel 30;
            if \<not> ok then ret None
            else do {
              n \<leftarrow> gets signal_catched;
              r \<leftarrow> papi E (Log_message (''daemon stopped. Number of signals catched='' @ show_nat n @ nl));
              r' \<leftarrow> papi E Closelog;
              ret (Some 0)
            }
          }))))
   }"

text \<open>Steps 4 to 13: the \<open>main\<close> of \<open>process.c\<close>, and the rest of the one of \<open>daemon.c\<close>.\<close>

definition process_main :: "penv \<Rightarrow> nat \<Rightarrow> (daemon, int option) state" where
  "process_main E fuel = do {
     capture_signals E captured;
     u \<leftarrow> papi E (Umask 23);
     or_exit E ''ERROR while changing to working directory'' (Chdir ''/'') (\<lambda>r. r = - 1) (do {
       m \<leftarrow> papi E Sysconf_open_max;
       close_all E (nat (m + 1));
       or_exit E ''ERROR while opening '/dev/null' for stdin'' (Fd_open ''/dev/null'') (\<lambda>r. r \<noteq> 0)
      (or_exit E ''ERROR while opening '/dev/null' for stdout'' (Dup2 0 1) (\<lambda>r. r \<noteq> 1)
      (or_exit E ''ERROR while opening '/dev/null' for stderr'' (Dup2 0 2) (\<lambda>r. r \<noteq> 2)
      (do {
         l \<leftarrow> papi E Openlog;
         l' \<leftarrow> papi E (Log_message ''Daemon has started...'');
         privileged_end E fuel
       })))
     })
   }"

definition fork_process :: "penv \<Rightarrow> (daemon, int option) state \<Rightarrow> (daemon, int option) state" where
  "fork_process E k = do {
     pid \<leftarrow> papi E Fork;
     if pid = 0 then k
     else if pid = - 1 then do { r \<leftarrow> papi E (Log_message ''ERROR while forking''); leave E 1 }
     else leave E 0
   }"

definition daemonise_main :: "penv \<Rightarrow> nat \<Rightarrow> (daemon, int option) state" where
  "daemonise_main E fuel =
     fork_process E
    (or_exit E ''ERROR while creating new session'' Setsid (\<lambda>r. r = - 1)
    (fork_process E (process_main E fuel)))"

subsection \<open>What a log says\<close>

text \<open>
  The open descriptors, each with the file behind it. The connection of the library to the log
  of the system takes one: \<open>openlog\<close> opens it at once because of \<open>LOG_NDELAY\<close>, or a message
  does; \<open>closelog\<close> closes it.
\<close>

definition dev_log :: string where "dev_log = ''/dev/log''"

definition fd_step :: "(int \<Rightarrow> string option) \<Rightarrow> pevent \<Rightarrow> (int \<Rightarrow> string option)" where
  "fd_step T e = (case fst e of
       Fd_close fd \<Rightarrow> T(fd := None)
     | Fd_open nm \<Rightarrow> if 0 \<le> snd e then T(snd e := Some nm) else T
     | Dup2 a b \<Rightarrow> if snd e = b then T(b := T a) else T
     | Openlog \<Rightarrow> if 0 \<le> snd e then T(snd e := Some dev_log) else T
     | Log_message msg \<Rightarrow> if 0 \<le> snd e then T(snd e := Some dev_log) else T
     | Closelog \<Rightarrow> (\<lambda>fd. if T fd = Some dev_log then None else T fd)
     | _ \<Rightarrow> T)"

definition fd_table :: "(int \<Rightarrow> string option) \<Rightarrow> pevent list \<Rightarrow> (int \<Rightarrow> string option)" where
  "fd_table T es = foldl fd_step T es"

text \<open>
  Working directory, root directory, group and user. \<open>None\<close>: a call that needs the
  privileges which the process has given up.
\<close>

record privileges =
  cwd :: string
  root_dir :: string
  egid :: int
  euid :: int

definition priv_step :: "privileges \<Rightarrow> pevent \<Rightarrow> privileges option" where
  "priv_step p e = (case fst e of
       Chdir d \<Rightarrow> Some (if snd e = - 1 then p else p\<lparr>cwd := d\<rparr>)
     | Chroot d \<Rightarrow> if euid p \<noteq> 0 then None
         else Some (if snd e = - 1 then p else p\<lparr>root_dir := if d = ''.'' then cwd p else d\<rparr>)
     | Setegid g \<Rightarrow> if euid p \<noteq> 0 then None else Some (if snd e = - 1 then p else p\<lparr>egid := g\<rparr>)
     | Seteuid u \<Rightarrow> if euid p \<noteq> 0 then None else Some (if snd e = - 1 then p else p\<lparr>euid := u\<rparr>)
     | _ \<Rightarrow> Some p)"

definition priv_state :: "privileges \<Rightarrow> pevent list \<Rightarrow> privileges option" where
  "priv_state p es = run_log priv_step p es"

text \<open>In a session of its own, and its leader? A new process leads nothing.\<close>

definition session_step :: "bool \<times> bool \<Rightarrow> pevent \<Rightarrow> bool \<times> bool" where
  "session_step q e = (case fst e of
       Fork \<Rightarrow> if snd e = 0 then (fst q, False) else q
     | Setsid \<Rightarrow> if snd e = - 1 then q else (True, True)
     | _ \<Rightarrow> q)"

definition session_state :: "bool \<times> bool \<Rightarrow> pevent list \<Rightarrow> bool \<times> bool" where
  "session_state q es = foldl session_step q es"

lemma fd_table_append [simp]: "fd_table T (es @ fs) = foldl fd_step (fd_table T es) fs"
  by (simp add: fd_table_def)

lemma session_state_append [simp]: "session_state q (es @ fs) = foldl session_step (session_state q es) fs"
  by (simp add: session_state_def)

lemma priv_state_append [simp]: "priv_state p (es @ fs) = Option.bind (priv_state p es) (\<lambda>q. run_log priv_step q fs)"
  by (simp add: priv_state_def)

text \<open>A system call and the handlers that run with it, as a step of the folds.\<close>

lemma catch_signals_folds [simp]:
  "priv_state p (plog (exec (catch_signals E n) s)) = priv_state p (plog s)"
  "session_state q (plog (exec (catch_signals E n) s)) = session_state q (plog s)"
  by (induction n arbitrary: s) (simp_all add: catch_signal_daemon_def exec_bind priv_step_def session_step_def Option.bind_rzero)

lemma papi_folds [simp]:
  "priv_state p (plog (exec (papi E c) s)) = Option.bind (priv_state p (plog s)) (\<lambda>a. priv_step a (c, pret E (plog s) c))"
  "session_state q (plog (exec (papi E c) s)) = session_step (session_state q (plog s)) (c, pret E (plog s) c)"
  by (simp_all add: exec_papi)

lemma capture_signals_folds [simp]:
  "priv_state p (plog (exec (capture_signals E sgs) s)) = priv_state p (plog s)"
  "session_state q (plog (exec (capture_signals E sgs) s)) = session_state q (plog s)"
  by (induction sgs arbitrary: s) (simp_all add: exec_bind priv_step_def session_step_def)

lemma sleep_loop_folds [simp]:
  "priv_state p (plog (exec (sleep_loop E fuel t) s)) = priv_state p (plog s)"
  "session_state q (plog (exec (sleep_loop E fuel t) s)) = session_state q (plog s)"
  by (induction fuel arbitrary: s t) (simp_all add: exec_bind priv_step_def session_step_def)

lemma close_all_folds [simp]:
  "priv_state p (plog (exec (close_all E n) s)) = priv_state p (plog s)"
  "session_state q (plog (exec (close_all E n) s)) = session_state q (plog s)"
  by (induction n arbitrary: s) (simp_all add: exec_bind priv_step_def session_step_def)

text \<open>A call that does not fail is gone past.\<close>

lemma or_exit_goes_on:
  assumes "\<not> bad (pret E (plog s) c)"
  shows "result (or_exit E msg c bad m) s = result m (exec (papi E c) s)"
    and "exec (or_exit E msg c bad m) s = exec m (exec (papi E c) s)"
  using assms by (simp_all add: or_exit_def result_bind exec_bind)

lemma fork_process_child:
  assumes "pret E (plog s) Fork = 0"
  shows "result (fork_process E k) s = result k (exec (papi E Fork) s)" "exec (fork_process E k) s = exec k (exec (papi E Fork) s)"
  using assms by (simp_all add: fork_process_def result_bind exec_bind)

text \<open>The sleep ends when the interruptions do.\<close>

definition naps :: "pevent list \<Rightarrow> nat" where
  "naps es = length (filter (\<lambda>e. case fst e of Sleep t \<Rightarrow> True | _ \<Rightarrow> False) es)"

lemma naps_append: "naps (es @ fs) = naps es + naps fs"
  by (simp add: naps_def)

lemma naps_catch_signals [simp]: "naps (plog (exec (catch_signals E n) s)) = naps (plog s)"
  by (induction n arbitrary: s) (simp_all add: catch_signal_daemon_def exec_bind naps_append, simp_all add: naps_def)

lemma naps_sleep [simp]: "naps (plog (exec (papi E (Sleep t)) s)) = Suc (naps (plog s))"
  by (simp add: exec_papi naps_append) (simp add: naps_def)

lemma sleep_loop_ends:
  assumes "\<And>h t. k \<le> naps h \<Longrightarrow> pret E h (Sleep t) \<le> 0"
  shows "k < naps (plog s) + fuel \<Longrightarrow> 0 < fuel \<Longrightarrow> result (sleep_loop E fuel t) s"
proof (induction fuel arbitrary: s t)
  case (Suc fuel)
  show ?case
  proof (cases "0 < pret E (plog s) (Sleep t)")
    case True
    then have "\<not> k \<le> naps (plog s)" using assms [of "plog s" t] by force
    with Suc.prems(1) have "0 < fuel" "k < naps (plog (exec (papi E (Sleep t)) s)) + fuel" by simp_all
    with True Suc.IH show ?thesis by (simp add: result_bind)
  qed (simp add: result_bind)
qed simp

subsection \<open>A system that grants the calls\<close>

text \<open>The descriptor that a call gets: the lowest that is free, below the limit \<open>m\<close>.\<close>

definition lowest_free :: "int \<Rightarrow> (int \<Rightarrow> string option) \<Rightarrow> int" where
  "lowest_free m T = (case List.find (\<lambda>fd. T fd = None) [0..m - 1] of Some fd \<Rightarrow> fd | None \<Rightarrow> - 1)"

lemma lowest_free_free:
  "lowest_free m T = r \<Longrightarrow> 0 \<le> r \<Longrightarrow> r < m \<and> T r = None"
  by (auto simp: lowest_free_def find_Some_iff split: option.splits)

lemma lowest_free_0: "T 0 = None \<Longrightarrow> 0 < m \<Longrightarrow> lowest_free m T = 0"
  by (simp add: lowest_free_def upto_rec1)

text \<open>
  What the program relies on, for a process with the descriptors \<open>T\<close> at its start and the limit
  \<open>m\<close>. Every call is granted, and descriptors are given out as POSIX says; a connection to the
  log may fail. The process that goes on after each fork is the new one. The sleep is
  interrupted at most \<open>k\<close> times; no signal is caught while a standard descriptor is
  closed, nor at the end, after the log is closed.
\<close>

definition std_open :: "(int \<Rightarrow> string option) \<Rightarrow> bool" where
  "std_open T \<longleftrightarrow> T 0 \<noteq> None \<and> T 1 \<noteq> None \<and> T 2 \<noteq> None"

definition obliging :: "int \<Rightarrow> (int \<Rightarrow> string option) \<Rightarrow> penv \<Rightarrow> nat \<Rightarrow> bool" where
  "obliging m T E k \<longleftrightarrow> 3 \<le> m \<and> passwd E \<noteq> None \<and> (\<forall>h.
     pret E h Fork = 0 \<and> pret E h Setsid \<noteq> - 1 \<and> pret E h (Chdir ''/'') \<noteq> - 1 \<and> pret E h Sysconf_open_max = m \<and>
     (\<forall>nm. pret E h (Fd_open nm) = lowest_free m (fd_table T h)) \<and>
     (\<forall>a b. fd_table T h a \<noteq> None \<longrightarrow> 0 \<le> b \<longrightarrow> b < m \<longrightarrow> pret E h (Dup2 a b) = b) \<and>
     (pret E h Openlog < 0 \<or> pret E h Openlog = lowest_free m (fd_table T h)) \<and>
     (\<forall>msg. pret E h (Log_message msg) < 0 \<or> pret E h (Log_message msg) = lowest_free m (fd_table T h)) \<and>
     pret E h (Chroot ''.'') \<noteq> - 1 \<and> (\<forall>g. pret E h (Setegid g) \<noteq> - 1) \<and> (\<forall>u. pret E h (Seteuid u) \<noteq> - 1) \<and>
     (\<forall>t. k \<le> naps h \<longrightarrow> pret E h (Sleep t) \<le> 0) \<and>
     (\<forall>c. psignals E h c \<noteq> 0 \<longrightarrow> std_open (fd_table T (h @ [(c, pret E h c)]))) \<and> psignals E h Closelog = 0)"

lemma obliging_grants:
  assumes "obliging m T E k"
  shows "3 \<le> m" "passwd E \<noteq> None" "pret E h Fork = 0" "pret E h Setsid \<noteq> - 1" "pret E h (Chdir ''/'') \<noteq> - 1"
    "pret E h Sysconf_open_max = m" "pret E h (Chroot ''.'') \<noteq> - 1" "pret E h (Setegid g) \<noteq> - 1" "pret E h (Seteuid u) \<noteq> - 1"
    "k \<le> naps h \<Longrightarrow> pret E h (Sleep t) \<le> 0"
  using assms unfolding obliging_def by blast+

lemma obliging_descriptors:
  assumes "obliging m T E k"
  shows "pret E h (Fd_open nm) = lowest_free m (fd_table T h)"
    "fd_table T h a \<noteq> None \<Longrightarrow> 0 \<le> b \<Longrightarrow> b < m \<Longrightarrow> pret E h (Dup2 a b) = b"
    "pret E h Openlog < 0 \<or> pret E h Openlog = lowest_free m (fd_table T h)"
    "pret E h (Log_message msg) < 0 \<or> pret E h (Log_message msg) = lowest_free m (fd_table T h)"
  using assms unfolding obliging_def by blast+

lemma obliging_signals:
  assumes "obliging m T E k"
  shows "psignals E h c \<noteq> 0 \<Longrightarrow> std_open (fd_table T (h @ [(c, pret E h c)]))" "psignals E h Closelog = 0"
  using assms unfolding obliging_def by blast+

text \<open>The handlers change the descriptors by connections to the log, behind the standard ones.\<close>

definition logs_more :: "int \<Rightarrow> (int \<Rightarrow> string option) \<Rightarrow> (int \<Rightarrow> string option) \<Rightarrow> bool" where
  "logs_more m T T' \<longleftrightarrow> (\<forall>fd. T' fd = T fd \<or> T fd = None \<and> T' fd = Some dev_log \<and> 3 \<le> fd \<and> fd < m)"

lemma logs_more_refl [simp]: "logs_more m T T"
  by (simp add: logs_more_def)

lemma logs_more_trans: "logs_more m T T' \<Longrightarrow> logs_more m T' T'' \<Longrightarrow> logs_more m T T''"
  unfolding logs_more_def by (metis option.distinct(1))

lemma logs_more_std_open: "logs_more m T T' \<Longrightarrow> std_open T \<Longrightarrow> std_open T'"
  unfolding logs_more_def std_open_def by metis

lemma log_opened:
  assumes "std_open T" and "r < 0 \<or> r = lowest_free m T"
  shows "logs_more m T (if 0 \<le> r then T(r := Some dev_log) else T)"
proof (cases "0 \<le> r")
  case True
  then have r: "r < m" "T r = None" using assms(2) lowest_free_free [of m T r] by auto
  then have "r \<noteq> 0" "r \<noteq> 1" "r \<noteq> 2" using assms(1) by (auto simp: std_open_def)
  with True r show ?thesis by (auto simp: logs_more_def)
qed simp

lemma log_step:
  assumes "obliging m T E k" "std_open (fd_table T h)" "c = Openlog \<or> c = Log_message msg"
  shows "logs_more m (fd_table T h) (fd_step (fd_table T h) (c, pret E h c))"
proof -
  have "pret E h c < 0 \<or> pret E h c = lowest_free m (fd_table T h)"
    using assms(3) obliging_descriptors(3,4) [OF assms(1)] by metis
  from log_opened [OF assms(2) this] assms(3) show ?thesis by (auto simp: fd_step_def)
qed

lemma catch_signals_fds:
  assumes "obliging m T E k"
  shows "std_open (fd_table T (plog s)) \<Longrightarrow>
    logs_more m (fd_table T (plog s)) (fd_table T (plog (exec (catch_signals E n) s)))"
proof (induction n arbitrary: s)
  case (Suc n)
  define s' where "s' = exec (catch_signal_daemon E) s"
  have "logs_more m (fd_table T (plog s)) (fd_table T (plog s'))"
    using log_step [OF assms Suc.prems, of "Log_message ''signal catched''"]
    by (simp add: s'_def catch_signal_daemon_def exec_bind)
  with Suc.IH [OF logs_more_std_open [OF this Suc.prems]] show ?case
    by (auto simp: exec_bind s'_def intro: logs_more_trans)
qed simp

lemma papi_fds:
  assumes "obliging m T E k"
  defines "T1 s c \<equiv> fd_step (fd_table T (plog s)) (c, pret E (plog s) c)"
  shows "logs_more m (T1 s c) (fd_table T (plog (exec (papi E c) s)))"
    and "\<not> std_open (T1 s c) \<Longrightarrow> fd_table T (plog (exec (papi E c) s)) = T1 s c"
proof -
  have q: "psignals E (plog s) c \<noteq> 0 \<Longrightarrow> std_open (fd_table T (plog (exec (syscall E c) s)))"
    using obliging_signals(1) [OF assms(1)] by (simp del: fd_table_append)
  have T1: "fd_table T (plog (exec (syscall E c) s)) = T1 s c" by (simp add: T1_def)
  show "logs_more m (T1 s c) (fd_table T (plog (exec (papi E c) s)))"
    using catch_signals_fds [OF assms(1) q] unfolding exec_papi T1 [symmetric]
    by (cases "psignals E (plog s) c = 0") simp_all
  show "fd_table T (plog (exec (papi E c) s)) = T1 s c" if "\<not> std_open (T1 s c)"
    using q that unfolding exec_papi T1 by (cases "psignals E (plog s) c = 0") (simp_all add: T1_def)
qed

lemma papi_neutral:
  assumes "obliging m T E k" "\<And>T' r. fd_step T' (c, r) = T'"
  shows "logs_more m (fd_table T (plog s)) (fd_table T (plog (exec (papi E c) s)))"
  using papi_fds(1) [OF assms(1), of s c] assms(2) by simp

subsection \<open>The descriptors, step by step\<close>

text \<open>Before the loop: nothing is open above the limit.\<close>

definition below :: "int \<Rightarrow> (int \<Rightarrow> string option) \<Rightarrow> bool" where
  "below m T \<longleftrightarrow> (\<forall>fd. T fd \<noteq> None \<longrightarrow> 0 \<le> fd \<and> fd \<le> m)"

lemma below_logs_more: "below m T \<Longrightarrow> logs_more m T T' \<Longrightarrow> below m T'"
  unfolding below_def logs_more_def by (metis dual_order.trans less_imp_le zero_le_numeral)

lemma below_papi:
  assumes "obliging m T E k" "\<And>T' r. fd_step T' (c, r) = T'"
  shows "below m (fd_table T (plog s)) \<Longrightarrow> below m (fd_table T (plog (exec (papi E c) s)))"
  using below_logs_more papi_neutral [OF assms] by blast

lemma below_capture_signals:
  assumes "obliging m T E k"
  shows "below m (fd_table T (plog s)) \<Longrightarrow> below m (fd_table T (plog (exec (capture_signals E sgs) s)))"
  by (induction sgs arbitrary: s) (simp_all add: exec_bind below_papi [OF assms] fd_step_def)

text \<open>The loop: of the descriptors behind it, only connections to the log are open.\<close>

definition passed :: "nat \<Rightarrow> (int \<Rightarrow> string option) \<Rightarrow> bool" where
  "passed n T \<longleftrightarrow> (\<forall>fd. fd < 0 \<or> int n \<le> fd \<longrightarrow> T fd = None \<or> 3 \<le> fd \<and> T fd = Some dev_log)"

lemma passed_logs_more: "passed n T \<Longrightarrow> logs_more m T T' \<Longrightarrow> passed n T'"
  unfolding passed_def logs_more_def by metis

lemma passed_close: "passed (Suc n) T \<Longrightarrow> passed n (T(int n := None))"
  unfolding passed_def
proof (intro allI impI)
  fix fd
  assume a: "\<forall>fd. fd < 0 \<or> int (Suc n) \<le> fd \<longrightarrow> T fd = None \<or> 3 \<le> fd \<and> T fd = Some dev_log" and "fd < 0 \<or> int n \<le> fd"
  then show "(T(int n := None)) fd = None \<or> 3 \<le> fd \<and> (T(int n := None)) fd = Some dev_log"
    using spec [OF a, of fd] by (cases "fd = int n \<or> fd < 0 \<or> int (Suc n) \<le> fd") auto
qed

lemma close_all_passed:
  assumes "obliging m T E k"
  shows "passed n (fd_table T (plog s)) \<Longrightarrow> passed 0 (fd_table T (plog (exec (close_all E n) s)))"
proof (induction n arbitrary: s)
  case (Suc n)
  have "passed n (fd_step (fd_table T (plog s)) (Fd_close (int n), pret E (plog s) (Fd_close (int n))))"
    using passed_close [OF Suc.prems] by (simp add: fd_step_def)
  from Suc.IH [OF passed_logs_more [OF this papi_fds(1) [OF assms]]] show ?case by (simp add: exec_bind)
qed simp

text \<open>After the redirections: the null device, and nothing else but connections to the log.\<close>

definition on_null :: "(int \<Rightarrow> string option) \<Rightarrow> bool" where
  "on_null T \<longleftrightarrow> (\<forall>fd. if fd = 0 \<or> fd = 1 \<or> fd = 2 then T fd = Some ''/dev/null'' else T fd = None \<or> T fd = Some dev_log)"

lemma on_null_std_open: "on_null T \<Longrightarrow> std_open T"
  by (simp add: on_null_def std_open_def)

lemma on_null_logs_more: "on_null T \<Longrightarrow> logs_more m T T' \<Longrightarrow> on_null T'"
  unfolding on_null_def logs_more_def by (metis option.distinct(1))

lemma on_null_papi:
  assumes "obliging m T E k" and c: "(\<forall>T' r. fd_step T' (c, r) = T') \<or> c = Openlog \<or> (\<exists>msg. c = Log_message msg)"
  shows "on_null (fd_table T (plog s)) \<Longrightarrow> on_null (fd_table T (plog (exec (papi E c) s)))"
proof -
  assume n: "on_null (fd_table T (plog s))"
  have "logs_more m (fd_table T (plog s)) (fd_step (fd_table T (plog s)) (c, pret E (plog s) c))"
    using c log_step [OF assms(1) on_null_std_open [OF n]] by auto
  from logs_more_trans [OF this papi_fds(1) [OF assms(1)]] show ?thesis by (rule on_null_logs_more [OF n])
qed

lemma on_null_sleep_loop:
  assumes "obliging m T E k"
  shows "on_null (fd_table T (plog s)) \<Longrightarrow> on_null (fd_table T (plog (exec (sleep_loop E fuel t) s)))"
  by (induction fuel arbitrary: s t) (simp_all add: exec_bind on_null_papi [OF assms] fd_step_def)

lemma on_null_closelog:
  assumes "obliging m T E k" "on_null (fd_table T (plog s))"
  shows "fd_table T (plog (exec (papi E Closelog) s)) = (\<lambda>fd. if fd = 0 \<or> fd = 1 \<or> fd = 2 then Some ''/dev/null'' else None)"
proof -
  have "fd_table T (plog (exec (papi E Closelog) s)) = fd_step (fd_table T (plog s)) (Closelog, pret E (plog s) Closelog)"
    using obliging_signals(2) [OF assms(1)] by (simp add: exec_papi)
  moreover have "''/dev/null'' \<noteq> dev_log" by (simp add: dev_log_def)
  ultimately show ?thesis using assms(2) by (simp only: fun_eq_iff fd_step_def on_null_def) (simp, metis option.inject)
qed

lemma redirections:
  assumes "obliging m T E k" "passed 0 (fd_table T (plog s))"
  defines "s1 \<equiv> exec (papi E (Fd_open ''/dev/null'')) s"
  defines "s2 \<equiv> exec (papi E (Dup2 0 1)) s1"
  shows "pret E (plog s) (Fd_open ''/dev/null'') = 0" "pret E (plog s1) (Dup2 0 1) = 1" "pret E (plog s2) (Dup2 0 2) = 2"
    "on_null (fd_table T (plog (exec (papi E (Dup2 0 2)) s2)))"
proof -
  define T0 where "T0 = fd_table T (plog s)"
  have T0: "T0 0 = None" "T0 1 = None" "T0 2 = None" "\<And>fd. T0 fd = None \<or> T0 fd = Some dev_log"
    using assms(2) unfolding T0_def passed_def by force+
  have m: "3 \<le> m" by (rule obliging_grants(1) [OF assms(1)])
  show r0: "pret E (plog s) (Fd_open ''/dev/null'') = 0"
    using T0(1) m lowest_free_0 [of T0 m] by (simp add: obliging_descriptors(1) [OF assms(1)] T0_def)
  have 1: "fd_table T (plog s1) = T0(0 := Some ''/dev/null'')"
    using papi_fds(2) [OF assms(1), of s "Fd_open ''/dev/null''"] r0 T0 by (simp add: s1_def T0_def fd_step_def std_open_def)
  then show r1: "pret E (plog s1) (Dup2 0 1) = 1" using m by (simp add: obliging_descriptors(2) [OF assms(1)])
  have 2: "fd_table T (plog s2) = T0(0 := Some ''/dev/null'', 1 := Some ''/dev/null'')"
    using papi_fds(2) [OF assms(1), of s1 "Dup2 0 1"] r1 T0 1 by (simp add: s2_def fd_step_def std_open_def)
  then show r2: "pret E (plog s2) (Dup2 0 2) = 2" using m by (simp add: obliging_descriptors(2) [OF assms(1)])
  have "on_null (fd_step (fd_table T (plog s2)) (Dup2 0 2, pret E (plog s2) (Dup2 0 2)))"
    unfolding r2 2 using T0(4) by (auto simp: fd_step_def on_null_def)
  then show "on_null (fd_table T (plog (exec (papi E (Dup2 0 2)) s2)))"
    by (rule on_null_logs_more [OF _ papi_fds(1) [OF assms(1)]])
qed

subsection \<open>The end of the programs\<close>

text \<open>
  What holds at the end: the three standard descriptors are the null device and no other is
  open; the process runs as the user \<open>daemon\<close> in the root directory.
\<close>

lemma privileged_end_done:
  fixes s :: daemon and E :: penv and fuel :: nat
  assumes E: "obliging m T E k" "k < fuel" and n: "on_null (fd_table T (plog s))"
  defines "t \<equiv> exec (privileged_end E fuel) s"
  shows "result (privileged_end E fuel) s = Some 0"
    and "fd_table T (plog t) = (\<lambda>fd. if fd = 0 \<or> fd = 1 \<or> fd = 2 then Some ''/dev/null'' else None)"
    and "session_state q (plog t) = session_state q (plog s)"
    and "\<exists>gid uid. passwd E = Some (gid, uid) \<and> (priv_state p (plog s) = Some a \<longrightarrow> euid a = 0 \<longrightarrow>
      priv_state p (plog t) = Some (a\<lparr>root_dir := cwd a, egid := gid, euid := uid\<rparr>))"
proof -
  note g = obliging_grants [OF E(1)]
  obtain gid uid where pw: "passwd E = Some (gid, uid)" using g(2) by auto
  define s1 where "s1 = exec (papi E (Getpwnam ''daemon'')) s"
  define s2 where "s2 = exec (papi E (Chroot ''.'')) s1"
  define s3 where "s3 = exec (papi E (Setegid gid)) s2"
  define s4 where "s4 = exec (papi E (Seteuid uid)) s3"
  define s5 where "s5 = exec (sleep_loop E fuel 30) s4"
  define s6 where "s6 = exec (papi E (Log_message (''daemon stopped. Number of signals catched='' @ show_nat (signal_catched s5) @ nl))) s5"
  have sl: "result (sleep_loop E fuel 30) s4" by (rule sleep_loop_ends [of k]) (use E(2) g(10) in auto)
  have end0: "result (privileged_end E fuel) s = Some 0 \<and> exec (privileged_end E fuel) s = exec (papi E Closelog) s6"
    using sl by (simp add: privileged_end_def pw result_bind exec_bind or_exit_goes_on g s1_def s2_def s3_def s4_def
        s5_def s6_def del: result_papi)
  then show "result (privileged_end E fuel) s = Some 0" by blast
  have t: "t = exec (papi E Closelog) s6" using end0 by (simp add: t_def)
  have "on_null (fd_table T (plog s4))"
    unfolding s4_def s3_def s2_def s1_def by (intro on_null_papi [OF E(1)] n) (simp_all add: fd_step_def)
  then have "on_null (fd_table T (plog s6))"
    unfolding s6_def s5_def by (intro on_null_papi [OF E(1)] on_null_sleep_loop [OF E(1)]) simp_all
  then show "fd_table T (plog t) = (\<lambda>fd. if fd = 0 \<or> fd = 1 \<or> fd = 2 then Some ''/dev/null'' else None)"
    unfolding t by (rule on_null_closelog [OF E(1)])
  show "session_state q (plog t) = session_state q (plog s)"
    unfolding t s6_def s5_def s4_def s3_def s2_def s1_def by (simp add: session_step_def)
  show "\<exists>gid uid. passwd E = Some (gid, uid) \<and> (priv_state p (plog s) = Some a \<longrightarrow> euid a = 0 \<longrightarrow>
      priv_state p (plog t) = Some (a\<lparr>root_dir := cwd a, egid := gid, euid := uid\<rparr>))"
    unfolding t s6_def s5_def s4_def s3_def s2_def s1_def using pw g by (simp add: priv_step_def)
qed

lemma process_main_done:
  fixes s :: daemon and E :: penv and fuel :: nat
  assumes E: "obliging m T E k" "k < fuel" and b: "below m (fd_table T (plog s))"
  defines "t \<equiv> exec (process_main E fuel) s"
  shows "result (process_main E fuel) s = Some 0"
    and "fd_table T (plog t) = (\<lambda>fd. if fd = 0 \<or> fd = 1 \<or> fd = 2 then Some ''/dev/null'' else None)"
    and "session_state q (plog t) = session_state q (plog s)"
    and "\<exists>gid uid. passwd E = Some (gid, uid) \<and> (priv_state p (plog s) = Some a \<longrightarrow> euid a = 0 \<longrightarrow>
      priv_state p (plog t) = Some \<lparr>cwd = ''/'', root_dir = ''/'', egid = gid, euid = uid\<rparr>)"
proof -
  note g = obliging_grants [OF E(1)]
  define s1 where "s1 = exec (papi E (Umask 23)) (exec (capture_signals E captured) s)"
  define s2 where "s2 = exec (papi E Sysconf_open_max) (exec (papi E (Chdir ''/'')) s1)"
  define s3 where "s3 = exec (close_all E (nat (m + 1))) s2"
  define s4 where "s4 = exec (papi E (Fd_open ''/dev/null'')) s3"
  define s5 where "s5 = exec (papi E (Dup2 0 1)) s4"
  define s6 where "s6 = exec (papi E (Dup2 0 2)) s5"
  define s7 where "s7 = exec (papi E (Log_message ''Daemon has started...'')) (exec (papi E Openlog) s6)"
  have "below m (fd_table T (plog s2))" unfolding s2_def s1_def
    by (intro below_papi [OF E(1)] below_capture_signals [OF E(1)] b) (simp_all add: fd_step_def)
  then have "passed (nat (m + 1)) (fd_table T (plog s2))" using g(1) by (force simp: below_def passed_def)
  then have "passed 0 (fd_table T (plog s3))" unfolding s3_def by (rule close_all_passed [OF E(1)])
  note re = redirections [OF E(1) this, folded s4_def, folded s5_def, folded s6_def]
  have "on_null (fd_table T (plog s7))"
    unfolding s7_def by (intro on_null_papi [OF E(1)] re(4)) simp_all
  note fin = privileged_end_done [OF E this]
  have m: "result (process_main E fuel) s = result (privileged_end E fuel) s7 \<and> t = exec (privileged_end E fuel) s7"
    using re(1-3) by (simp add: t_def process_main_def result_bind exec_bind or_exit_goes_on g s1_def s2_def s3_def s4_def
        s5_def s6_def s7_def del: capture_signals.simps)
  then show "result (process_main E fuel) s = Some 0"
    "fd_table T (plog t) = (\<lambda>fd. if fd = 0 \<or> fd = 1 \<or> fd = 2 then Some ''/dev/null'' else None)"
    using fin(1,2) by simp_all
  show "session_state q (plog t) = session_state q (plog s)"
    using m fin(3) [of q] by (simp add: s7_def s6_def s5_def s4_def s3_def s2_def s1_def session_step_def)
  have "priv_state p (plog s7) = Some (a\<lparr>cwd := ''/''\<rparr>)" if "priv_state p (plog s) = Some a"
    using that g(5) by (simp add: s7_def s6_def s5_def s4_def s3_def s2_def s1_def priv_step_def)
  with m fin(4) [of p "a\<lparr>cwd := ''/''\<rparr>"] show "\<exists>gid uid. passwd E = Some (gid, uid) \<and>
     (priv_state p (plog s) = Some a \<longrightarrow> euid a = 0 \<longrightarrow>
      priv_state p (plog t) = Some \<lparr>cwd = ''/'', root_dir = ''/'', egid = gid, euid = uid\<rparr>)" by (cases a) auto
qed

text \<open>The daemon is the child of a child: in a session of its own that it does not lead.\<close>

lemma daemonise_main_done:
  fixes s :: daemon and E :: penv and fuel :: nat
  assumes E: "obliging m T E k" "k < fuel" and b: "below m (fd_table T (plog s))"
  defines "t \<equiv> exec (daemonise_main E fuel) s"
  shows "result (daemonise_main E fuel) s = Some 0"
    and "fd_table T (plog t) = (\<lambda>fd. if fd = 0 \<or> fd = 1 \<or> fd = 2 then Some ''/dev/null'' else None)"
    and "session_state q (plog t) = (True, False)"
    and "\<exists>gid uid. passwd E = Some (gid, uid) \<and> (priv_state p (plog s) = Some a \<longrightarrow> euid a = 0 \<longrightarrow>
      priv_state p (plog t) = Some \<lparr>cwd = ''/'', root_dir = ''/'', egid = gid, euid = uid\<rparr>)"
proof -
  note g = obliging_grants [OF E(1)]
  define s3 where "s3 = exec (papi E Fork) (exec (papi E Setsid) (exec (papi E Fork) s))"
  have m: "result (daemonise_main E fuel) s = result (process_main E fuel) s3 \<and> t = exec (process_main E fuel) s3"
    by (simp add: t_def daemonise_main_def fork_process_child or_exit_goes_on g s3_def)
  have "below m (fd_table T (plog s3))" unfolding s3_def
    by (intro below_papi [OF E(1)] b) (simp_all add: fd_step_def)
  note fin = process_main_done [OF E this]
  show "result (daemonise_main E fuel) s = Some 0"
    "fd_table T (plog t) = (\<lambda>fd. if fd = 0 \<or> fd = 1 \<or> fd = 2 then Some ''/dev/null'' else None)"
    using m fin(1,2) by simp_all
  have "session_state q (plog s3) = (True, False)" using g(3,4) by (auto simp: s3_def session_step_def)
  then show "session_state q (plog t) = (True, False)" using m fin(3) [of q] by simp
  have "priv_state p (plog s3) = priv_state p (plog s)" by (simp add: s3_def priv_step_def)
  then show "\<exists>gid uid. passwd E = Some (gid, uid) \<and> (priv_state p (plog s) = Some a \<longrightarrow> euid a = 0 \<longrightarrow>
      priv_state p (plog t) = Some \<lparr>cwd = ''/'', root_dir = ''/'', egid = gid, euid = uid\<rparr>)"
    using m fin(4) [of p a] by simp
qed

end
