(* ===== verification/MappedFiles.thy ===== *)
theory MappedFiles
  imports CharDriver Registers
begin

section \<open>Mapped memory in user space: \<open>03_drivers/exercice01\<close> and \<open>sample01\<close>\<close>

text \<open>
  The solution that reads the identifier of the chip through \<open>/dev/mem\<close>, and the three
  samples that write a file of 10000 lines: by \<open>write\<close>, by changing every tenth line through a
  mapping, and through a mapping only. A file is its content; a write that goes through is
  complete, and a store to a mapping changes the file (\<open>MAP_SHARED\<close>), \<open>None\<close> when it lies
  outside. Lemmas: the solution agrees with the exercise of \<open>Registers\<close>; the contents of the files, line by line.
\<close>

subsection \<open>\<open>exercice01\<close>\<close>

definition exercice01_main ::
  "(ucall \<Rightarrow> ('w, int) state) \<Rightarrow> nat \<Rightarrow> (nat \<Rightarrow> u32) \<Rightarrow> ('w, (int \<times> string) option) state" where
  "exercice01_main U psz phys = do {
     fd \<leftarrow> U (Open ''/dev/mem'');
     if fd < 0 then ret (Some (- 1, []))
     else do {
       let dev_addr = 0x01c14200;
       let ofs = dev_addr mod psz;
       let offset = dev_addr - ofs;
       regs \<leftarrow> U (Mmap fd psz offset);
       if regs = - 1 then ret (Some (- 1, []))
       else (case those (List.map (\<lambda>k. mapped_word phys offset psz ((ofs + k) div 4)) [0x00, 0x04, 0x08, 0x0c]) of
         None \<Rightarrow> ret None
       | Some chipid \<Rightarrow> do {
           uvoid (U (Munmap regs psz));
           uvoid (U (Close fd));
           ret (Some (0, ''NanoPi NEO Plus2 '' @ chipid_line chipid))
         })
     }
   }"

text \<open>The same reads and the same calls as the exercise; another exit code and another line.\<close>

definition as_solution :: "int \<times> string \<Rightarrow> int \<times> string" where
  "as_solution r = (if fst r = 0 then (0, ''NanoPi NEO Plus2 '' @ snd r) else (- 1, []))"

lemma exercice01_agrees:
  "result (exercice01_main (uapi E) psz phys) s = map_option as_solution (result (ex_memory_oriented (uapi E) psz phys) s) \<and>
   ulog (exec (exercice01_main (uapi E) psz phys) s) = ulog (exec (ex_memory_oriented (uapi E) psz phys) s)"
  by (simp add: exercice01_main_def ex_memory_oriented_def read_chipid_def chip_id_addr_def upath_simps
      as_solution_def add.commute option.map_comp split: option.split del: exec_uapi)

subsection \<open>\<open>sample01\<close>\<close>

definition line1 :: string where "line1 = ''1234567890abcdefghijklmnopqrstuvwxyz'' @ nl"
definition line2 :: string where "line2 = ''1234567890ABCDEFGHIJKLMNOPQRSTUVWXYZ'' @ nl"

text \<open>\<open>main1\<close>: the file is truncated and \<open>n\<close> lines are written (\<open>n = 10000\<close>).\<close>

fun write_lines :: "nat \<Rightarrow> string \<Rightarrow> string" where
  "write_lines 0 file = file"
| "write_lines (Suc n) file = write_lines n (file @ line1)"

definition sample01_main1 :: "nat \<Rightarrow> string" where
  "sample01_main1 n = write_lines n []"

text \<open>\<open>memcpy (file + i * strlen (msg), msg, strlen (msg))\<close> for the indices \<open>is\<close> in turn.\<close>

fun stamp_lines :: "string \<Rightarrow> nat list \<Rightarrow> string \<Rightarrow> string option" where
  "stamp_lines msg [] file = Some file"
| "stamp_lines msg (i # is) file =
     Option.bind (poke file (int (i * length msg)) msg) (stamp_lines msg is)"

text \<open>\<open>main2\<close>: \<open>for (i = 0; i < n; i += 10)\<close>.\<close>

definition sample01_main2 :: "nat \<Rightarrow> string \<Rightarrow> string option" where
  "sample01_main2 n file = stamp_lines line2 (filter (\<lambda>i. i mod 10 = 0) [0..<n]) file"

text \<open>\<open>main3\<close>: the file is extended to \<open>sz\<close> bytes and a NUL, then filled through the mapping.\<close>

definition sample01_main3 :: "nat \<Rightarrow> nat \<Rightarrow> string option" where
  "sample01_main3 n sz = stamp_lines line1 [0..<n] (replicate sz CHR 0x00 @ [CHR 0x00])"

definition FILE_SZ :: nat where "FILE_SZ = 5 * 1024 * 1024"

lemma line_lengths: "length line1 = 37" "length line2 = 37"
  by (simp_all add: line1_def line2_def)

lemma write_lines_concat: "write_lines n c = c @ concat (replicate n line1)"
  by (induction n arbitrary: c) simp_all

lemma length_concat_lines: "\<forall>l \<in> set ls. length l = k \<Longrightarrow> length (concat ls) = length ls * k"
  by (induction ls) simp_all

text \<open>A store at the place of a line replaces that line.\<close>

lemma poke_line:
  assumes "\<forall>l \<in> set ls. length l = length msg" "i < length ls" "msg \<noteq> []"
  shows "poke (concat ls @ rest) (int (i * length msg)) msg = Some (concat (ls[i := msg]) @ rest)"
proof -
  let ?k = "length msg"
  have ls: "ls = take i ls @ ls ! i # drop (Suc i) ls" using assms(2) by (rule id_take_nth_drop)
  have pre: "length (concat (take i ls)) = i * ?k"
    using length_concat_lines [of "take i ls" ?k] assms(1,2) by (auto dest: in_set_takeD)
  have mid: "length (ls ! i) = ?k" using assms(1,2) by simp
  have c: "concat ls = concat (take i ls) @ ls ! i @ concat (drop (Suc i) ls)"
    by (subst ls) simp
  have len: "i * ?k + ?k \<le> length (concat ls @ rest)" using pre mid by (simp add: c)
  have "take (i * ?k) (concat ls @ rest) = concat (take i ls)"
    "drop (i * ?k + ?k) (concat ls @ rest) = concat (drop (Suc i) ls) @ rest"
    using pre mid by (simp_all add: c)
  moreover have "concat (ls[i := msg]) = concat (take i ls) @ msg @ concat (drop (Suc i) ls)"
    using assms(2) by (simp add: upd_conv_take_nth_drop)
  moreover have "int (i * ?k) + int ?k \<le> int (length (concat ls @ rest))" using len by linarith
  ultimately show ?thesis
    using assms(3) unfolding poke_def nat_int by (simp del: of_nat_mult take_append drop_append)
qed

lemma stamp_lines_concat:
  assumes "msg \<noteq> []" "\<forall>i \<in> set is. i < length ls" "\<forall>l \<in> set ls. length l = length msg"
  shows "stamp_lines msg is (concat ls @ rest) = Some (concat (foldl (\<lambda>ls i. ls[i := msg]) ls is) @ rest)"
  using assms(2,3)
proof (induction "is" arbitrary: ls)
  case (Cons i "is")
  have "\<forall>l \<in> set (ls[i := msg]). length l = length msg"
    using Cons.prems(2) set_update_subset_insert [of ls i msg] by auto
  with Cons show ?case using assms(1) by (simp add: poke_line del: of_nat_mult)
qed simp

lemma foldl_update_nth:
  "j < length ls \<Longrightarrow> foldl (\<lambda>ls i. ls[i := m]) ls is ! j = (if j \<in> set is then m else ls ! j)"
  by (induction "is" arbitrary: ls) auto

lemma length_foldl_update [simp]: "length (foldl (\<lambda>ls i. ls[i := m]) ls is) = length ls"
  by (induction "is" arbitrary: ls) simp_all

lemma stamped_lines:
  assumes "msg \<noteq> []" "\<forall>i \<in> set is. i < n" "length old = length msg"
  shows "stamp_lines msg is (concat (replicate n old) @ rest) =
    Some (concat (List.map (\<lambda>i. if i \<in> set is then msg else old) [0..<n]) @ rest)"
proof -
  have "foldl (\<lambda>ls i. ls[i := msg]) (replicate n old) is = List.map (\<lambda>i. if i \<in> set is then msg else old) [0..<n]"
    by (intro nth_equalityI) (simp_all add: foldl_update_nth)
  with stamp_lines_concat [of msg "is" "replicate n old" rest] assms show ?thesis by simp
qed

text \<open>\<open>main1\<close> then \<open>main2\<close>: every tenth line is in capitals.\<close>

lemma sample01_every_tenth:
  "sample01_main2 n (sample01_main1 n) =
     Some (concat (List.map (\<lambda>i. if i mod 10 = 0 then line2 else line1) [0..<n]))"
proof -
  have "line2 \<noteq> []" by (simp add: line2_def)
  moreover have "\<forall>i \<in> set (filter (\<lambda>i. i mod 10 = 0) [0..<n]). i < n" by simp
  ultimately have "stamp_lines line2 (filter (\<lambda>i. i mod 10 = 0) [0..<n]) (concat (replicate n line1) @ []) =
      Some (concat (List.map (\<lambda>i. if i \<in> set (filter (\<lambda>i. i mod 10 = 0) [0..<n]) then line2 else line1) [0..<n]) @ [])"
    by (rule stamped_lines) (simp add: line_lengths)
  moreover have "List.map (\<lambda>i. if i \<in> set (filter (\<lambda>i. i mod 10 = 0) [0..<n]) then line2 else line1) [0..<n] =
      List.map (\<lambda>i. if i mod 10 = 0 then line2 else line1) [0..<n]" by (intro map_cong) auto
  ultimately show ?thesis
    by (simp only: sample01_main2_def sample01_main1_def write_lines_concat append_Nil append_Nil2)
qed

text \<open>\<open>main3\<close>: the lines of \<open>main1\<close>, then NULs.\<close>

lemma sample01_mapped_equals_written:
  assumes "37 * n \<le> sz"
  shows "sample01_main3 n sz = Some (sample01_main1 n @ replicate (sz + 1 - 37 * n) CHR 0x00)"
proof -
  have "concat (replicate n (replicate 37 CHR 0x00)) = replicate (37 * n) CHR 0x00"
    by (induction n) (simp_all add: replicate_add [symmetric] algebra_simps)
  moreover have "replicate sz CHR 0x00 @ [CHR 0x00] = replicate (37 * n + (sz + 1 - 37 * n)) CHR 0x00"
    using assms by (simp add: replicate_append_same)
  ultimately have z: "replicate sz CHR 0x00 @ [CHR 0x00] =
      concat (replicate n (replicate 37 CHR 0x00)) @ replicate (sz + 1 - 37 * n) CHR 0x00"
    by (simp only: replicate_add)
  have "line1 \<noteq> []" by (simp add: line1_def)
  moreover have "\<forall>i \<in> set [0..<n]. i < n" by simp
  ultimately have "stamp_lines line1 [0..<n] (concat (replicate n (replicate 37 CHR 0x00)) @ replicate (sz + 1 - 37 * n) CHR 0x00) =
      Some (concat (List.map (\<lambda>i. if i \<in> set [0..<n] then line1 else replicate 37 CHR 0x00) [0..<n]) @ replicate (sz + 1 - 37 * n) CHR 0x00)"
    by (rule stamped_lines) (simp add: line_lengths)
  moreover have "List.map (\<lambda>i. if i \<in> set [0..<n] then line1 else replicate 37 CHR 0x00) [0..<n] = replicate n line1"
    by (intro nth_equalityI) simp_all
  ultimately show ?thesis unfolding sample01_main3_def z by (simp add: sample01_main1_def write_lines_concat)
qed

lemma sample01_fits: "37 * 10000 \<le> FILE_SZ"
  by (simp add: FILE_SZ_def)

end
