(* ===== verification/Demonstrations.thy ===== *)
theory Demonstrations
  imports Environment Oled
begin

section \<open>Demonstrations: crashes, traces, the display\<close>

text \<open>
  Programs of the course that show a tool: \<open>01_environment/core_dumps\<close> and \<open>backtrace\<close> crash on
  purpose, \<open>tracing\<close> prints Fibonacci numbers, \<open>07_miniproj/oled/main.c\<close> writes six lines on the
  display (\<open>Oled\<close>). Lemmas: how the programs end, and what they print.
\<close>

subsection \<open>\<open>core_dumps.c\<close> and \<open>backtrace/main.c\<close>\<close>

text \<open>
  A function returns, or the process gets a segmentation fault; then \<open>Fault\<close> has the calls on the stack,
  the innermost first. The arguments with \<open>stack\<close> are the callers.
\<close>

datatype 'a outcome = Returned 'a | Fault "string list"

definition store_int :: "int \<Rightarrow> i32 \<Rightarrow> string list \<Rightarrow> unit outcome" where
  "store_int p v stack = (if p = 0 then Fault stack else Returned ())"

definition access_data :: "string list \<Rightarrow> unit outcome" where
  "access_data stack = (let p = 0 in store_int p 10 (''access_data'' # stack))"

function call_down :: "int \<Rightarrow> string list \<Rightarrow> unit outcome" where
  "call_down n stack =
     (let stack = ''call'' # stack in
      case (if 0 < n then call_down (n - 1) stack else Returned ()) of
        Fault st \<Rightarrow> Fault st
      | Returned u \<Rightarrow> access_data stack)"
  by pat_completeness auto
termination by (relation "measure (\<lambda>(n, _). nat n)") auto

declare call_down.simps [simp del]

text \<open>The end of a process: by \<open>exit\<close> or \<open>return\<close>, or by a signal that has no handler.\<close>

datatype ending = Exited i32 | Killed nat

definition SIGSEGV :: nat where "SIGSEGV = 11"

definition core_dumps_main :: ending where
  "core_dumps_main = (case call_down 10 [''main''] of Fault st \<Rightarrow> Killed SIGSEGV | Returned u \<Rightarrow> Exited 0)"

text \<open>
  With a handler: \<open>backtrace\<close> and \<open>backtrace_symbols_fd\<close> are of the C library, the first gives the
  number of addresses on the stack that it stored, the second the lines for them, which it writes to the
  terminal at once; the line of \<open>printf\<close> is before them because a terminal gets each line when it is complete.
\<close>

definition signal_handler :: "(string list \<Rightarrow> nat \<Rightarrow> nat) \<Rightarrow> (string list \<Rightarrow> nat \<Rightarrow> string) \<Rightarrow> string list \<Rightarrow> string \<times> ending" where
  "signal_handler backtrace symbols st =
     (let nptrs = backtrace (''signal_handler'' # st) 1000
      in (''backtrace() returned '' @ fmt_d (word_of_nat nptrs) @ '' addresses'' @ nl @
          symbols (''signal_handler'' # st) nptrs, Exited 1))"

definition backtrace_main :: "(string list \<Rightarrow> nat \<Rightarrow> nat) \<Rightarrow> (string list \<Rightarrow> nat \<Rightarrow> string) \<Rightarrow> string \<times> ending" where
  "backtrace_main backtrace symbols =
     (case call_down 10 [''main''] of Fault st \<Rightarrow> signal_handler backtrace symbols st | Returned u \<Rightarrow> ([], Exited 0))"

text \<open>The innermost call faults, so that none of them returns.\<close>

lemma call_down_faults: "call_down (int n) stack = Fault (''access_data'' # replicate (Suc n) ''call'' @ stack)"
proof (induction n arbitrary: stack)
  case 0
  show ?case by (simp add: call_down.simps [of "0 :: int"] access_data_def store_int_def)
next
  case (Suc n)
  have "replicate (Suc n) ''call'' @ ''call'' # stack = replicate (Suc (Suc n)) ''call'' @ stack"
    by (simp add: replicate_app_Cons_same)
  then show ?case using Suc.IH [of "''call'' # stack"] by (simp add: call_down.simps [of "1 + int n"])
qed

text \<open>The stack has 13 calls below the handler; a backtrace that counts what fits into the buffer finds them all.\<close>

lemma backtrace_main_result:
  assumes "\<And>st k. backtrace st k = min (length st) k"
  shows "core_dumps_main = Killed SIGSEGV"
    and "snd (backtrace_main backtrace symbols) = Exited 1"
    and "take 33 (fst (backtrace_main backtrace symbols)) = ''backtrace() returned 14 addresses''"
proof -
  have c: "call_down 10 [''main''] = Fault (''access_data'' # replicate 11 ''call'' @ [''main''])"
    using call_down_faults [of 10 "[''main'']"] by (simp add: numeral_eq_Suc)
  show "core_dumps_main = Killed SIGSEGV" by (simp add: core_dumps_main_def c)
  show "snd (backtrace_main backtrace symbols) = Exited 1" by (simp add: backtrace_main_def c signal_handler_def Let_def)
  have "fmt_d 14 = ''14''" by code_simp
  then show "take 33 (fst (backtrace_main backtrace symbols)) = ''backtrace() returned 14 addresses''"
    by (simp add: backtrace_main_def c signal_handler_def assms Let_def)
qed

subsection \<open>\<open>tracing/fibonacci.c\<close>\<close>

text \<open>
  \<open>trace\<close> is the line of \<open>TRACE\<close>, empty unless built with \<open>DEBUG\<close>. The recursive function is the one of
  \<open>fibonacci.c\<close>. The loop runs to \<open>n\<close> inclusive.
\<close>

definition fib_trace_main :: "string \<Rightarrow> string list \<Rightarrow> string" where
  "fib_trace_main trace argv =
     (let n = (if length argv = 2 then atol (argv ! 1) else 0)
      in trace @ ''The first '' @ fmt_lld n @ '' Fibonacci numbers are:'' @ nl @
         concat (List.map (\<lambda>i. fmt_lld (fibonacci_r i) @ '', '') [0..sint n]) @ nl)"

text \<open>\<open>n + 1\<close> numbers are printed where the heading promises \<open>n\<close>; those of the iterative function.\<close>

lemma fib_trace_numbers:
  assumes "atol (argv ! 1) = word_of_nat n" "n < 2 ^ 63" "length argv = 2"
  shows "fib_trace_main [] argv = ''The first '' @ show_nat n @ '' Fibonacci numbers are:'' @ nl @
    concat (List.map (\<lambda>i. fmt_lld (fibonacci_i (int i)) @ '', '') [0..<n + 1]) @ nl"
proof -
  have s: "sint (word_of_nat n :: s64) = int n" using sint_small64 [of "int n"] assms(2) by simp
  have "[0..int n] = List.map int [0..<n + 1]"
    by (rule nth_equalityI) (simp_all add: nth_upto nat_add_distrib del: upt_Suc)
  then show ?thesis using assms(1,3) s
    by (simp add: fib_trace_main_def fmt_lld_def show_int_def o_def fibonacci_i_r del: upt_Suc)
qed

subsection \<open>\<open>07_miniproj/oled/main.c\<close>\<close>

definition demo_lines :: "string list" where
  "demo_lines = [''CSEL1a - SP.07'', ''  Demo - SW'', ''--------------'',
     ''Temp: 35'' @ [CHR 0x27] @ ''C'', ''Freq: 1Hz'', ''Duty: 50%'']"

definition oled_demo_main :: "(ucall \<Rightarrow> ('w, int) state) \<Rightarrow> (('w, 'f) oled, int) state" where
  "oled_demo_main U = do {
     r \<leftarrow> ssd1306_init U;
     for_each (\<lambda>(row, txt). do {
       ssd1306_set_position U 0 (word_of_nat row);
       ssd1306_puts U txt
     }) (enumerate 0 demo_lines);
     ret 0
   }"

text \<open>Whatever becomes of the initialisation, the six lines go to the bus behind it.\<close>

lemma oled_demo_lines:
  fixes d :: "('z ulog_scheme, 'f) oled"
  shows "result (oled_demo_main (uapi E)) d = 0"
    and "bus (exec (oled_demo_main (uapi E)) d) = bus (exec (ssd1306_init (uapi E)) d) @
     concat (map (\<lambda>(row, txt). line_out row txt) (enumerate 0 demo_lines))"
proof -
  have "emits (for_each (\<lambda>(row, txt). do { ssd1306_set_position (uapi E) 0 (word_of_nat row); ssd1306_puts (uapi E) txt })
      (enumerate 0 demo_lines) :: (('z ulog_scheme, 'f) oled, unit) state) (concat (map (\<lambda>(row, txt). line_out row txt) (enumerate 0 demo_lines)))"
    unfolding line_out_def by (intro emits_for_each) (auto intro!: emits_bind emits_position emits_puts)
  then show "bus (exec (oled_demo_main (uapi E)) d) = bus (exec (ssd1306_init (uapi E)) d) @
     concat (map (\<lambda>(row, txt). line_out row txt) (enumerate 0 demo_lines))"
    by (simp add: oled_demo_main_def exec_bind emits_def)
  show "result (oled_demo_main (uapi E)) d = 0" by (simp add: oled_demo_main_def result_bind)
qed

lemma demo_lines_shown: "list_all (\<lambda>l. map shown l = l) demo_lines"
  by code_simp

end
