(* ===== verification/SolutionProperties.thy ===== *)
theory SolutionProperties
  imports ModuleSolutions DeviceFamilies AttributeVariants DaemonSkeleton MappedFiles Demonstrations
begin

section \<open>Properties of the module, driver and environment solutions\<close>

text \<open>
  What the solutions of the course promise: the threads that kick each other, the keys, the device
  that is filled, the counted interrupts, the commands, the platform drivers, the mapped
  files and the daemon. Each property is followed by a witness where it has hypotheses.
\<close>

subsection \<open>Environments of the witnesses\<close>

definition kernel_that :: "(kevent list \<Rightarrow> kcall \<Rightarrow> int) \<Rightarrow> kenv" where
  "kernel_that f = \<lparr>kret = f, kstrtoint = (\<lambda>_. None), kstrtouint = (\<lambda>_. None), PAGE_SIZE = 4096\<rparr>"

text \<open>Every request is granted; memory lies at growing addresses.\<close>

definition granting :: "kevent list \<Rightarrow> kcall \<Rightarrow> int" where
  "granting h c = (case c of Kcalloc _ _ \<Rightarrow> 1000 + int (length h) | _ \<Rightarrow> 0)"

text \<open>The interrupt of the second key is taken.\<close>

definition refusing_key2 :: "kevent list \<Rightarrow> kcall \<Rightarrow> int" where
  "refusing_key2 h c = (case c of Request_irq i nm \<Rightarrow> if i = 12 then - 16 else 0 | _ \<Rightarrow> 0)"

definition demo_copy :: uaccess where
  "demo_copy = \<lparr>copy_to_user = (\<lambda>_. 0),
     copy_from_user = (\<lambda>n d. if 2 ^ 63 \<le> uint n then (n, []) else (0, take (unat n) d))\<rparr>"

lemma demo_copy_ok: "uaccess_ok demo_copy" "uaccess_bounded demo_copy"
  by (simp_all add: demo_copy_def uaccess_ok_def uaccess_bounded_def)

text \<open>A system that lets a process have four descriptors; the process starts with 1 and 3 on a terminal.\<close>

definition demo_tty :: "int \<Rightarrow> string option" where
  "demo_tty fd = (if fd = 1 \<or> fd = 3 then Some ''tty'' else None)"

definition demo_posix :: penv where
  "demo_posix = \<lparr>pret = (\<lambda>h c. case c of
       Setsid \<Rightarrow> 17
     | Sysconf_open_max \<Rightarrow> 4
     | Fd_open nm \<Rightarrow> lowest_free 4 (fd_table demo_tty h)
     | Dup2 a b \<Rightarrow> b
     | Openlog \<Rightarrow> lowest_free 4 (fd_table demo_tty h)
     | Log_message msg \<Rightarrow> - 1
     | Sleep t \<Rightarrow> if naps h = 0 then 12 else 0
     | _ \<Rightarrow> 0), psignals = (\<lambda>h c. case c of
       Sleep t \<Rightarrow> if naps h = 0 \<and> std_open (fd_table demo_tty h) then 1 else 0
     | _ \<Rightarrow> 0),
   passwd = Some (1, 2)\<rparr>"

lemma demo_posix_obliging: "obliging 4 demo_tty demo_posix 1"
proof -
  have "std_open (fd_table demo_tty (h @ [(c, pret demo_posix h c)]))" if "psignals demo_posix h c \<noteq> 0" for h c
    using that by (auto simp: demo_posix_def fd_step_def split: pcall.splits if_splits)
  then show ?thesis unfolding obliging_def by (simp add: demo_posix_def del: fd_table_append)
qed

subsection \<open>The properties\<close>

text \<open>The second thread has set its first kick and is about to wake the queue.\<close>

definition kicked_demo :: kicking where
  "kicked_demo = kicking_start\<lparr>kick_at2 := KWake2, is_kicked := 1, kicks_set := 1\<rparr>"

lemma kicked_demo_reach: "kicking_reach kicked_demo"
proof -
  have "kicking_reach (kicking_start\<lparr>kick_at2 := KSleep2\<rparr>)"
    by (rule kicking_next [OF kicking_init kick_2]) (simp add: skeleton_thread_2_def kicking_start_def)
  then have "kicking_reach (kicking_start\<lparr>kick_at2 := KSet2\<rparr>)"
    by (rule kicking_next [OF _ kick_2]) (simp add: skeleton_thread_2_def kicking_start_def)
  then show ?thesis
    by (rule kicking_next [OF _ kick_2]) (simp add: skeleton_thread_2_def kicking_start_def kicked_demo_def)
qed

text \<open>
  C32: in every interleaving of the two threads of exercise 7, of signals and of the module's exit, the
  counter of kicks is 0 or 1 until the first thread is told to stop, no kick is taken that
  was not set, at most the stop itself is taken for one more, and no step is possible only when
  both threads have ended.
\<close>

theorem kicks_taken_once:
  assumes "kicking_reach s"
  shows "(\<not> kick_stop1 s \<longrightarrow> is_kicked s \<in> {0, 1} \<and> int (kicks_taken s) + is_kicked s \<le> int (kicks_set s)) \<and>
    kicks_taken s \<le> kicks_set s + 1 \<and>
    ((\<forall>t. \<not> kicking_step s t) \<longrightarrow> kick_at1 s = KDone1 \<and> kick_at2 s = KDone2 \<and> kick_stop1 s)"
proof -
  have inv: "kicking_inv s" by (rule kicking_reach_inv [OF assms])
  then have "\<not> kick_stop1 s \<longrightarrow> is_kicked s \<in> {0, 1} \<and> int (kicks_taken s) + is_kicked s \<le> int (kicks_set s)"
    and "kicks_taken s \<le> kicks_set s + 1" by (auto simp: kicking_inv_def)
  with kicking_not_stuck [OF inv] show ?thesis by blast
qed

theorem kicks_taken_once_witness:
  "is_kicked kicked_demo \<in> {0, 1} \<and>
   int (kicks_taken kicked_demo) + is_kicked kicked_demo \<le> int (kicks_set kicked_demo) \<and>
   kicks_taken kicked_demo \<le> kicks_set kicked_demo + 1"
  using kicks_taken_once [OF kicked_demo_reach] by (simp add: kicked_demo_def kicking_start_def)

text \<open>
  C35: the module of exercise 8 that loads with success gives all GPIOs and interrupts of the three keys
  back when it is unloaded; one that fails keeps, without being unloaded, a proper part of
  them, and the first GPIO in any case when that was granted.
\<close>

theorem keys_all_or_leak:
  fixes s :: klog and E :: kenv and irq :: "nat \<Rightarrow> int"
  assumes "res_state (klog s) = Some {#}"
  shows "(result (keys_init E irq) s = 0 \<longrightarrow>
      res_state (klog (exec (keys_exit E irq) (exec (keys_init E irq) s))) = Some {#}) \<and>
    (result (keys_init E irq) s \<noteq> 0 \<longrightarrow> (\<exists>L. res_state (klog (exec (keys_init E irq) s)) = Some L \<and>
      L \<subset># keys_owned irq [key1, key2, key3] \<and>
      (kret E (klog s) (Gpio_request 0 ''k1'') = 0 \<longrightarrow> R_gpio 0 \<in># L)))"
proof (intro conjI impI)
  assume r: "result (keys_init E irq) s \<noteq> 0"
  obtain L where L: "L \<subset># keys_owned irq [key1, key2, key3]" "res_state (klog (exec (keys_init E irq) s)) = Some L"
    using keys_init_exit(2) [OF assms r] by blast
  show "\<exists>L. res_state (klog (exec (keys_init E irq) s)) = Some L \<and> L \<subset># keys_owned irq [key1, key2, key3] \<and>
      (kret E (klog s) (Gpio_request 0 ''k1'') = 0 \<longrightarrow> R_gpio 0 \<in># L)"
    using L keys_init_leak [OF assms _ r] by auto
qed (rule keys_init_exit(1) [OF assms])

theorem keys_all_or_leak_witness:
  "res_state (klog (exec (keys_exit (kernel_that granting) (\<lambda>g. 10 + int g))
      (exec (keys_init (kernel_that granting) (\<lambda>g. 10 + int g)) \<lparr>klog = []\<rparr>))) = Some {#} \<and>
   (\<exists>L. res_state (klog (exec (keys_init (kernel_that refusing_key2) (\<lambda>g. 10 + int g)) \<lparr>klog = []\<rparr>)) = Some L \<and>
      R_gpio 0 \<in># L)"
proof -
  have "res_state (klog (\<lparr>klog = []\<rparr> :: klog)) = Some {#}" by (simp add: res_state_def)
  note A = keys_all_or_leak [OF this]
  have "result (keys_init (kernel_that granting) (\<lambda>g. 10 + int g)) (\<lparr>klog = []\<rparr> :: klog) = 0"
    "result (keys_init (kernel_that refusing_key2) (\<lambda>g. 10 + int g)) (\<lparr>klog = []\<rparr> :: klog) = - 16"
    by code_simp+
  with A [of "kernel_that granting" "\<lambda>g. 10 + int g"] A [of "kernel_that refusing_key2" "\<lambda>g. 10 + int g"]
  show ?thesis by (auto simp: kernel_that_def refusing_key2_def)
qed

text \<open>
  C34: the program of exercise 4 on the device of exercises 2 and 3 ends, for every name of at most 4096
  bytes and every contents of the buffers: it fills the device with the name, its two texts and as many
  more lines as fit, the write that does not fit puts a NUL five bytes before the end of
  the text, and what it prints are the chunks of the buffer.
\<close>

theorem device_filled:
  assumes "uaccess_ok A" "uaccess_bounded A" "length buf = 10000" "nm \<noteq> []" "length nm \<le> 4096" "10000 < fuel"
  shows "\<exists>buf'. ex4_main sol_read sol_write A fuel [prog, nm] buff buf = Some (prints buff (chunks 99 buf'), buf') \<and>
    length buf' = 10000 \<and>
    (let w = nm @ ex4_text @ ex4_text2; k = (9999 - length w) div 49; m = length w + 49 * k
     in take m buf' = (w @ concat (replicate k ex4_blabla))[m - 5 := CHR 0x00] \<and> 9999 < m + 49)"
proof -
  obtain buf' where b: "ex4_main sol_read sol_write A fuel [prog, nm] buff buf = Some (prints buff (chunks 99 buf'), buf')"
    "length buf' = 10000" "take (length (ex4_written nm)) buf' = ex4_written nm"
    using ex4_main_ends [OF assms, of prog "[]" buff] by blast
  let ?w = "nm @ ex4_text @ ex4_text2"
  have w: "length ?w = length nm + 184" by (simp add: ex4_lengths)
  have len: "length (ex4_written nm) = length ?w + 49 * ((9999 - length ?w) div 49)"
    unfolding length_ex4_written blablas_def w ..
  have "9999 - length ?w < 49 * ((9999 - length ?w) div 49) + 49"
    using mod_less_divisor [of 49 "9999 - length ?w"] mult_div_mod_eq [of 49 "9999 - length ?w"] by linarith
  then have "9999 < length ?w + 49 * ((9999 - length ?w) div 49) + 49" using assms(5) w by linarith
  moreover have "take (length ?w + 49 * ((9999 - length ?w) div 49)) buf' =
      (?w @ concat (replicate ((9999 - length ?w) div 49) ex4_blabla))[length ?w + 49 * ((9999 - length ?w) div 49) - 5 := CHR 0x00]"
    using b(3) unfolding len by (simp only: ex4_written_def Let_def blablas_def)
  ultimately show ?thesis using b(1,2) unfolding Let_def by blast
qed

theorem device_filled_witness:
  "\<exists>buf'. ex4_main sol_read sol_write demo_copy 10001 [''main'', ''/dev/mymodule''] (replicate 100 CHR 0x00)
      (replicate 10000 CHR 0x00) = Some (prints (replicate 100 CHR 0x00) (chunks 99 buf'), buf') \<and> length buf' = 10000"
  using device_filled [OF demo_copy_ok, of "replicate 10000 CHR 0x00" "''/dev/mymodule''" 10001 "''main''" "replicate 100 CHR 0x00"]
  by auto

text \<open>
  C36: the interrupts that the device of exercise 7 reports. In every interleaving of interrupts
  with any number of polls, from the load, the counter is the interrupts less the reports, modulo
  \<open>2 ^ 32\<close>. Fewer than \<open>2 ^ 32\<close> interrupts and polls that do not overlap: none is lost and
  none is invented, the reports and the counter add up to the interrupts, and when a poll
  would report nothing each has been reported once. Polls that overlap can report one
  interrupt twice, because the counter is tested and decremented in two steps: it is then \<open>-1\<close>, and
  the polls that follow go on to report.
\<close>

theorem interrupts_reported_once:
  assumes run: "poll_run es poll_start = Some s" and "p \<noteq> q"
  shows "nb_of_interrupts s = of_nat (raised es) - of_nat (reported s) \<and>
    (raised es < 2 ^ 32 \<and> polls_apart es \<longrightarrow> reported s + unat (nb_of_interrupts s) = raised es \<and>
      (\<forall>r t. poll_step (Poll_reads r) s = Some t \<and> poll_at t r = Poll_out \<longrightarrow> reported s = raised es)) \<and>
    (\<exists>t. poll_run [Interrupt, Poll_reads p, Poll_reads q, Poll_takes p, Poll_takes q] poll_start = Some t \<and>
      reported t = 2 \<and> nb_of_interrupts t = - 1 \<and>
      (\<exists>u. poll_run [Poll_reads p, Poll_takes p] t = Some u \<and> reported u = 3))"
proof -
  have "reported s = raised es"
    if "raised es < 2 ^ 32" "polls_apart es" "poll_step (Poll_reads r) s = Some t" "poll_at t r = Poll_out" for r t
    using poll_run_exact [OF run that(2,1)] that(3,4) by (auto simp: skeleton_poll_read_def split: if_splits)
  then show ?thesis
    using poll_run_balance [OF run] poll_run_exact [OF run] overlapping_polls [OF assms(2)] by blast
qed

theorem interrupts_reported_once_witness:
  "\<exists>s. poll_run [Interrupt, Poll_reads 4, Interrupt, Poll_takes 4, Poll_reads 4, Poll_takes 4] poll_start = Some s \<and>
     reported s + unat (nb_of_interrupts s) = 2 \<and> reported s = 2"
proof -
  let ?es = "[Interrupt, Poll_reads 4, Interrupt, Poll_takes 4, Poll_reads 4, Poll_takes 4]"
  obtain s where s: "poll_run ?es poll_start = Some s"
    "poll_step (Poll_reads 4) s = Some (skeleton_poll_read 4 s)" "poll_at (skeleton_poll_read 4 s) 4 = Poll_out"
    by (simp add: poll_start_def poll_isr_def skeleton_poll_read_def skeleton_poll_take_def)
  have "polls_apart ?es" by (rule single_poller_apart [of _ 4]) simp
  moreover have "raised ?es = 2" by (simp add: raised_def)
  ultimately show ?thesis using interrupts_reported_once [OF s(1), of 0 1] s(2,3) s(1) by auto
qed

text \<open>
  The commands of exercise 9: a configuration that is written is read back byte by byte, and a number is
  read back as it was written, but the caller of \<open>ioctl\<close> gets the numbers from \<open>-4095\<close> to \<open>-1\<close> as
  error codes.
\<close>

theorem ioctl_reads_back:
  assumes "uaccess_ok A" "length d = 80" "length (io_config s) = 80" "- (2 ^ 31) \<le> k" "k < 2 ^ 31"
  shows "(let t = snd (snd (skeleton_ioctl A SKELETON_IO_WR_REF arg d s))
     in fst (skeleton_ioctl A SKELETON_IO_WR_REF arg d s) = 0 \<and> skeleton_ioctl A SKELETON_IO_RD_REF arg' e t = (0, d, t)) \<and>
    (let t = snd (snd (skeleton_ioctl A SKELETON_IO_WR_VAL (word_of_int k) d s))
     in libc_result (fst (skeleton_ioctl A SKELETON_IO_RD_VAL arg' e t)) =
       (if - 4095 \<le> k \<and> k \<le> - 1 then Inl (- k) else Inr k))"
  using ioctl_config(1) [OF assms(1,2)] ioctl_config(2) [OF assms(1,2,3)] libc_value [OF assms(4,5)] assms(3)
  by (simp add: ioctl_value ucast_int Let_def)

theorem ioctl_reads_back_witness:
  "libc_result (fst (skeleton_ioctl demo_copy SKELETON_IO_RD_VAL 0 []
     (snd (snd (skeleton_ioctl demo_copy SKELETON_IO_WR_VAL (word_of_int (- 14)) (replicate 80 CHR ''x'')
       \<lparr>io_config = replicate 80 CHR 0x00, io_val = 0\<rparr>))))) = Inl 14"
  using ioctl_reads_back [OF demo_copy_ok(1), of "replicate 80 CHR ''x''" "\<lparr>io_config = replicate 80 CHR 0x00, io_val = 0\<rparr>" "- 14" 0 0 "[]"]
  by (simp add: Let_def)



text \<open>
  C40: the three samples on files: after the first two the file has 10000 lines of which every tenth is
  in capitals, and the third leaves, without a single write of a line, the file that the first one writes,
  followed by NULs.
\<close>

theorem sample_files:
  "sample01_main2 10000 (sample01_main1 10000) =
     Some (concat (List.map (\<lambda>i. if i mod 10 = 0 then line2 else line1) [0..<10000])) \<and>
   sample01_main3 10000 FILE_SZ = Some (sample01_main1 10000 @ replicate (FILE_SZ + 1 - 37 * 10000) CHR 0x00)"
  using sample01_every_tenth [of 10000] sample01_mapped_equals_written [OF sample01_fits] by blast

text \<open>
  C33: the daemon, started as the superuser with any descriptors up to the limit \<open>m\<close>, gets to its
  end when its calls are granted, free descriptors are given out lowest first, its sleep is
  interrupted at most \<open>k\<close> times, and no signal is caught while a standard descriptor is closed or
  after the log is closed. Then exactly the three standard descriptors are open, all on the
  null device: what was open at the start is closed, and so is the connection to the log of the
  system, whether \<open>openlog\<close>, a message or a signal handler opened it. The process has run
  as the user \<open>daemon\<close> in the root directory, having changed its root and its group before it gave
  up the user, in a session of its own that it does not lead.
\<close>

theorem daemon_at_its_end:
  fixes s :: daemon
  assumes granted: "obliging m T E k" "k < fuel"
    and few: "\<And>fd. fd_table T (plog s) fd \<noteq> None \<Longrightarrow> 0 \<le> fd \<and> fd \<le> m"
    and start: "priv_state p (plog s) = Some a" "euid a = 0"
  shows "result (daemonise_main E fuel) s = Some 0 \<and>
    fd_table T (plog (exec (daemonise_main E fuel) s)) = (\<lambda>fd. if fd = 0 \<or> fd = 1 \<or> fd = 2 then Some ''/dev/null'' else None) \<and>
    session_state q (plog (exec (daemonise_main E fuel) s)) = (True, False) \<and>
    (\<exists>gid uid. passwd E = Some (gid, uid) \<and> priv_state p (plog (exec (daemonise_main E fuel) s)) =
      Some \<lparr>cwd = ''/'', root_dir = ''/'', egid = gid, euid = uid\<rparr>)"
proof -
  have "below m (fd_table T (plog s))" using few by (simp add: below_def)
  note fin = daemonise_main_done [OF granted this]
  with fin(1,2) fin(3) [of q] fin(4) [of p a] start show ?thesis by blast
qed

theorem daemon_at_its_end_witness:
  "result (daemonise_main demo_posix 2) \<lparr>plog = [], signal_catched = 0\<rparr> = Some 0 \<and>
   fd_table demo_tty (plog (exec (daemonise_main demo_posix 2) \<lparr>plog = [], signal_catched = 0\<rparr>)) 3 = None \<and>
   session_state (False, True) (plog (exec (daemonise_main demo_posix 2) \<lparr>plog = [], signal_catched = 0\<rparr>)) = (True, False)"
proof -
  let ?p = "\<lparr>cwd = ''/home'', root_dir = ''/'', egid = 0, euid = 0\<rparr>"
  have start: "fd_table demo_tty (plog \<lparr>plog = [], signal_catched = 0\<rparr>) = demo_tty"
    "priv_state ?p (plog \<lparr>plog = [], signal_catched = 0\<rparr>) = Some ?p" "euid ?p = 0"
    by (simp_all add: fd_table_def priv_state_def)
  have few: "0 \<le> fd \<and> fd \<le> 4" if "fd_table demo_tty (plog \<lparr>plog = [], signal_catched = 0\<rparr>) fd \<noteq> None" for fd
    using that unfolding start(1) by (auto simp: demo_tty_def split: if_splits)
  have "(1 :: nat) < 2" by simp
  from daemon_at_its_end [OF demo_posix_obliging this few start(2,3), where q = "(False, True)"] show ?thesis by simp
qed

text \<open>
  C38: what isolates the devices of samples 6.2 and 6.3 and of exercise 6.1 from each other. In
  every sequence of opens, reads, writes and attribute accesses in which no access leaves the buffer of
  its device, the operations on one device give the same answers and leave its buffer and its
  attribute the same as when they are run alone, in the same order, without the others. In sample 6.2, whose
  buffers are the rows of one array, that condition is needed: a write within the first five bytes
  of a device that is refused, because it does not fit, puts a NUL into the device before it.
\<close>

theorem devices_isolated:
  fixes A :: uaccess and k :: "string \<Rightarrow> int + s64" and xs :: "dev_op list" and i j :: nat
    and s t :: instances and c e :: "attrdata children" and l m :: "mydata children" and off :: s64 and n :: u64
  assumes wf: "inst_wf s"
  defines "own1 \<equiv> own_part inst_dev (inst_step A k) i xs s"
    and "own2 \<equiv> own_part child_dev (child_step A k) i xs c"
    and "own3 \<equiv> own_part child_dev (listed_fop A) i xs l"
  shows "(run_ops (inst_step A k) xs s = Some (rs, t) \<and> stays_inside A k xs s \<longrightarrow> (\<exists>t'.
      run_ops (inst_step A k) (List.map fst own1) s = Some (List.map snd own1, t') \<and>
      row i (inst_mem t') = row i (inst_mem t) \<and> inst_attrs t' ! i = inst_attrs t ! i)) \<and>
    (run_ops (child_step A k) xs c = Some (rs, e) \<longrightarrow> (\<exists>e'.
      run_ops (child_step A k) (List.map fst own2) c = Some (List.map snd own2, e') \<and>
      ch_data e' ! i = ch_data e ! i)) \<and>
    (run_ops (listed_fop A) xs l = Some (rs, m) \<longrightarrow> (\<exists>m'.
      run_ops (listed_fop A) (List.map fst own3) l = Some (List.map snd own3, m') \<and>
      ch_data m' ! i = ch_data m ! i)) \<and>
    (Suc j < INSTANCES \<and> uaccess_bounded A \<and> 0 \<le> sint off \<and> sint off < 5 \<and> 10000 \<le> sint off + uint n \<longrightarrow> (\<exists>u.
      inst_write A (Suc j) n d off s = Some (word_of_int (- EFAULT), off + n, u) \<and>
      row j (inst_mem u) = (row j (inst_mem s))[9995 + nat (sint off) := CHR 0x00]))"
proof -
  have "\<exists>t'. run_ops (inst_step A k) (List.map fst own1) s = Some (List.map snd own1, t') \<and>
      row i (inst_mem t') = row i (inst_mem t) \<and> inst_attrs t' ! i = inst_attrs t ! i"
    if r: "run_ops (inst_step A k) xs s = Some (rs, t)" and ins: "stays_inside A k xs s"
  proof -
    have own: "own1 = own_part inst_dev (row_step A k) i xs s" unfolding own1_def by (rule stays_inside_run(2) [OF ins r, symmetric])
    from sample062.isolated [OF stays_inside_run(1) [OF ins r] wf, of i] show ?thesis
      unfolding own by (auto simp: inst_rel_def dest: row_run)
  qed
  then show ?thesis
    using sample063.isolated [of A k xs c rs e i] exercice061.isolated [of A xs l rs m i] inst_write_refused [OF wf, of j A off n d]
    unfolding own2_def own3_def by (simp add: child_rel_def) metis
qed

text \<open>Two users: the second one's write to its device, between the accesses of the first one.\<close>

definition demo_children :: "attrdata children" where
  "demo_children = \<lparr>ch_data = [\<lparr>ch_buffer = ''abc'' @ replicate 5 CHR 0x00, ch_val = 10, ch_id = 0\<rparr>,
     \<lparr>ch_buffer = replicate 8 CHR 0x00, ch_val = 11, ch_id = 1\<rparr>], ch_files = (\<lambda>_. None)\<rparr>"

definition demo_ops :: "dev_op list" where
  "demo_ops = [D_open 0 True 0, D_open 1 True 1, D_read 0 2, D_write 1 2 ''xy'', D_read 0 9]"

lemma inst_start_wf: "inst_wf inst_start"
proof -
  have "length (inst_mem inst_start) = INSTANCES * 10000" by (simp only: inst_start_def instances.simps length_replicate)
  then show ?thesis by (simp add: inst_wf_def) (simp add: inst_start_def)
qed

theorem devices_isolated_witness:
  "(\<exists>t'. run_ops (child_step demo_copy (\<lambda>_. Inl (- 22))) [D_open 0 True 0, D_read 0 2, D_read 0 9] demo_children =
    Some ([Status 0, Bytes 2 ''ab'', Bytes 1 ''c''], t')) \<and>
   (\<exists>u. inst_write demo_copy 1 10000 [] 0 inst_start = Some (word_of_int (- EFAULT), 10000, u) \<and>
      row 0 (inst_mem u) = (row 0 (inst_mem inst_start))[9995 := CHR 0x00])"
proof -
  let ?step = "child_step demo_copy (\<lambda>_. Inl (- 22))"
  let ?m = "\<lparr>ch_data = [], ch_files = \<lambda>_. None\<rparr> :: mydata children"
  have "map_option fst (run_ops ?step demo_ops demo_children) =
      Some [Status 0, Status 0, Bytes 2 ''ab'', Written 2, Bytes 1 ''c'']" by code_simp
  then obtain e where e: "run_ops ?step demo_ops demo_children =
      Some ([Status 0, Status 0, Bytes 2 ''ab'', Written 2, Bytes 1 ''c''], e)" by auto
  have o: "own_part child_dev ?step 0 demo_ops demo_children =
      [(D_open 0 True 0, Status 0), (D_read 0 2, Bytes 2 ''ab''), (D_read 0 9, Bytes 1 ''c'')]" by code_simp
  note iso = devices_isolated [OF inst_start_wf, of demo_copy "\<lambda>_. Inl (- 22)" demo_ops _ inst_start 0 demo_children e ?m ?m 0 0 10000 "[]"]
  have "\<exists>t'. run_ops ?step [D_open 0 True 0, D_read 0 2, D_read 0 9] demo_children = Some ([Status 0, Bytes 2 ''ab'', Bytes 1 ''c''], t')"
    using iso e unfolding o by (simp only: list.map fst_conv snd_conv) blast
  moreover have "\<exists>u. inst_write demo_copy 1 10000 [] 0 inst_start = Some (word_of_int (- EFAULT), 10000, u) \<and>
      row 0 (inst_mem u) = (row 0 (inst_mem inst_start))[9995 := CHR 0x00]"
    using iso demo_copy_ok(2) by (simp add: INSTANCES_def)
  ultimately show ?thesis by blast
qed

text \<open>
  C39: the buffers of sample 6.2 are texts of 10000 bytes that end with a NUL, in every run from the
  load in which no access leaves the buffer of its device, whatever is written at whatever
  position. A read then gives, at a position up to the end of the text, what is left of the text;
  behind it, where the driver compares a negative number as an unsigned one, the bytes
  that are there in the array of the three buffers, those of the next devices included, and it leaves
  the memory behind the last one. A write at a position behind the device is not refused: three bytes
  at 19997 of the first device, the last of them not a NUL, and the buffer of the second one is no
  text any more.
\<close>

theorem buffers_stay_texts:
  fixes t :: instances and off :: s64 and n :: u64 and i :: nat
  assumes "uaccess_exact A" "uaccess_ok A" and "run_ops (inst_step A k) xs inst_start = Some (rs, t)"
    and "stays_inside A k xs inst_start" and "i < INSTANCES" "0 \<le> sint off" "uint n < 2 ^ 31"
  defines "b \<equiv> row i (inst_mem t)"
  defines "c \<equiv> min (int (length (text_of b)) - sint off) (uint n)"
  shows "text_ok b \<and>
    (sint off \<le> int (length (text_of b)) \<longrightarrow> inst_read A i n off t =
      Some (word_of_int c, take (nat c) (drop (nat (sint off)) (text_of b)), off + word_of_int c)) \<and>
    (int (length (text_of b)) < sint off \<longrightarrow> inst_read A i n off t =
      (if int (i * 10000) + sint off + uint n \<le> 30000
       then Some (n, take (unat n) (drop (i * 10000 + nat (sint off)) (inst_mem t)), off + n) else None)) \<and>
    (length d = 3 \<and> d ! 2 \<noteq> CHR 0x00 \<longrightarrow> (\<exists>u. inst_write A 0 3 d 19997 t = Some (3, 20000, u) \<and>
      \<not> text_ok (row 1 (inst_mem u))))"
proof -
  have ok: "inst_ok t" by (rule inst_run_ok [OF assms(1,3,4)])
  then have b: "text_ok b" and m: "length (inst_mem t) = INSTANCES * 10000" "inst_wf t"
    using assms(5) by (simp_all add: inst_ok_def inst_wf_def b_def)
  let ?f = "\<lparr>private_data = b, f_off = off\<rparr>"
  have "inst_read A i n off t = Some (word_of_int c, take (nat c) (drop (nat (sint off)) (text_of b)), off + word_of_int c)"
    if "sint off \<le> int (length (text_of b))"
    using inst_read_row [OF m(1) assms(5)] misc_read_inside [OF assms(2), of ?f n] b assms(6,7) that
    by (simp add: b_def [symmetric] c_def)
  moreover have "inst_read A i n off t = (if int (i * 10000) + sint off + uint n \<le> 30000
       then Some (n, take (unat n) (drop (i * 10000 + nat (sint off)) (inst_mem t)), off + n) else None)"
    if "int (length (text_of b)) < sint off"
    using inst_read_behind [OF assms(2) m(1) assms(5) b [unfolded b_def] assms(7) that [unfolded b_def]] by (simp add: INSTANCES_def)
  moreover have "\<exists>u. inst_write A 0 3 d 19997 t = Some (3, 20000, u) \<and> \<not> text_ok (row 1 (inst_mem u))"
    if "length d = 3" "d ! 2 \<noteq> CHR 0x00"
    using inst_write_behind [OF m(2) assms(2) that(1)] that(2) by (auto simp: text_ok_def)
  ultimately show ?thesis using b by blast
qed

lemma demo_copy_exact: "uaccess_exact demo_copy"
  by (simp add: uaccess_exact_def demo_copy_ok) (simp add: demo_copy_def)

theorem buffers_stay_texts_witness:
  "\<exists>t u. run_ops (inst_step demo_copy (\<lambda>_. Inl (- 22))) [D_open 0 True 1] inst_start = Some ([Status 0], t) \<and>
    inst_read demo_copy 1 10 0 t = Some (0, [], 0) \<and>
    inst_write demo_copy 0 3 ''abc'' 19997 t = Some (3, 20000, u) \<and> \<not> text_ok (row 1 (inst_mem u))"
proof -
  let ?t = "inst_start\<lparr>inst_files := (\<lambda>_. None)(0 \<mapsto> (1, 0))\<rparr>"
  have r: "run_ops (inst_step demo_copy (\<lambda>_. Inl (- 22))) [D_open 0 True 1] inst_start = Some ([Status 0], ?t)"
    by (simp add: inst_fopen_def inst_open_exact INSTANCES_def) (simp add: inst_start_def)
  have ins: "stays_inside demo_copy (\<lambda>_. Inl (- 22)) [D_open 0 True 1] inst_start"
    by (simp add: inst_inside_def split: option.splits)
  have i: "1 < INSTANCES" by (simp add: INSTANCES_def)
  have b: "row 1 (inst_mem ?t) = replicate 10000 CHR 0x00"
    using row_replicate [OF i] by (simp only: inst_start_def instances.simps)
  have "text_of (replicate 10000 CHR 0x00) = []" by (simp add: text_of_def takeWhile_replicate)
  moreover note stay = buffers_stay_texts [OF demo_copy_exact demo_copy_ok(1) r ins i, of 0 10 "''abc''"]
  ultimately have "inst_read demo_copy 1 10 0 ?t = Some (0, [], 0)" unfolding b by simp
  moreover obtain u where "inst_write demo_copy 0 3 ''abc'' 19997 ?t = Some (3, 20000, u)" "\<not> text_ok (row 1 (inst_mem u))"
    using stay by auto
  ultimately show ?thesis using r by blast
qed

end
