(* ===== verification/Spec2Isabelle.thy ===== *)
theory Spec2Isabelle
  imports KernelProperties DaemonProperties LabProperties ExerciseProperties SolutionProperties
begin

text \<open>
  A verification library for the repository of the course MA-CSEL (embedded systems on
  the NanoPi NEO Plus2): the mini-project, a kernel module that blinks an LED at a period chosen
  by hand or by the temperature of the processor, with its daemon, its command line client
  and its display; the LED controller; the exercises on kernel modules, drivers, processes and
  optimisation; and part of the solutions of the course.

  \<^bold>\<open>How C is modelled.\<close> A C function with effects is a computation of the state monad over the
  record of the statics it touches (\<open>Prelude\<close>); integers are words of their width; a string
  is a list of characters; what C does not define or what crashes is \<open>None\<close>, an error code
  is the integer that the code returns. Functions that are not in the repository are
  parameters. Those of the kernel are the calls \<open>kcall\<close> (\<open>KernelApi\<close>), those of user space
  the calls \<open>ucall\<close> (\<open>UserApi\<close>): an environment answers each call with an integer as any
  function of the calls before it, and the calls are logged. Two folds over a log say
  whether the calls were proper: \<open>lock_state\<close> and \<open>ulock_state\<close> for mutexes (no lock twice,
  one global order), \<open>res_state\<close> and \<open>ures_state\<close> for ownership (nothing released
  twice, used without being owned, or called through \<open>NULL\<close>; file descriptors of user space
  include those of \<open>epoll\<close> and of timers). \<open>CFormat\<close> has the
  conversions of \<open>printf\<close> and \<open>scanf\<close> that the code uses.

  \<^bold>\<open>The kernel module\<close> (\<open>src/06-mini-project/kernel\<close>).
  \<^item> \<open>Temp\<close> (\<open>temperature/temp.c\<close>): the sensor's registers and the formula at 32 bits;
    the exact value, and where it wraps.
  \<^item> \<open>Blink\<close> (\<open>blink/blink.c\<close>): the LED thread, its loop with fuel (the number of times
    that \<open>kthread_should_stop\<close> may say no); it returns when the thread is stopped within the fuel, and
    alternates until then.
  \<^item> \<open>KSysfs\<close> (\<open>sysfs/sysfs.c\<close>): the four files and their handlers under the lock.
  \<^item> \<open>Regulator\<close> (\<open>regulator/regulator.c\<close>): mode and period, the automatic mode as one
    function and as the critical sections that other threads can come between.
  \<^item> \<open>KModule\<close> (\<open>main.c\<close>): the composition, load and unload; the locale of the callbacks
    (what \<open>sysfs\<close> and \<open>regulator\<close> call through function pointers) interpreted on the functions
    that the module passes.
  \<^item> \<open>KRun\<close>: the step relation \<open>kstep\<close> of the regulator thread and the file handlers, in any
    interleaving of their critical sections, and its invariant.

  \<^bold>\<open>The daemon and the client\<close> (\<open>daemon\<close>, \<open>cli\<close>, \<open>common\<close>).
  \<^item> \<open>SysfsClient\<close> (\<open>application/sysfs.c\<close>): the files seen as a store, a parameter that
    \<open>Daemon\<close> instantiates with the kernel module's own handlers.
  \<^item> \<open>Gpio\<close> (\<open>gpio/led.c\<close>, \<open>gpio/button.c\<close>), \<open>App\<close> (\<open>application/app.c\<close>:
    operations, the animation queue as a step relation over the condition variable that its
    worker waits on and \<open>trigger_pulse\<close> signals), \<open>Ipc\<close> (\<open>ipc/ipc_server.c\<close>, \<open>cli/main.c\<close>: the message
    format, the client's arguments, the server's dispatch, the locale of the server's callbacks),
    \<open>Oled\<close> (\<open>oled/oled.c\<close>, \<open>oled/ssd1306.c\<close>), \<open>Daemon\<close> (\<open>main.c\<close>).
  \<^item> \<open>DaemonThreads\<close>: several threads of the daemon that change period and mode at once, the step
    relation \<open>crew_step\<close> over the sections of the relative operations of \<open>app.c\<close>; they act in the
    order in which they take \<open>app_lock\<close>, and a setting, which does not take it, may be lost.

  \<^bold>\<open>Exercises and solutions.\<close>
  \<^item> \<open>LedControl\<close> (\<open>03-led-controller\<close>: the period in 64 bits, the delay of the timer in 32;
    fuel is the number of passes of the timer's loop), \<open>ModuleLabs\<close> (\<open>01-skeleton\<close>),
    \<open>CharDriver\<close> (\<open>02-driver/character-oriented\<close> and its program of exercise 4).
  \<^item> \<open>CharSolution\<close> (\<open>solutions/03_drivers/exercice03\<close>, \<open>exercice06\<close>): a second
    provider of the contract \<open>char_device\<close> that \<open>CharDriver\<close> states.
  \<^item> \<open>AttributeFiles\<close> (\<open>02-driver/sysfs\<close>, \<open>exercice05\<close>, \<open>exercice10\<close>).
  \<^item> \<open>Processes\<close> (\<open>04-multiprocessing\<close>): the exchange over a socket pair as a step
    relation; the run of at most ten steps needs no fuel.
  \<^item> \<open>Optimization\<close> and \<open>Registers\<close> (\<open>05-optimization\<close> and
    \<open>ex1-memory-oriented.c\<close>); endless loops are stated for each number of their passes.
  \<^item> \<open>Procstat\<close> (\<open>solutions/02_modules/procstat\<close>: the line of \<open>/proc\<close> with numbers of any
    size, as it is read and as it is shown) and \<open>Environment\<close> (programs of
    \<open>solutions/01_environment\<close> and \<open>04_system/silly\<close>); the walk along the linked list may not
    end in C, and is a partial function that is proved to return on every list the program builds.
  \<^item> \<open>ModuleSolutions\<close> (\<open>solutions/02_modules\<close>, exercises 4 to 8): the list of allocated
    elements, the mappings, the periodic thread, the two threads that kick each other as a step
    relation, the keys.
  \<^item> \<open>DriverVariants\<close>, \<open>DriverInterfaces\<close>, \<open>PlatformDrivers\<close> (\<open>solutions/03_drivers\<close>):
    one buffer for all files and the program that fills it (fuel above the size of the buffer is
    enough, as every round moves the position); \<open>poll\<close> with its test and its decrement as steps that
    other polls come between, \<open>mmap\<close>, \<open>ioctl\<close>, attributes; the drivers
    that are bound to devices, with the locale \<open>bindable\<close> of what the driver core relies on.
  \<^item> \<open>DeviceFamilies\<close> (\<open>03_drivers/sample06.2\<close>, \<open>sample06.3\<close>, \<open>exercice06.1\<close>): several devices of one
    driver with their open files; the buffers of sample 6.2 are the rows of one array, in which an access
    beyond a row reaches the next device. The locale \<open>device_family\<close> has what makes the devices independent,
    and is interpreted on the three drivers, on sample 6.2 for the accesses that stay in a row. \<open>AttributeVariants\<close> (\<open>exercice05\<close>, \<open>exercice05.1\<close>): the
    builds with \<open>MISC\<close>, \<open>PLATFORM\<close> and \<open>CLASS\<close>, what each of them owns after load and unload, and the
    device that shares its module with the attributes.
  \<^item> \<open>Demonstrations\<close> (\<open>01_environment/core_dumps\<close>, \<open>backtrace\<close>, \<open>tracing\<close>, \<open>07_miniproj/oled/main.c\<close>):
    how the programs end and what they print.
  \<^item> \<open>MappedFiles\<close> (\<open>03_drivers/exercice01\<close>, \<open>sample01\<close>) and \<open>DaemonSkeleton\<close>
    (\<open>01_environment/daemon\<close>, \<open>process\<close>): the descriptors of the process, with the one of the
    system's log that a message of a signal handler may open; the sleep needs one round more than there are
    interruptions.

  \<^bold>\<open>The properties\<close> stand in \<open>KernelProperties\<close> (the LED blinks with the period that the
  files report, in every interleaving; what a file write means; load, unload and their failures;
  the sensor), \<open>DaemonProperties\<close> (a client's command reaches the LED through every layer; the server,
  the buttons, the display, start and stop), \<open>LabProperties\<close> (LED controller and module
  exercises), \<open>ExerciseProperties\<close> (drivers, processes, optimisation) and
  \<open>SolutionProperties\<close> (the solutions of the course). Each theory's lemmas are about one component; a property composes them. A property with
  hypotheses is followed by a witness at a concrete environment.

  \<^bold>\<open>Not modelled.\<close> Console messages of the kernel and of the programs, except where the output
  is the result; floating-point arithmetic (a parameter where the code prints a float); the
  memory model below the level of critical sections and of atomic operations; the weak points of a C compiler (signed
  overflow wraps). Of the solutions: the callbacks of the drivers that only print; the files that are copies, up to white
  space, of files modelled at their place under \<open>src/src\<close> (\<open>06_optimization\<close> apart from \<open>HostCounter\<close>,
  which \<open>Optimization\<close> has, and \<open>07_miniproj/oled/ssd1306.c\<close>); the first module, which only prints; the
  empty loops for the profiler and the tracer.
  Build files, boot scripts, configuration and reports are not programs of the system.
\<close>

end
